theory Spec2Isabelle
  imports Complex_Main
begin

section \<open>The ambient player: data model\<close>

text \<open>
  The engine is the module \<^verbatim>\<open>src/utils/ambientPlayer.js\<close>. Its module-scoped variables
  become the fields of one record, together with the parts of the browser the module
  talks to: the timeout table of the event loop, the two \<^verbatim>\<open>localStorage\<close> keys, the
  availability of the Web Audio API and a log of the commands sent to audio nodes.

  A finite JavaScript number is read as a real. The numbers that come from outside (the
  arguments of the setters, the fields of a settings object, the stored volume) may also
  be \<^verbatim>\<open>NaN\<close> or infinite, and so may the three variables they are stored in.
\<close>

datatype jsnum = Num real | Infinity | NegInfinity | NaN

fun is_finite :: "jsnum \<Rightarrow> bool" where
  "is_finite (Num r) = True"
| "is_finite _ = False"

text \<open>\<^verbatim>\<open>Math.min\<close> and \<^verbatim>\<open>Math.max\<close> of two numbers: \<^verbatim>\<open>NaN\<close> if either is.\<close>

fun Math_min :: "jsnum \<Rightarrow> jsnum \<Rightarrow> jsnum" where
  "Math_min NaN y = NaN"
| "Math_min x NaN = NaN"
| "Math_min NegInfinity y = NegInfinity"
| "Math_min x NegInfinity = NegInfinity"
| "Math_min Infinity y = y"
| "Math_min x Infinity = x"
| "Math_min (Num a) (Num b) = Num (min a b)"

fun Math_max :: "jsnum \<Rightarrow> jsnum \<Rightarrow> jsnum" where
  "Math_max NaN y = NaN"
| "Math_max x NaN = NaN"
| "Math_max Infinity y = Infinity"
| "Math_max x Infinity = Infinity"
| "Math_max NegInfinity y = y"
| "Math_max x NegInfinity = x"
| "Math_max (Num a) (Num b) = Num (max a b)"

text \<open>What \<^verbatim>\<open>localStorage\<close> does when it is used: it works, or \<^verbatim>\<open>setItem\<close> throws because
  the quota is exceeded, or every access throws because the browser blocks the store.\<close>

datatype store_mode = StoreOk | StoreFull | StoreBlocked

datatype layer = Pad | Bass | Melody | Texture | Heartbeat | Arpeggio

text \<open>An entry of \<^verbatim>\<open>activeOscillators\<close>: \<^verbatim>\<open>{ osc, gain, type }\<close>. Nodes are identified by
  the number they got when they were created; \<^verbatim>\<open>item.osc !== osc\<close> compares these.\<close>

record active_unit =
  osc :: nat
  gain :: nat
  utype :: layer

text \<open>An entry of \<^verbatim>\<open>activeTimers\<close>: a plain timeout id, or the tagged object
  \<^verbatim>\<open>{ id, type: 'arpeggio_note' }\<close>.\<close>

datatype timer_entry = TimerId nat | TimerObj nat string

text \<open>The closures handed to \<^verbatim>\<open>setTimeout\<close>. A closure that reschedules itself carries
  the current value of the variable it closes over (\<^verbatim>\<open>chordIndex\<close>, \<^verbatim>\<open>noteIndex\<close>,
  \<^verbatim>\<open>phraseIndex\<close>): each run schedules at most one successor, so the pending timer is the
  only holder of that variable.\<close>

datatype callback =
    ChordProgression nat
  | PlayBassNote nat
  | PlayPhrase nat
  | MelodyNote real
  | MelodyCleanup nat
  | PlayBeatPair
  | HeartbeatCleanup nat
  | PlayArpNote "real option list" nat
  | ArpCleanup nat

text \<open>Commands sent to audio nodes. Times are offsets from \<^verbatim>\<open>audioContext.currentTime\<close>
  at the call. Of the envelopes only the fades of a teardown are recorded.\<close>

datatype audio_cmd =
    OscStart nat layer string real
  | CancelScheduledValues nat
  | HoldValue nat
  | LinearRamp nat real real
  | StopAt nat real
  | SourceStart nat

datatype context_state = Suspended | Running

record engine =
  audioContext :: "context_state option"
  masterGain :: "real option"
  analyser :: "nat option"
  activeOscillators :: "active_unit list"
  activeTimers :: "timer_entry list"
  isMuted :: bool
  currentVolume :: jsnum
  isPlaying :: bool
  heartbeatEnabled :: bool
  arpeggiatorEnabled :: bool
  currentPadChordNotes :: "real list"
  padOscType :: string
  padFilterFreq :: jsnum
  chordSpeedMs :: jsnum
  webAudioAvailable :: bool
  newContextState :: context_state
  storeMuted :: "string option"
  storeVolume :: "jsnum option"
  storeMode :: store_mode
  pending :: "(nat \<times> callback) list"
  nextTimerId :: nat
  nextNodeId :: nat
  audioLog :: "audio_cmd list"
  consoleWarn :: "string list"
  pendingStarts :: nat

text \<open>
  \<^item> \<open>audioContext\<close> is \<open>None\<close> for \<^verbatim>\<open>null\<close>, else the context's \<^verbatim>\<open>state\<close>;
  \<^item> \<open>masterGain\<close> is \<open>None\<close> for \<^verbatim>\<open>null\<close>, else the value the engine last steered the
    master gain to; \<open>analyser\<close> is \<open>None\<close> for \<^verbatim>\<open>null\<close>, else its \<^verbatim>\<open>fftSize\<close>;
  \<^item> \<open>webAudioAvailable\<close> says whether \<^verbatim>\<open>new AudioContext()\<close> succeeds, \<open>newContextState\<close>
    the state a new context starts in;
  \<^item> \<open>storeMuted\<close> and \<open>storeVolume\<close> are the \<^verbatim>\<open>localStorage\<close> keys \<^verbatim>\<open>ambientMuted\<close> and
    \<^verbatim>\<open>ambientVolume\<close> (the latter as the number \<^verbatim>\<open>parseFloat\<close> reads from it, which is
    \<^verbatim>\<open>NaN\<close> for a string that does not start with a numeral); \<open>storeMode\<close> is the store's
    behaviour, which the browser may change at any time;
  \<^item> \<open>pending\<close> is the event loop's table of timeouts not yet fired or cleared; the delay
    of a timeout is not modelled, any pending timeout may fire next;
  \<^item> \<open>pendingStarts\<close> counts the calls of \<^verbatim>\<open>startAmbient\<close> waiting at
    \<^verbatim>\<open>await audioContext.resume()\<close>.
\<close>

text \<open>An uncaught exception leaves the state as it was when it was thrown.\<close>

datatype outcome = Returned engine | Threw engine

fun state_of :: "outcome \<Rightarrow> engine" where
  "state_of (Returned s) = s"
| "state_of (Threw s) = s"

fun threw :: "outcome \<Rightarrow> bool" where
  "threw (Returned s) = False"
| "threw (Threw s) = True"

fun andThen :: "outcome \<Rightarrow> (engine \<Rightarrow> outcome) \<Rightarrow> outcome" where
  "andThen (Returned s) f = f s"
| "andThen (Threw s) f = Threw s"

text \<open>The module as loaded, in a browser given by \<open>avail\<close>, \<open>st\<close> and the two stored keys; the
  store works at first.\<close>

definition init_engine :: "bool \<Rightarrow> context_state \<Rightarrow> string option \<Rightarrow> jsnum option \<Rightarrow> engine" where
  "init_engine avail st sm sv =
     \<lparr> audioContext = None, masterGain = None, analyser = None,
       activeOscillators = [], activeTimers = [],
       isMuted = False, currentVolume = Num 0.7, isPlaying = False,
       heartbeatEnabled = False, arpeggiatorEnabled = False,
       currentPadChordNotes = [],
       padOscType = ''triangle'', padFilterFreq = Num 2000, chordSpeedMs = Num 12000,
       webAudioAvailable = avail, newContextState = st,
       storeMuted = sm, storeVolume = sv, storeMode = StoreOk,
       pending = [], nextTimerId = 1, nextNodeId = 0,
       audioLog = [], consoleWarn = [], pendingStarts = 0 \<rparr>"

subsection \<open>Note and chord tables\<close>

text \<open>\<^verbatim>\<open>notes\<close> (a reserved word here, hence the suffix), \<^verbatim>\<open>chords\<close>, \<^verbatim>\<open>bassNotes\<close>, \<^verbatim>\<open>phrases\<close>.\<close>

definition notes_tbl :: "real list" where
  "notes_tbl = [196.00, 233.08, 261.63, 293.66, 311.13, 349.23, 392.00, 415.30,
            466.16, 523.25, 587.33, 622.25, 698.46]"

definition chords :: "real list list" where
  "chords = [[notes_tbl ! 0, notes_tbl ! 2, notes_tbl ! 6], [notes_tbl ! 2, notes_tbl ! 5, notes_tbl ! 9],
             [notes_tbl ! 4, notes_tbl ! 7, notes_tbl ! 11], [notes_tbl ! 3, notes_tbl ! 8, notes_tbl ! 10]]"

definition bassNotes :: "real list" where
  "bassNotes = [notes_tbl ! 0 / 2, notes_tbl ! 2 / 2, notes_tbl ! 4 / 2, notes_tbl ! 3 / 2]"

definition phrases :: "real list list" where
  "phrases = [[notes_tbl ! 6, notes_tbl ! 8, notes_tbl ! 9, notes_tbl ! 6],
              [notes_tbl ! 9, notes_tbl ! 6, notes_tbl ! 5, notes_tbl ! 2],
              [notes_tbl ! 5, notes_tbl ! 6, notes_tbl ! 8, notes_tbl ! 9, notes_tbl ! 8],
              [notes_tbl ! 8, notes_tbl ! 6, notes_tbl ! 4, notes_tbl ! 3]]"

text \<open>\<^verbatim>\<open>xs[i]\<close>: \<^verbatim>\<open>undefined\<close> out of range.\<close>

definition js_index :: "'a list \<Rightarrow> nat \<Rightarrow> 'a option" where
  "js_index xs i = (if i < length xs then Some (xs ! i) else None)"

subsection \<open>Browser primitives\<close>

definition setTimeout :: "callback \<Rightarrow> engine \<Rightarrow> nat \<times> engine" where
  "setTimeout cb s =
     (nextTimerId s,
      s\<lparr>pending := pending s @ [(nextTimerId s, cb)], nextTimerId := Suc (nextTimerId s)\<rparr>)"

definition clearTimeout :: "nat \<Rightarrow> engine \<Rightarrow> engine" where
  "clearTimeout i s = s\<lparr>pending := filter (\<lambda>p. fst p \<noteq> i) (pending s)\<rparr>"

definition pushTimer :: "timer_entry \<Rightarrow> engine \<Rightarrow> engine" where
  "pushTimer t s = s\<lparr>activeTimers := activeTimers s @ [t]\<rparr>"

definition newNode :: "engine \<Rightarrow> nat \<times> engine" where
  "newNode s = (nextNodeId s, s\<lparr>nextNodeId := Suc (nextNodeId s)\<rparr>)"

definition pushUnit :: "active_unit \<Rightarrow> engine \<Rightarrow> engine" where
  "pushUnit u s = s\<lparr>activeOscillators := activeOscillators s @ [u]\<rparr>"

definition emit :: "audio_cmd list \<Rightarrow> engine \<Rightarrow> engine" where
  "emit cs s = s\<lparr>audioLog := audioLog s @ cs\<rparr>"

subsection \<open>Initialization\<close>

text \<open>\<^verbatim>\<open>initAudio\<close>; the first component says whether the returned \<^verbatim>\<open>nodes\<close> is an object
  (\<open>True\<close>) or \<^verbatim>\<open>null\<close>. \<^verbatim>\<open>resume()\<close> only starts the resumption: the context's state
  changes later, by an event of its own. Inside the \<^verbatim>\<open>try\<close>, three things can throw:
  \<^verbatim>\<open>new AudioContext()\<close>, the first access to a blocked \<^verbatim>\<open>localStorage\<close>, and the
  assignment of a number that is not finite to \<^verbatim>\<open>masterGain.gain.value\<close>; the last comes
  after \<^verbatim>\<open>isMuted\<close> and \<^verbatim>\<open>currentVolume\<close> have been loaded. The \<^verbatim>\<open>catch\<close> sets the three
  nodes to \<^verbatim>\<open>null\<close>.\<close>

definition initAudio :: "engine \<Rightarrow> bool \<times> engine" where
  "initAudio s =
     (if audioContext s \<noteq> None then (True, s)
      else if webAudioAvailable s \<and> storeMode s \<noteq> StoreBlocked then
        (let muted = (storeMuted s = Some ''true'');
             vol = (case storeVolume s of Some v \<Rightarrow> v | None \<Rightarrow> Num 0.7);
             s1 = s\<lparr>isMuted := muted, currentVolume := vol\<rparr>
         in case (if muted then Num 0 else vol) of
              Num g \<Rightarrow> (True, s1\<lparr>audioContext := Some (newContextState s),
                                   masterGain := Some g, analyser := Some 1024\<rparr>)
            | _ \<Rightarrow> (False, s1\<lparr>audioContext := None, masterGain := None, analyser := None\<rparr>))
      else (False, s\<lparr>audioContext := None, masterGain := None, analyser := None\<rparr>))"

subsection \<open>Volume, mute and the parameter setters\<close>

text \<open>The \<^verbatim>\<open>try\<close>/\<^verbatim>\<open>catch\<close> around \<^verbatim>\<open>localStorage.setItem('ambientVolume', ...)\<close>: a write that
  throws is logged and nothing is stored.\<close>

definition saveVolume :: "engine \<Rightarrow> engine" where
  "saveVolume s = (if storeMode s = StoreOk then s\<lparr>storeVolume := Some (currentVolume s)\<rparr> else s)"

text \<open>\<^verbatim>\<open>setVolume(value)\<close>; \<open>v\<close> is the number \<^verbatim>\<open>Math.min\<close> makes of \<^verbatim>\<open>value\<close>. The new volume
  is stored in \<^verbatim>\<open>currentVolume\<close> first; \<^verbatim>\<open>setTargetAtTime\<close> throws if it is \<^verbatim>\<open>NaN\<close>.\<close>

definition setVolume :: "jsnum \<Rightarrow> engine \<Rightarrow> outcome" where
  "setVolume v s =
     (let (nodes, s0) = initAudio s in
      if \<not> nodes \<or> masterGain s0 = None then Returned s0
      else
        let newVolume = Math_max (Num 0) (Math_min (Num 1) v);
            s1 = s0\<lparr>currentVolume := newVolume\<rparr>
        in if \<not> isMuted s1 then
             (case newVolume of
                Num g \<Rightarrow> Returned (saveVolume (s1\<lparr>masterGain := Some g\<rparr>))
              | _ \<Rightarrow> Threw s1)
           else Returned (saveVolume s1))"

text \<open>\<^verbatim>\<open>toggleMute()\<close>; \<open>gv\<close> is what \<^verbatim>\<open>masterGain.gain.value\<close> reads at the call, a finite
  number. The flag is flipped first. Muting ends with \<^verbatim>\<open>localStorage.setItem\<close> and
  unmuting with \<^verbatim>\<open>localStorage.removeItem\<close>, both outside any \<^verbatim>\<open>try\<close>; unmuting ramps to
  \<^verbatim>\<open>currentVolume\<close>, which throws if that is not finite, the gain being held at 0 by then.\<close>

definition toggleMute :: "real \<Rightarrow> engine \<Rightarrow> outcome" where
  "toggleMute gv s =
     (let (nodes, s0) = initAudio s in
      if \<not> nodes \<or> masterGain s0 = None then Returned s0
      else
        let s1 = s0\<lparr>isMuted := \<not> isMuted s0\<rparr> in
        if isMuted s1 then
          (let s2 = (if gv > 0.001 then s1\<lparr>currentVolume := Num gv\<rparr> else s1);
               s3 = s2\<lparr>masterGain := Some 0\<rparr>
           in if storeMode s3 = StoreOk then Returned (s3\<lparr>storeMuted := Some ''true''\<rparr>)
              else Threw s3)
        else
          (case currentVolume s1 of
             Num g \<Rightarrow>
               let s2 = s1\<lparr>masterGain := Some g\<rparr>
               in if storeMode s2 = StoreBlocked then Threw s2
                  else Returned (s2\<lparr>storeMuted := None\<rparr>)
           | _ \<Rightarrow> Threw (s1\<lparr>masterGain := Some 0\<rparr>)))"

definition validOscTypes :: "string list" where
  "validOscTypes = [''sine'', ''square'', ''sawtooth'', ''triangle'']"

text \<open>\<^verbatim>\<open>setPadOscillatorType(type)\<close>, for a string; \<^verbatim>\<open>console.warn\<close> is the \<open>consoleWarn\<close> log.\<close>

definition setPadOscillatorType :: "string \<Rightarrow> engine \<Rightarrow> engine" where
  "setPadOscillatorType ty s =
     (if ty \<in> set validOscTypes then s\<lparr>padOscType := ty\<rparr>
      else s\<lparr>consoleWarn := consoleWarn s @ [''Ambient Audio: Invalid oscillator type - '' @ ty]\<rparr>)"

text \<open>\<^verbatim>\<open>setPadFilterFrequency(freq)\<close> and \<^verbatim>\<open>setChordSpeed(ms)\<close>; the argument here is the
  number \<^verbatim>\<open>Number(freq)\<close> or \<^verbatim>\<open>Number(ms)\<close>: the argument itself if it is a number, \<^verbatim>\<open>NaN\<close>
  for \<^verbatim>\<open>undefined\<close> and for a string that is not a numeral.\<close>

definition setPadFilterFrequency :: "jsnum \<Rightarrow> engine \<Rightarrow> engine" where
  "setPadFilterFrequency freq s =
     s\<lparr>padFilterFreq := Math_max (Num 100) (Math_min (Num 10000) freq)\<rparr>"

definition setChordSpeed :: "jsnum \<Rightarrow> engine \<Rightarrow> engine" where
  "setChordSpeed ms s = s\<lparr>chordSpeedMs := Math_max (Num 4000) (Math_min (Num 30000) ms)\<rparr>"


section \<open>The sound layers\<close>

text \<open>A callback of \<^verbatim>\<open>forEach\<close> that throws ends the loop.\<close>

fun forEach :: "('a \<Rightarrow> engine \<Rightarrow> outcome) \<Rightarrow> 'a list \<Rightarrow> engine \<Rightarrow> outcome" where
  "forEach f [] s = Returned s"
| "forEach f (x # xs) s = andThen (f x s) (forEach f xs)"

text \<open>The teardown of one unit: \<^verbatim>\<open>cancelScheduledValues(now)\<close>,
  \<^verbatim>\<open>setValueAtTime(gain.gain.value, now)\<close>, \<^verbatim>\<open>linearRampToValueAtTime(0.0001, now + d)\<close>
  and \<^verbatim>\<open>osc.stop(now + e)\<close>. The three \<^verbatim>\<open>activeOscillators.filter\<close> sweeps (pad,
  heartbeat, arpeggio) differ in the layer and the two durations only.\<close>

definition fadeCmds :: "real \<Rightarrow> real \<Rightarrow> active_unit \<Rightarrow> audio_cmd list" where
  "fadeCmds d e u =
     [CancelScheduledValues (gain u), HoldValue (gain u), LinearRamp (gain u) 0.0001 d,
      StopAt (osc u) e]"

definition fadeAndRemove :: "layer \<Rightarrow> real \<Rightarrow> real \<Rightarrow> engine \<Rightarrow> engine" where
  "fadeAndRemove ty d e s =
     (emit (concat (map (fadeCmds d e) (filter (\<lambda>u. utype u = ty) (activeOscillators s)))) s)
       \<lparr>activeOscillators := filter (\<lambda>u. utype u \<noteq> ty) (activeOscillators s)\<rparr>"

text \<open>The self-cleanup of a unit: \<^verbatim>\<open>activeOscillators.filter(item => item.osc !== osc)\<close>.\<close>

definition cleanup :: "nat \<Rightarrow> engine \<Rightarrow> engine" where
  "cleanup n s = s\<lparr>activeOscillators := filter (\<lambda>item. osc item \<noteq> n) (activeOscillators s)\<rparr>"

subsection \<open>Arpeggio\<close>

text \<open>\<^verbatim>\<open>playArpNote\<close>, with the closure's \<^verbatim>\<open>arpNotes\<close> and \<^verbatim>\<open>noteIndex\<close>. An entry \<open>None\<close>
  of \<open>arpNotes\<close> is the \<^verbatim>\<open>NaN\<close> that \<^verbatim>\<open>undefined * 2\<close> gives; assigning it to a frequency
  throws, as do \<^verbatim>\<open>audioContext.createOscillator()\<close> on \<^verbatim>\<open>null\<close> and
  \<^verbatim>\<open>gain.connect(null)\<close>.\<close>

definition playArpNote :: "real option list \<Rightarrow> nat \<Rightarrow> engine \<Rightarrow> outcome" where
  "playArpNote arpNotes noteIndex s =
     (if audioContext s = None then Threw s
      else
        let (n, a) = newNode s in
        case js_index arpNotes (noteIndex mod length arpNotes) of
          Some (Some freq) \<Rightarrow>
            if masterGain a = None then Threw a
            else
              let b = emit [OscStart n Arpeggio ''sine'' freq, StopAt n (0.25 + 0.1)] a;
                  c = pushUnit \<lparr>osc = n, gain = n, utype = Arpeggio\<rparr> b;
                  (cleanupTimer, d) = setTimeout (ArpCleanup n) c;
                  e = pushTimer (TimerId cleanupTimer) d
              in if isPlaying e \<and> arpeggiatorEnabled e then
                   (let (nextNoteTimerId, f) = setTimeout (PlayArpNote arpNotes (noteIndex + 1)) e
                    in Returned (pushTimer (TimerObj nextNoteTimerId ''arpeggio_note'') f))
                 else Returned e
        | _ \<Rightarrow> Threw a)"

definition createArpeggio :: "engine \<Rightarrow> outcome" where
  "createArpeggio s =
     (if audioContext s = None \<or> masterGain s = None \<or> \<not> isPlaying s
         \<or> \<not> arpeggiatorEnabled s \<or> length (currentPadChordNotes s) = 0
      then Returned s
      else
        let arpNotes = map Some (currentPadChordNotes s)
                       @ [map_option (\<lambda>x. x * 2) (js_index (currentPadChordNotes s) 1)]
        in playArpNote arpNotes 0 s)"

fun is_arpeggio_note :: "timer_entry \<Rightarrow> bool" where
  "is_arpeggio_note (TimerObj i ty) = (ty = ''arpeggio_note'')"
| "is_arpeggio_note (TimerId i) = False"

fun timer_id :: "timer_entry \<Rightarrow> nat" where
  "timer_id (TimerObj i ty) = i"
| "timer_id (TimerId i) = i"

text \<open>The side effect of the \<^verbatim>\<open>activeTimers.filter\<close> of \<^verbatim>\<open>stopArpeggioSequence\<close>.\<close>

definition clearArpEntry :: "timer_entry \<Rightarrow> engine \<Rightarrow> engine" where
  "clearArpEntry timer s =
     (if is_arpeggio_note timer then clearTimeout (timer_id timer) s else s)"

text \<open>\<^verbatim>\<open>stopArpeggioSequence\<close>: the timers are swept first, then \<^verbatim>\<open>audioContext.currentTime\<close>
  is read without a guard.\<close>

definition stopArpeggioSequence :: "engine \<Rightarrow> outcome" where
  "stopArpeggioSequence s =
     (let s1 = foldl (\<lambda>a timer. clearArpEntry timer a) s (activeTimers s);
          s2 = s1\<lparr>activeTimers := filter (\<lambda>timer. \<not> is_arpeggio_note timer) (activeTimers s1)\<rparr>
      in if audioContext s2 = None then Threw s2
         else Returned (fadeAndRemove Arpeggio 0.1 0.2 s2))"

subsection \<open>Pad\<close>

text \<open>\<^verbatim>\<open>validOscTypes.includes(padOscType) ? padOscType : 'triangle'\<close>.\<close>

definition padWaveform :: "engine \<Rightarrow> string" where
  "padWaveform s = (if padOscType s \<in> set validOscTypes then padOscType s else ''triangle'')"

text \<open>The body of \<^verbatim>\<open>currentPadChordNotes.forEach\<close>: two oscillators for one frequency, behind
  one filter. \<^verbatim>\<open>filter.frequency.value = padFilterFreq\<close> throws if \<^verbatim>\<open>padFilterFreq\<close> is not
  finite, \<^verbatim>\<open>filter.connect(masterGain)\<close> if \<^verbatim>\<open>masterGain\<close> is \<^verbatim>\<open>null\<close>; both come before
  the oscillators are started and registered.\<close>

definition padNote :: "real \<Rightarrow> engine \<Rightarrow> outcome" where
  "padNote freq s =
     (let (n, a) = newNode s;
          (n2, b) = newNode a
      in if \<not> is_finite (padFilterFreq b) \<or> masterGain b = None then Threw b
         else
           let c = emit [OscStart n Pad (padWaveform b) freq,
                         OscStart n2 Pad ''sine'' (freq * 1.003)] b;
               d = pushUnit \<lparr>osc = n, gain = n, utype = Pad\<rparr> c
           in Returned (pushUnit \<lparr>osc = n2, gain = n2, utype = Pad\<rparr> d))"

text \<open>\<^verbatim>\<open>chordProgression\<close>, with the closure's \<^verbatim>\<open>chordIndex\<close>. The cursor is always below
  \<^verbatim>\<open>chords.length\<close>; were it not, \<^verbatim>\<open>chords[chordIndex]\<close> would be \<^verbatim>\<open>undefined\<close> and
  \<^verbatim>\<open>forEach\<close> would throw after the old pad units have been faded.
  \<^verbatim>\<open>JSON.stringify\<close> of two arrays of numbers differs exactly when the arrays do.\<close>

definition chordProgression :: "nat \<Rightarrow> engine \<Rightarrow> outcome" where
  "chordProgression chordIndex s =
     (if \<not> isPlaying s \<or> audioContext s = None then Returned s
      else
        case js_index chords chordIndex of
          None \<Rightarrow> Threw (fadeAndRemove Pad 4 4.1 s)
        | Some chord \<Rightarrow>
            let previousChordNotes = currentPadChordNotes s;
                s1 = s\<lparr>currentPadChordNotes := chord\<rparr>;
                chordChanged = (previousChordNotes \<noteq> currentPadChordNotes s1);
                chordIndex' = (chordIndex + 1) mod length chords;
                s2 = fadeAndRemove Pad 4 4.1 s1
            in andThen (forEach padNote (currentPadChordNotes s2) s2)
                 (\<lambda>s3.
                    let (timerId, s4) = setTimeout (ChordProgression chordIndex') s3;
                        s5 = pushTimer (TimerId timerId) s4
                    in if arpeggiatorEnabled s5 \<and> chordChanged
                       then andThen (stopArpeggioSequence s5) createArpeggio
                       else Returned s5))"

text \<open>\<^verbatim>\<open>createPad\<close>; \<open>r\<close> is \<^verbatim>\<open>Math.floor(Math.random() * chords.length)\<close>, always below
  \<^verbatim>\<open>chords.length\<close>. Were it not, \<^verbatim>\<open>currentPadChordNotes\<close> would be \<^verbatim>\<open>undefined\<close> and the first
  statement of \<^verbatim>\<open>chordProgression\<close>, \<^verbatim>\<open>[...currentPadChordNotes]\<close>, would throw.\<close>

definition createPad :: "nat \<Rightarrow> engine \<Rightarrow> outcome" where
  "createPad r s =
     (if audioContext s = None \<or> masterGain s = None \<or> \<not> isPlaying s then Returned s
      else
        case js_index chords r of
          None \<Rightarrow> Threw s
        | Some chord \<Rightarrow> chordProgression r (s\<lparr>currentPadChordNotes := chord\<rparr>))"

subsection \<open>Bassline\<close>

text \<open>Bass oscillators stop by themselves and are never entered in \<^verbatim>\<open>activeOscillators\<close>.\<close>

definition playBassNote :: "nat \<Rightarrow> engine \<Rightarrow> outcome" where
  "playBassNote noteIndex s =
     (if \<not> isPlaying s \<or> audioContext s = None then Returned s
      else
        let noteIndex' = (noteIndex + 1) mod length bassNotes;
            (n, a) = newNode s;
            (sub, b) = newNode a
        in case js_index bassNotes noteIndex of
             None \<Rightarrow> Threw b
           | Some freq \<Rightarrow>
               if masterGain b = None then Threw b
               else
                 let c = emit [OscStart n Bass ''sine'' freq, OscStart sub Bass ''sine'' (freq / 2),
                               StopAt n 7, StopAt sub 7] b;
                     (timerId, d) = setTimeout (PlayBassNote noteIndex') c
                 in Returned (pushTimer (TimerId timerId) d))"

text \<open>\<^verbatim>\<open>createBassline\<close>; \<open>r\<close> is \<^verbatim>\<open>Math.floor(Math.random() * bassNotes.length)\<close>.\<close>

definition createBassline :: "nat \<Rightarrow> engine \<Rightarrow> engine" where
  "createBassline r s =
     (if audioContext s = None \<or> masterGain s = None \<or> \<not> isPlaying s then s
      else
        let (startTimerId, a) = setTimeout (PlayBassNote r) s
        in pushTimer (TimerId startTimerId) a)"

subsection \<open>Melody\<close>

text \<open>The callback of a note's timeout.\<close>

definition melodyNote :: "real \<Rightarrow> engine \<Rightarrow> outcome" where
  "melodyNote freq s =
     (if \<not> isPlaying s \<or> audioContext s = None then Returned s
      else
        let (n, a) = newNode s
        in if masterGain a = None then Threw a
           else
             let b = emit [OscStart n Melody ''sine'' freq, StopAt n 3] a;
                 c = pushUnit \<lparr>osc = n, gain = n, utype = Melody\<rparr> b;
                 (cleanupTimer, d) = setTimeout (MelodyCleanup n) c
             in Returned (pushTimer (TimerId cleanupTimer) d))"

text \<open>The body of \<^verbatim>\<open>currentPhrase.forEach\<close>: one timeout per note of the phrase.\<close>

definition scheduleMelodyNote :: "real \<Rightarrow> engine \<Rightarrow> engine" where
  "scheduleMelodyNote freq s =
     (let (noteTimeout, a) = setTimeout (MelodyNote freq) s
      in pushTimer (TimerId noteTimeout) a)"

definition playPhrase :: "nat \<Rightarrow> engine \<Rightarrow> outcome" where
  "playPhrase phraseIndex s =
     (if \<not> isPlaying s \<or> audioContext s = None then Returned s
      else
        case js_index phrases phraseIndex of
          None \<Rightarrow> Threw s
        | Some currentPhrase \<Rightarrow>
            let phraseIndex' = (phraseIndex + 1) mod length phrases;
                s1 = foldl (\<lambda>a freq. scheduleMelodyNote freq a) s currentPhrase;
                (timerId, s2) = setTimeout (PlayPhrase phraseIndex') s1
            in Returned (pushTimer (TimerId timerId) s2))"

text \<open>\<^verbatim>\<open>createMelody\<close>; \<open>r\<close> is \<^verbatim>\<open>Math.floor(Math.random() * phrases.length)\<close>.\<close>

definition createMelody :: "nat \<Rightarrow> engine \<Rightarrow> engine" where
  "createMelody r s =
     (if audioContext s = None \<or> masterGain s = None \<or> \<not> isPlaying s then s
      else
        let (firstPhraseTimer, a) = setTimeout (PlayPhrase r) s
        in pushTimer (TimerId firstPhraseTimer) a)"

subsection \<open>Texture\<close>

text \<open>\<^verbatim>\<open>createTexture\<close> starts one looping noise source and sets no timeout.\<close>

definition createTexture :: "engine \<Rightarrow> engine" where
  "createTexture s =
     (if audioContext s = None \<or> masterGain s = None \<or> \<not> isPlaying s then s
      else if list_ex (\<lambda>item. utype item = Texture) (activeOscillators s) then s
      else
        let (noiseSource, a) = newNode s;
            b = emit [SourceStart noiseSource] a
        in pushUnit \<lparr>osc = noiseSource, gain = noiseSource, utype = Texture\<rparr> b)"

subsection \<open>Heartbeat\<close>

definition playSingleBeat :: "real \<Rightarrow> engine \<Rightarrow> outcome" where
  "playSingleBeat startTimeOffset s =
     (if \<not> isPlaying s \<or> audioContext s = None then Returned s
      else
        let (n, a) = newNode s
        in if masterGain a = None then Threw a
           else
             let b = emit [OscStart n Heartbeat ''triangle'' 60,
                           StopAt n (startTimeOffset + 0.2 + 0.1)] a;
                 c = pushUnit \<lparr>osc = n, gain = n, utype = Heartbeat\<rparr> b;
                 (cleanupTimer, d) = setTimeout (HeartbeatCleanup n) c
             in Returned (pushTimer (TimerId cleanupTimer) d))"

definition playBeatPair :: "engine \<Rightarrow> outcome" where
  "playBeatPair s =
     (if \<not> isPlaying s \<or> audioContext s = None \<or> \<not> heartbeatEnabled s then Returned s
      else
        andThen (playSingleBeat 0 s) (\<lambda>s1.
        andThen (playSingleBeat 0.35 s1) (\<lambda>s2.
          let (timerId, s3) = setTimeout PlayBeatPair s2
          in Returned (pushTimer (TimerId timerId) s3))))"

definition createHeartbeat :: "engine \<Rightarrow> outcome" where
  "createHeartbeat s =
     (if audioContext s = None \<or> masterGain s = None \<or> \<not> isPlaying s \<or> \<not> heartbeatEnabled s
      then Returned s
      else playBeatPair s)"

section \<open>Playback control\<close>

text \<open>\<^verbatim>\<open>startAmbient\<close> from \<^verbatim>\<open>isPlaying = true\<close> on; \<open>r1\<close>, \<open>r2\<close>, \<open>r3\<close> are the random
  cursors of pad, bassline and melody.\<close>

definition startLayers :: "nat \<Rightarrow> nat \<Rightarrow> nat \<Rightarrow> engine \<Rightarrow> outcome" where
  "startLayers r1 r2 r3 s =
     (let s1 = s\<lparr>isPlaying := True\<rparr>
      in andThen (setVolume (currentVolume s1) s1) (\<lambda>s2.
         andThen (createPad r1 s2) (\<lambda>s3.
           let s4 = createBassline r2 s3;
               s5 = createTexture s4;
               s6 = createMelody r3 s5
           in andThen (if heartbeatEnabled s6 then createHeartbeat s6 else Returned s6) (\<lambda>s7.
                if arpeggiatorEnabled s7 \<and> length (currentPadChordNotes s7) > 0
                then createArpeggio s7 else Returned s7))))"

text \<open>\<^verbatim>\<open>startAmbient\<close> as one step; \<open>resumed\<close> says whether \<^verbatim>\<open>await audioContext.resume()\<close>
  succeeds when the context is suspended.\<close>

definition startAmbient :: "bool \<Rightarrow> nat \<Rightarrow> nat \<Rightarrow> nat \<Rightarrow> engine \<Rightarrow> outcome" where
  "startAmbient resumed r1 r2 r3 s =
     (let (nodes, s0) = initAudio s in
      if \<not> nodes \<or> audioContext s0 = None \<or> isPlaying s0 then Returned s0
      else if audioContext s0 = Some Suspended then
        (if resumed then startLayers r1 r2 r3 (s0\<lparr>audioContext := Some Running\<rparr>)
         else Returned s0)
      else startLayers r1 r2 r3 s0)"

text \<open>The same in two steps, for a suspended context: up to the \<^verbatim>\<open>await\<close>, and from the
  settled promise on. Other events may run in between.\<close>

definition startAmbient_begin :: "nat \<Rightarrow> nat \<Rightarrow> nat \<Rightarrow> engine \<Rightarrow> outcome" where
  "startAmbient_begin r1 r2 r3 s =
     (let (nodes, s0) = initAudio s in
      if \<not> nodes \<or> audioContext s0 = None \<or> isPlaying s0 then Returned s0
      else if audioContext s0 = Some Suspended then
        Returned (s0\<lparr>pendingStarts := Suc (pendingStarts s0)\<rparr>)
      else startLayers r1 r2 r3 s0)"

definition startAmbient_settled :: "bool \<Rightarrow> nat \<Rightarrow> nat \<Rightarrow> nat \<Rightarrow> engine \<Rightarrow> outcome" where
  "startAmbient_settled resumed r1 r2 r3 s =
     (if pendingStarts s = 0 then Returned s
      else
        let s0 = s\<lparr>pendingStarts := pendingStarts s - 1\<rparr>
        in if resumed then startLayers r1 r2 r3 (s0\<lparr>audioContext := map_option (\<lambda>c. Running) (audioContext s0)\<rparr>)
           else Returned s0)"

text \<open>The body of \<^verbatim>\<open>activeTimers.forEach\<close> in \<^verbatim>\<open>stopAmbient\<close>: a tagged entry is
  cleared if its \<^verbatim>\<open>id\<close> is truthy, a number always.\<close>

fun clearEntry :: "timer_entry \<Rightarrow> engine \<Rightarrow> engine" where
  "clearEntry (TimerObj i ty) s = (if i \<noteq> 0 then clearTimeout i s else s)"
| "clearEntry (TimerId i) s = clearTimeout i s"

text \<open>\<^verbatim>\<open>stopAmbient\<close>. Errors of the fades are caught and ignored in the source.\<close>

definition stopAmbient :: "engine \<Rightarrow> engine" where
  "stopAmbient s =
     (if audioContext s = None \<or> \<not> isPlaying s then s
      else
        let s1 = s\<lparr>isPlaying := False\<rparr>;
            s2 = foldl (\<lambda>a timer. clearEntry timer a) s1 (activeTimers s1);
            s3 = s2\<lparr>activeTimers := []\<rparr>;
            s4 = emit (concat (map (fadeCmds 1.0 1.1) (activeOscillators s3))) s3
        in s4\<lparr>activeOscillators := []\<rparr>)"

section \<open>Toggles\<close>

text \<open>\<^verbatim>\<open>toggleHeartbeat\<close>: the disable branch reads \<^verbatim>\<open>audioContext.currentTime\<close> without a
  guard; its \<^verbatim>\<open>activeTimers.filter\<close> keeps every timer.\<close>

definition toggleHeartbeat :: "engine \<Rightarrow> outcome" where
  "toggleHeartbeat s =
     (let s1 = s\<lparr>heartbeatEnabled := \<not> heartbeatEnabled s\<rparr> in
      if isPlaying s1 then
        (if heartbeatEnabled s1 then createHeartbeat s1
         else if audioContext s1 = None then Threw s1
         else
           let s2 = fadeAndRemove Heartbeat 0.1 0.2 s1
           in Returned (s2\<lparr>activeTimers := filter (\<lambda>i. True) (activeTimers s2)\<rparr>))
      else Returned s1)"

definition toggleArpeggiator :: "engine \<Rightarrow> outcome" where
  "toggleArpeggiator s =
     (let s1 = s\<lparr>arpeggiatorEnabled := \<not> arpeggiatorEnabled s\<rparr> in
      if isPlaying s1 then
        (if arpeggiatorEnabled s1 then createArpeggio s1 else stopArpeggioSequence s1)
      else Returned s1)"

section \<open>Timers firing\<close>

fun runCallback :: "callback \<Rightarrow> engine \<Rightarrow> outcome" where
  "runCallback (ChordProgression i) s = chordProgression i s"
| "runCallback (PlayBassNote i) s = playBassNote i s"
| "runCallback (PlayPhrase i) s = playPhrase i s"
| "runCallback (MelodyNote f) s = melodyNote f s"
| "runCallback (MelodyCleanup n) s = Returned (cleanup n s)"
| "runCallback PlayBeatPair s = playBeatPair s"
| "runCallback (HeartbeatCleanup n) s = Returned (cleanup n s)"
| "runCallback (PlayArpNote arpNotes i) s = playArpNote arpNotes i s"
| "runCallback (ArpCleanup n) s = Returned (cleanup n s)"

text \<open>The event loop runs the callback of a pending timeout and forgets the timeout; an
  id that is not pending fires nothing.\<close>

definition fireTimer :: "nat \<Rightarrow> engine \<Rightarrow> outcome" where
  "fireTimer i s =
     (case map_of (pending s) i of
        None \<Rightarrow> Returned s
      | Some cb \<Rightarrow> runCallback cb (s\<lparr>pending := filter (\<lambda>p. fst p \<noteq> i) (pending s)\<rparr>))"


section \<open>Settings\<close>

text \<open>A JavaScript value as far as \<^verbatim>\<open>typeof\<close> tells values apart; \<open>JObject\<close> stands for
  any object or array. A property that is absent reads as \<open>JUndefined\<close>.\<close>

datatype jsval = JUndefined | JNull | JBool bool | JNumber jsnum | JString string | JObject

text \<open>\<^verbatim>\<open>typeof x === 'number'\<close>, \<^verbatim>\<open>'boolean'\<close>, \<^verbatim>\<open>'string'\<close>, with the value when it holds.\<close>

fun asNumber :: "jsval \<Rightarrow> jsnum option" where
  "asNumber (JNumber v) = Some v"
| "asNumber _ = None"

fun asBoolean :: "jsval \<Rightarrow> bool option" where
  "asBoolean (JBool b) = Some b"
| "asBoolean _ = None"

fun asString :: "jsval \<Rightarrow> string option" where
  "asString (JString x) = Some x"
| "asString _ = None"

text \<open>The settings object; the fields carry the prefix \<open>s_\<close> to keep them apart from the
  engine's variables of the same names.\<close>

record settings =
  s_volume :: jsval
  s_isMuted :: jsval
  s_padOscType :: jsval
  s_padFilterFreq :: jsval
  s_chordSpeedMs :: jsval
  s_heartbeatEnabled :: jsval
  s_arpeggiatorEnabled :: jsval

text \<open>The argument of \<^verbatim>\<open>applySettings\<close>: \<^verbatim>\<open>null\<close>, \<^verbatim>\<open>undefined\<close> or an object.\<close>

datatype settings_arg = ArgNull | ArgUndefined | ArgObject settings

definition getSettings :: "engine \<Rightarrow> settings" where
  "getSettings s =
     \<lparr> s_volume = JNumber (currentVolume s),
       s_isMuted = JBool (isMuted s),
       s_padOscType = JString (padOscType s),
       s_padFilterFreq = JNumber (padFilterFreq s),
       s_chordSpeedMs = JNumber (chordSpeedMs s),
       s_heartbeatEnabled = JBool (heartbeatEnabled s),
       s_arpeggiatorEnabled = JBool (arpeggiatorEnabled s) \<rparr>"

text \<open>\<^verbatim>\<open>applySettings(settings)\<close>; \<open>gv\<close> is the master gain's value, read if
  \<^verbatim>\<open>toggleMute\<close> runs. An exception of \<^verbatim>\<open>setVolume\<close> or \<^verbatim>\<open>toggleMute\<close> ends the call.\<close>

definition applySettings :: "real \<Rightarrow> settings_arg \<Rightarrow> engine \<Rightarrow> outcome" where
  "applySettings gv arg s =
     (case arg of
        ArgNull \<Rightarrow> Returned s
      | ArgUndefined \<Rightarrow> Returned s
      | ArgObject st \<Rightarrow>
          andThen (case asNumber (s_volume st) of
                     Some v \<Rightarrow> setVolume v s | None \<Rightarrow> Returned s) (\<lambda>s1.
          andThen (case asBoolean (s_isMuted st) of
                     Some b \<Rightarrow> if b \<noteq> isMuted s1 then toggleMute gv s1 else Returned s1
                   | None \<Rightarrow> Returned s1) (\<lambda>s2.
          let s3 = (case asString (s_padOscType st) of
                      Some ty \<Rightarrow> setPadOscillatorType ty s2 | None \<Rightarrow> s2);
              s4 = (case asNumber (s_padFilterFreq st) of
                      Some f \<Rightarrow> setPadFilterFrequency f s3 | None \<Rightarrow> s3);
              s5 = (case asNumber (s_chordSpeedMs st) of
                      Some ms \<Rightarrow> setChordSpeed ms s4 | None \<Rightarrow> s4)
          in andThen
               (case asBoolean (s_heartbeatEnabled st) of
                  Some b \<Rightarrow> if b \<noteq> heartbeatEnabled s5 then toggleHeartbeat s5 else Returned s5
                | None \<Rightarrow> Returned s5)
               (\<lambda>s6. case asBoolean (s_arpeggiatorEnabled st) of
                        Some b \<Rightarrow> if b \<noteq> arpeggiatorEnabled s6 then toggleArpeggiator s6
                                  else Returned s6
                      | None \<Rightarrow> Returned s6))))"

text \<open>\<^verbatim>\<open>suspendAudio\<close> and \<^verbatim>\<open>resumeAudio\<close>, the context's state changing at once.\<close>

definition suspendAudio :: "engine \<Rightarrow> engine" where
  "suspendAudio s = (if audioContext s = Some Running then s\<lparr>audioContext := Some Suspended\<rparr> else s)"

definition resumeAudio :: "engine \<Rightarrow> engine" where
  "resumeAudio s = (if audioContext s = Some Suspended then s\<lparr>audioContext := Some Running\<rparr> else s)"

section \<open>Reachable states\<close>

text \<open>
  The states the engine can be in: it starts with the module's initial values, in any
  browser and with anything in the store, and moves by calls of the exported functions
  with any arguments, by timeouts firing, by a waiting \<^verbatim>\<open>startAmbient\<close> being resumed, by
  the browser suspending or resuming the context and by the store changing its
  behaviour. A call that throws leaves the engine in the state it had at the throw. The
  random cursors are below the lengths of their tables.
\<close>

inductive reachable :: "engine \<Rightarrow> bool" where
  r_init: "reachable (init_engine avail st sm sv)"
| r_storeMode: "reachable s \<Longrightarrow> reachable (s\<lparr>storeMode := m\<rparr>)"
| r_initAudio: "reachable s \<Longrightarrow> reachable (snd (initAudio s))"
| r_startAmbient: "reachable s \<Longrightarrow> r1 < length chords \<Longrightarrow> r2 < length bassNotes
             \<Longrightarrow> r3 < length phrases \<Longrightarrow> reachable (state_of (startAmbient resumed r1 r2 r3 s))"
| r_startAmbient_begin: "reachable s \<Longrightarrow> r1 < length chords \<Longrightarrow> r2 < length bassNotes
             \<Longrightarrow> r3 < length phrases \<Longrightarrow> reachable (state_of (startAmbient_begin r1 r2 r3 s))"
| r_startAmbient_settled: "reachable s \<Longrightarrow> r1 < length chords \<Longrightarrow> r2 < length bassNotes
             \<Longrightarrow> r3 < length phrases
             \<Longrightarrow> reachable (state_of (startAmbient_settled resumed r1 r2 r3 s))"
| r_stopAmbient: "reachable s \<Longrightarrow> reachable (stopAmbient s)"
| r_toggleMute: "reachable s \<Longrightarrow> reachable (state_of (toggleMute gv s))"
| r_setVolume: "reachable s \<Longrightarrow> reachable (state_of (setVolume v s))"
| r_applySettings: "reachable s \<Longrightarrow> reachable (state_of (applySettings gv arg s))"
| r_setPadOscillatorType: "reachable s \<Longrightarrow> reachable (setPadOscillatorType ty s)"
| r_setPadFilterFrequency: "reachable s \<Longrightarrow> reachable (setPadFilterFrequency freq s)"
| r_setChordSpeed: "reachable s \<Longrightarrow> reachable (setChordSpeed ms s)"
| r_toggleHeartbeat: "reachable s \<Longrightarrow> reachable (state_of (toggleHeartbeat s))"
| r_toggleArpeggiator: "reachable s \<Longrightarrow> reachable (state_of (toggleArpeggiator s))"
| r_suspendAudio: "reachable s \<Longrightarrow> reachable (suspendAudio s)"
| r_resumeAudio: "reachable s \<Longrightarrow> reachable (resumeAudio s)"
| r_fireTimer: "reachable s \<Longrightarrow> reachable (state_of (fireTimer i s))"


section \<open>Invariants\<close>

text \<open>The audio nodes exist together, and playback (or a start waiting to resume) needs
  them.\<close>

definition nodes_inv :: "engine \<Rightarrow> bool" where
  "nodes_inv s \<longleftrightarrow>
     ((isPlaying s \<or> 0 < pendingStarts s) \<longrightarrow> audioContext s \<noteq> None)
     \<and> (audioContext s \<noteq> None \<longrightarrow> masterGain s \<noteq> None \<and> analyser s \<noteq> None)"

text \<open>The pad filter frequency and the chord speed are in their ranges or \<^verbatim>\<open>NaN\<close>; a muted
  engine has been initialised.\<close>

fun in_range :: "real \<Rightarrow> real \<Rightarrow> jsnum \<Rightarrow> bool" where
  "in_range lo hi (Num r) = (lo \<le> r \<and> r \<le> hi)"
| "in_range lo hi _ = False"

definition params_inv :: "engine \<Rightarrow> bool" where
  "params_inv s \<longleftrightarrow>
     (padFilterFreq s = NaN \<or> in_range 100 10000 (padFilterFreq s))
     \<and> (chordSpeedMs s = NaN \<or> in_range 4000 30000 (chordSpeedMs s))
     \<and> (isMuted s \<longrightarrow> audioContext s \<noteq> None)"

text \<open>Every pending timeout is recorded in \<^verbatim>\<open>activeTimers\<close> under a non-zero id, and the
  timeouts of the arpeggio's next notes are recorded with their tag.\<close>

definition timers_inv :: "engine \<Rightarrow> bool" where
  "timers_inv s \<longleftrightarrow>
     0 < nextTimerId s
     \<and> (\<forall>p \<in> set (pending s). 0 < fst p
           \<and> (TimerId (fst p) \<in> set (activeTimers s)
              \<or> TimerObj (fst p) ''arpeggio_note'' \<in> set (activeTimers s)))
     \<and> (\<forall>i arpNotes n. (i, PlayArpNote arpNotes n) \<in> set (pending s)
           \<longrightarrow> TimerObj i ''arpeggio_note'' \<in> set (activeTimers s))"

text \<open>A stopped engine has nothing pending and nothing registered.\<close>

definition idle_inv :: "engine \<Rightarrow> bool" where
  "idle_inv s \<longleftrightarrow>
     (\<not> isPlaying s \<longrightarrow> pending s = [] \<and> activeTimers s = [] \<and> activeOscillators s = [])"

text \<open>The part of the state that the sound layers leave alone.\<close>

definition core :: "engine \<Rightarrow> engine" where
  "core s = s\<lparr>activeOscillators := [], activeTimers := [], currentPadChordNotes := [],
              pending := [], nextTimerId := 0, nextNodeId := 0, audioLog := []\<rparr>"


fun is_next_arp_note :: "callback \<Rightarrow> bool" where
  "is_next_arp_note (PlayArpNote arpNotes i) = True"
| "is_next_arp_note _ = False"

text \<open>A playing engine for examples: a fresh engine in a browser with a running audio
  context and an empty store, started with all three random cursors at 0.\<close>

definition playing_state :: engine where
  "playing_state = state_of (startAmbient True 0 0 0 (init_engine True Running None None))"

text \<open>The same engine with the arpeggiator switched on while playing.\<close>

definition arpeggio_state :: engine where
  "arpeggio_state = state_of (toggleArpeggiator playing_state)"

text \<open>\<^verbatim>\<open>applySettings\<close> in its four parts: the volume step and the mute step, which can
  throw, the three pad setters, which cannot, and the two layer toggles.\<close>

definition applyVolume :: "settings \<Rightarrow> engine \<Rightarrow> outcome" where
  "applyVolume st s =
     (case asNumber (s_volume st) of Some v \<Rightarrow> setVolume v s | None \<Rightarrow> Returned s)"

definition applyMute :: "real \<Rightarrow> settings \<Rightarrow> engine \<Rightarrow> outcome" where
  "applyMute gv st s1 =
     (case asBoolean (s_isMuted st) of
        Some b \<Rightarrow> if b \<noteq> isMuted s1 then toggleMute gv s1 else Returned s1
      | None \<Rightarrow> Returned s1)"

definition applyPad :: "settings \<Rightarrow> engine \<Rightarrow> engine" where
  "applyPad st s2 =
     (let s3 = (case asString (s_padOscType st) of
                  Some ty \<Rightarrow> setPadOscillatorType ty s2 | None \<Rightarrow> s2);
          s4 = (case asNumber (s_padFilterFreq st) of
                  Some f \<Rightarrow> setPadFilterFrequency f s3 | None \<Rightarrow> s3)
      in (case asNumber (s_chordSpeedMs st) of
                  Some ms \<Rightarrow> setChordSpeed ms s4 | None \<Rightarrow> s4))"

definition applyToggles :: "settings \<Rightarrow> engine \<Rightarrow> outcome" where
  "applyToggles st s5 =
     andThen
       (case asBoolean (s_heartbeatEnabled st) of
          Some b \<Rightarrow> if b \<noteq> heartbeatEnabled s5 then toggleHeartbeat s5 else Returned s5
        | None \<Rightarrow> Returned s5)
       (\<lambda>s6. case asBoolean (s_arpeggiatorEnabled st) of
                Some b \<Rightarrow> if b \<noteq> arpeggiatorEnabled s6 then toggleArpeggiator s6
                          else Returned s6
              | None \<Rightarrow> Returned s6)"

text \<open>A settings object with a \<^verbatim>\<open>volume\<close> and nothing else.\<close>

definition only_volume :: "real \<Rightarrow> settings" where
  "only_volume v = \<lparr> s_volume = JNumber (Num v), s_isMuted = JUndefined, s_padOscType = JUndefined,
       s_padFilterFreq = JUndefined, s_chordSpeedMs = JUndefined,
       s_heartbeatEnabled = JUndefined, s_arpeggiatorEnabled = JUndefined \<rparr>"

text \<open>The log entries that start an arpeggio note, and those that start a pad oscillator.\<close>

fun is_arp_start :: "audio_cmd \<Rightarrow> bool" where
  "is_arp_start (OscStart n Arpeggio w f) = True"
| "is_arp_start _ = False"





text \<open>\<^verbatim>\<open>applySettings\<close> up to its mute step: the volume step followed by the mute step.\<close>

definition applyVolumeMute :: "real \<Rightarrow> settings \<Rightarrow> engine \<Rightarrow> outcome" where
  "applyVolumeMute gv st s = andThen (applyVolume st s) (applyMute gv st)"

text \<open>A settings object with an \<^verbatim>\<open>isMuted\<close> and nothing else, and a preset with every field,
  two of them to be clamped or skipped.\<close>

definition only_muted :: "bool \<Rightarrow> settings" where
  "only_muted b = \<lparr> s_volume = JUndefined, s_isMuted = JBool b, s_padOscType = JUndefined,
       s_padFilterFreq = JUndefined, s_chordSpeedMs = JUndefined,
       s_heartbeatEnabled = JUndefined, s_arpeggiatorEnabled = JUndefined \<rparr>"

definition saved_preset :: settings where
  "saved_preset = \<lparr> s_volume = JNumber (Num 0.45), s_isMuted = JBool False,
       s_padOscType = JString ''triangle'', s_padFilterFreq = JNumber (Num 900),
       s_chordSpeedMs = JNumber (Num 50000), s_heartbeatEnabled = JBool True,
       s_arpeggiatorEnabled = JString ''yes'' \<rparr>"

text \<open>A fresh engine after \<^verbatim>\<open>initAudio()\<close>, with an empty store and with \<^verbatim>\<open>ambientVolume\<close>
  stored as 5.\<close>

definition ready_state :: engine where
  "ready_state = snd (initAudio (init_engine True Running None None))"

definition loaded_state :: engine where
  "loaded_state = snd (initAudio (init_engine True Running None (Some (Num 5))))"


section \<open>Invariance\<close>

subsection \<open>Outcomes\<close>

lemma andThen_preserves:
  "P (state_of x) \<Longrightarrow> (\<And>a. P a \<Longrightarrow> P (state_of (f a))) \<Longrightarrow> P (state_of (andThen x f))"
  by (cases x) simp_all

lemma core_andThen:
  "(\<And>a. core (state_of (f a)) = core a) \<Longrightarrow> core (state_of (andThen x f)) = core (state_of x)"
  by (cases x) simp_all

lemma state_of_if: "state_of (if c then x else y) = (if c then state_of x else state_of y)"
  by simp

subsection \<open>The layers leave the core alone\<close>

lemma core_prims [simp]:
  "core (snd (setTimeout cb s)) = core s"
  "core (clearTimeout i s) = core s"
  "core (pushTimer t s) = core s"
  "core (snd (newNode s)) = core s"
  "core (pushUnit u s) = core s"
  "core (emit cs s) = core s"
  "core (fadeAndRemove ty d e s) = core s"
  "core (cleanup n s) = core s"
  by (simp_all add: core_def setTimeout_def clearTimeout_def pushTimer_def newNode_def
      pushUnit_def emit_def fadeAndRemove_def cleanup_def)

lemma core_upd [simp]:
  "core (s\<lparr>activeOscillators := x1\<rparr>) = core s"
  "core (s\<lparr>activeTimers := x2\<rparr>) = core s"
  "core (s\<lparr>currentPadChordNotes := x3\<rparr>) = core s"
  "core (s\<lparr>pending := x4\<rparr>) = core s"
  "core (s\<lparr>audioLog := x5\<rparr>) = core s"
  by (simp_all add: core_def)

lemma core_eqD:
  assumes "core a = core b"
  shows "audioContext a = audioContext b" "masterGain a = masterGain b"
    "analyser a = analyser b" "isMuted a = isMuted b" "currentVolume a = currentVolume b"
    "isPlaying a = isPlaying b" "heartbeatEnabled a = heartbeatEnabled b"
    "arpeggiatorEnabled a = arpeggiatorEnabled b" "padOscType a = padOscType b"
    "padFilterFreq a = padFilterFreq b" "chordSpeedMs a = chordSpeedMs b"
    "webAudioAvailable a = webAudioAvailable b" "newContextState a = newContextState b"
    "storeMuted a = storeMuted b" "storeVolume a = storeVolume b"
    "consoleWarn a = consoleWarn b" "pendingStarts a = pendingStarts b"
proof -
  have "audioContext (core a) = audioContext (core b)" using assms by simp
  then show "audioContext a = audioContext b" by (simp add: core_def)
  have "masterGain (core a) = masterGain (core b)" using assms by simp
  then show "masterGain a = masterGain b" by (simp add: core_def)
  have "analyser (core a) = analyser (core b)" using assms by simp
  then show "analyser a = analyser b" by (simp add: core_def)
  have "isMuted (core a) = isMuted (core b)" using assms by simp
  then show "isMuted a = isMuted b" by (simp add: core_def)
  have "currentVolume (core a) = currentVolume (core b)" using assms by simp
  then show "currentVolume a = currentVolume b" by (simp add: core_def)
  have "isPlaying (core a) = isPlaying (core b)" using assms by simp
  then show "isPlaying a = isPlaying b" by (simp add: core_def)
  have "heartbeatEnabled (core a) = heartbeatEnabled (core b)" using assms by simp
  then show "heartbeatEnabled a = heartbeatEnabled b" by (simp add: core_def)
  have "arpeggiatorEnabled (core a) = arpeggiatorEnabled (core b)" using assms by simp
  then show "arpeggiatorEnabled a = arpeggiatorEnabled b" by (simp add: core_def)
  have "padOscType (core a) = padOscType (core b)" using assms by simp
  then show "padOscType a = padOscType b" by (simp add: core_def)
  have "padFilterFreq (core a) = padFilterFreq (core b)" using assms by simp
  then show "padFilterFreq a = padFilterFreq b" by (simp add: core_def)
  have "chordSpeedMs (core a) = chordSpeedMs (core b)" using assms by simp
  then show "chordSpeedMs a = chordSpeedMs b" by (simp add: core_def)
  have "webAudioAvailable (core a) = webAudioAvailable (core b)" using assms by simp
  then show "webAudioAvailable a = webAudioAvailable b" by (simp add: core_def)
  have "newContextState (core a) = newContextState (core b)" using assms by simp
  then show "newContextState a = newContextState b" by (simp add: core_def)
  have "storeMuted (core a) = storeMuted (core b)" using assms by simp
  then show "storeMuted a = storeMuted b" by (simp add: core_def)
  have "storeVolume (core a) = storeVolume (core b)" using assms by simp
  then show "storeVolume a = storeVolume b" by (simp add: core_def)
  have "consoleWarn (core a) = consoleWarn (core b)" using assms by simp
  then show "consoleWarn a = consoleWarn b" by (simp add: core_def)
  have "pendingStarts (core a) = pendingStarts (core b)" using assms by simp
  then show "pendingStarts a = pendingStarts b" by (simp add: core_def)
qed

lemma core_playArpNote [simp]: "core (state_of (playArpNote arpNotes i s)) = core s"
  by (simp add: playArpNote_def Let_def split_def split: option.splits)

lemma core_createArpeggio [simp]: "core (state_of (createArpeggio s)) = core s"
  by (simp add: createArpeggio_def Let_def)

lemma core_clearArpEntry [simp]: "core (clearArpEntry t s) = core s"
  by (simp add: clearArpEntry_def)

lemma core_clearEntry [simp]: "core (clearEntry t s) = core s"
  by (cases t) simp_all

lemma core_foldl:
  "(\<And>x a. core (f a x) = core a) \<Longrightarrow> core (foldl f s xs) = core s"
  by (induction xs arbitrary: s) simp_all

lemma core_stopArpeggioSequence [simp]: "core (state_of (stopArpeggioSequence s)) = core s"
  by (simp add: stopArpeggioSequence_def Let_def core_foldl)

lemma core_padNote [simp]: "core (state_of (padNote freq s)) = core s"
  by (simp add: padNote_def Let_def split_def)

lemma core_forEach:
  "(\<And>x a. core (state_of (f x a)) = core a) \<Longrightarrow> core (state_of (forEach f xs s)) = core s"
proof (induction xs arbitrary: s)
  case Nil
  then show ?case by simp
next
  case (Cons x xs)
  have "core (state_of (andThen (f x s) (forEach f xs))) = core (state_of (f x s))"
    by (rule core_andThen) (rule Cons.IH, rule Cons.prems)
  then show ?case by (simp add: Cons.prems)
qed

lemma core_if: "core (if c then x else y) = (if c then core x else core y)"
  by simp

lemma core_chordProgression [simp]: "core (state_of (chordProgression i s)) = core s"
  by (simp add: chordProgression_def Let_def split_def core_andThen core_forEach
        state_of_if core_if split: option.splits)

lemma core_createPad [simp]: "core (state_of (createPad r s)) = core s"
  by (simp add: createPad_def split: option.splits)


lemma core_playBassNote [simp]: "core (state_of (playBassNote i s)) = core s"
  by (simp add: playBassNote_def Let_def split_def split: option.splits)

lemma core_createBassline [simp]: "core (createBassline r s) = core s"
  by (simp add: createBassline_def Let_def split_def)

lemma core_melodyNote [simp]: "core (state_of (melodyNote f s)) = core s"
  by (simp add: melodyNote_def Let_def split_def)

lemma core_scheduleMelodyNote [simp]: "core (scheduleMelodyNote f s) = core s"
  by (simp add: scheduleMelodyNote_def split_def Let_def)

lemma core_playPhrase [simp]: "core (state_of (playPhrase i s)) = core s"
  by (simp add: playPhrase_def Let_def split_def core_foldl split: option.splits)

lemma core_createMelody [simp]: "core (createMelody r s) = core s"
  by (simp add: createMelody_def Let_def split_def)

lemma core_createTexture [simp]: "core (createTexture s) = core s"
  by (simp add: createTexture_def Let_def split_def)

lemma core_playSingleBeat [simp]: "core (state_of (playSingleBeat off s)) = core s"
  by (simp add: playSingleBeat_def Let_def split_def)

lemma core_playBeatPair [simp]: "core (state_of (playBeatPair s)) = core s"
  by (simp add: playBeatPair_def Let_def split_def core_andThen)

lemma core_createHeartbeat [simp]: "core (state_of (createHeartbeat s)) = core s"
  by (simp add: createHeartbeat_def)

lemma core_runCallback [simp]: "core (state_of (runCallback cb s)) = core s"
  by (cases cb) simp_all

lemma core_fireTimer [simp]: "core (state_of (fireTimer i s)) = core s"
  by (simp add: fireTimer_def split: option.splits)


subsection \<open>Every pending timeout stays recorded\<close>

lemma timers_upd [simp]:
  "timers_inv (s\<lparr>activeOscillators := x1\<rparr>) = timers_inv s"
  "timers_inv (s\<lparr>currentPadChordNotes := x2\<rparr>) = timers_inv s"
  "timers_inv (s\<lparr>audioLog := x3\<rparr>) = timers_inv s"
  "timers_inv (s\<lparr>nextNodeId := x4\<rparr>) = timers_inv s"
  "timers_inv (s\<lparr>isPlaying := x5\<rparr>) = timers_inv s"
  "timers_inv (s\<lparr>audioContext := x6\<rparr>) = timers_inv s"
  "timers_inv (s\<lparr>masterGain := x7\<rparr>) = timers_inv s"
  "timers_inv (s\<lparr>analyser := x8\<rparr>) = timers_inv s"
  "timers_inv (s\<lparr>isMuted := x9\<rparr>) = timers_inv s"
  "timers_inv (s\<lparr>currentVolume := x10\<rparr>) = timers_inv s"
  "timers_inv (s\<lparr>heartbeatEnabled := x11\<rparr>) = timers_inv s"
  "timers_inv (s\<lparr>arpeggiatorEnabled := x12\<rparr>) = timers_inv s"
  "timers_inv (s\<lparr>padOscType := x13\<rparr>) = timers_inv s"
  "timers_inv (s\<lparr>padFilterFreq := x14\<rparr>) = timers_inv s"
  "timers_inv (s\<lparr>chordSpeedMs := x15\<rparr>) = timers_inv s"
  "timers_inv (s\<lparr>storeMuted := x16\<rparr>) = timers_inv s"
  "timers_inv (s\<lparr>storeVolume := x17\<rparr>) = timers_inv s"
  "timers_inv (s\<lparr>consoleWarn := x18\<rparr>) = timers_inv s"
  "timers_inv (s\<lparr>pendingStarts := x19\<rparr>) = timers_inv s"
  "timers_inv (s\<lparr>storeMode := x20\<rparr>) = timers_inv s"
  by (simp_all add: timers_inv_def)

lemma timers_prims [simp]:
  "timers_inv (pushUnit u s) = timers_inv s"
  "timers_inv (emit cs s) = timers_inv s"
  "timers_inv (snd (newNode s)) = timers_inv s"
  "timers_inv (fadeAndRemove ty d e s) = timers_inv s"
  "timers_inv (cleanup n s) = timers_inv s"
  by (simp_all add: pushUnit_def emit_def newNode_def fadeAndRemove_def cleanup_def)

lemma timers_schedule:
  "timers_inv s \<Longrightarrow> \<not> is_next_arp_note cb
   \<Longrightarrow> timers_inv (pushTimer (TimerId (fst (setTimeout cb s))) (snd (setTimeout cb s)))"
  by (cases cb) (auto simp: timers_inv_def pushTimer_def setTimeout_def)

lemma timers_schedule_tagged:
  "timers_inv s
   \<Longrightarrow> timers_inv (pushTimer (TimerObj (fst (setTimeout cb s)) ''arpeggio_note'')
                       (snd (setTimeout cb s)))"
  by (auto simp: timers_inv_def pushTimer_def setTimeout_def)

lemma timers_pending_filter:
  "timers_inv s \<Longrightarrow> timers_inv (s\<lparr>pending := filter P (pending s)\<rparr>)"
  by (auto simp: timers_inv_def)

lemma timers_clearTimeout: "timers_inv s \<Longrightarrow> timers_inv (clearTimeout i s)"
  by (simp add: clearTimeout_def timers_pending_filter)

lemma timers_playArpNote: "timers_inv s \<Longrightarrow> timers_inv (state_of (playArpNote arpNotes i s))"
  unfolding playArpNote_def Let_def split_def
  by (auto intro!: timers_schedule timers_schedule_tagged split: option.splits)

lemma timers_createArpeggio: "timers_inv s \<Longrightarrow> timers_inv (state_of (createArpeggio s))"
  by (simp add: createArpeggio_def Let_def timers_playArpNote)


lemma is_arpeggio_note_iff: "is_arpeggio_note t \<longleftrightarrow> t = TimerObj (timer_id t) ''arpeggio_note''"
  by (cases t) auto

lemma clearArp_fold:
  "foldl (\<lambda>a timer. clearArpEntry timer a) s ts =
     s\<lparr>pending := filter (\<lambda>p. TimerObj (fst p) ''arpeggio_note'' \<notin> set ts) (pending s)\<rparr>"
proof (induction ts arbitrary: s)
  case Nil
  show ?case by simp
next
  case (Cons t ts)
  let ?Q = "\<lambda>p. TimerObj (fst p) ''arpeggio_note'' \<notin> set ts"
  have step: "clearArpEntry t s =
      s\<lparr>pending := filter (\<lambda>p. TimerObj (fst p) ''arpeggio_note'' \<noteq> t) (pending s)\<rparr>"
  proof (cases "is_arpeggio_note t")
    case True
    then have "t = TimerObj (timer_id t) ''arpeggio_note''"
      using is_arpeggio_note_iff by blast
    then have "(\<lambda>p::nat \<times> callback. fst p \<noteq> timer_id t)
        = (\<lambda>p. TimerObj (fst p) ''arpeggio_note'' \<noteq> t)"
      by (metis timer_entry.inject(2))
    with True show ?thesis by (simp add: clearArpEntry_def clearTimeout_def)
  next
    case False
    then have "(\<lambda>p::nat \<times> callback. TimerObj (fst p) ''arpeggio_note'' \<noteq> t) = (\<lambda>p. True)"
      by auto
    with False show ?thesis by (simp add: clearArpEntry_def)
  qed
  have "foldl (\<lambda>a timer. clearArpEntry timer a) s (t # ts)
        = (clearArpEntry t s)\<lparr>pending := filter ?Q (pending (clearArpEntry t s))\<rparr>"
    by (simp add: Cons.IH)
  also have "\<dots> = s\<lparr>pending := filter ?Q
        (filter (\<lambda>p. TimerObj (fst p) ''arpeggio_note'' \<noteq> t) (pending s))\<rparr>"
    by (simp add: step)
  also have "\<dots> = s\<lparr>pending := filter (\<lambda>p. TimerObj (fst p) ''arpeggio_note'' \<notin> set (t # ts))
        (pending s)\<rparr>"
    by (simp add: conj_commute)
  finally show ?case .
qed

lemma stopArpeggioSequence_eq:
  "stopArpeggioSequence s =
     (let s2 = s\<lparr>pending := filter (\<lambda>p. TimerObj (fst p) ''arpeggio_note'' \<notin> set (activeTimers s))
                               (pending s),
                 activeTimers := filter (\<lambda>timer. \<not> is_arpeggio_note timer) (activeTimers s)\<rparr>
      in if audioContext s = None then Threw s2
         else Returned (fadeAndRemove Arpeggio 0.1 0.2 s2))"
  by (simp add: stopArpeggioSequence_def clearArp_fold Let_def)

lemma timers_stopArpeggioSequence:
  "timers_inv s \<Longrightarrow> timers_inv (state_of (stopArpeggioSequence s))"
  by (simp add: stopArpeggioSequence_eq Let_def) (auto simp: timers_inv_def)

lemma no_arp_after_stop:
  "timers_inv s \<Longrightarrow> (i, PlayArpNote a n) \<notin> set (pending (state_of (stopArpeggioSequence s)))"
  by (auto simp: stopArpeggioSequence_eq Let_def timers_inv_def fadeAndRemove_def emit_def)


lemma forEach_preserves:
  "P s \<Longrightarrow> (\<And>x a. P a \<Longrightarrow> P (state_of (f x a))) \<Longrightarrow> P (state_of (forEach f xs s))"
proof (induction xs arbitrary: s)
  case Nil
  then show ?case by simp
next
  case (Cons x xs)
  show ?case
    unfolding forEach.simps
    by (rule andThen_preserves) (simp_all add: Cons)
qed

lemma foldl_preserves:
  "P s \<Longrightarrow> (\<And>x a. P a \<Longrightarrow> P (f a x)) \<Longrightarrow> P (foldl f s xs)"
  by (induction xs arbitrary: s) simp_all

lemmas timers_andThen = andThen_preserves [where P = timers_inv]
lemmas timers_forEach = forEach_preserves [where P = timers_inv]
lemmas timers_foldl = foldl_preserves [where P = timers_inv]

lemma timers_padNote: "timers_inv s \<Longrightarrow> timers_inv (state_of (padNote freq s))"
  by (simp add: padNote_def Let_def split_def)

lemma timers_chord_tail:
  assumes a: "timers_inv a"
  shows "timers_inv (state_of
          (let (timerId, s4) = setTimeout (ChordProgression j) a;
               s5 = pushTimer (TimerId timerId) s4
           in if arpeggiatorEnabled s5 \<and> ch
              then andThen (stopArpeggioSequence s5) createArpeggio
              else Returned s5))"
proof -
  let ?s5 = "pushTimer (TimerId (fst (setTimeout (ChordProgression j) a)))
                   (snd (setTimeout (ChordProgression j) a))"
  have s5: "timers_inv ?s5" using a by (simp add: timers_schedule)
  have "timers_inv (state_of (andThen (stopArpeggioSequence ?s5) createArpeggio))"
    using s5 by (intro timers_andThen timers_stopArpeggioSequence timers_createArpeggio)
  with s5 show ?thesis
    by (simp add: Let_def split_def)
qed

lemma frame_fadeAndRemove [simp]:
  "currentPadChordNotes (fadeAndRemove ty d e s) = currentPadChordNotes s"
  "pending (fadeAndRemove ty d e s) = pending s"
  "activeTimers (fadeAndRemove ty d e s) = activeTimers s"
  "nextTimerId (fadeAndRemove ty d e s) = nextTimerId s"
  "nextNodeId (fadeAndRemove ty d e s) = nextNodeId s"
  "activeOscillators (fadeAndRemove ty d e s) = filter (\<lambda>u. utype u \<noteq> ty) (activeOscillators s)"
  "audioLog (fadeAndRemove ty d e s) =
     audioLog s @ concat (map (fadeCmds d e) (filter (\<lambda>u. utype u = ty) (activeOscillators s)))"
  by (simp_all add: fadeAndRemove_def emit_def)

lemma chordProgression_eq:
  assumes "isPlaying s" "audioContext s \<noteq> None" "js_index chords i = Some chord"
  shows "chordProgression i s =
     andThen (forEach padNote chord (fadeAndRemove Pad 4 4.1 (s\<lparr>currentPadChordNotes := chord\<rparr>)))
       (\<lambda>s3. let (timerId, s4) = setTimeout (ChordProgression ((i + 1) mod length chords)) s3;
                  s5 = pushTimer (TimerId timerId) s4
              in if arpeggiatorEnabled s5 \<and> currentPadChordNotes s \<noteq> chord
                 then andThen (stopArpeggioSequence s5) createArpeggio
                 else Returned s5)"
  using assms by (auto simp: chordProgression_def Let_def)

lemma timers_chordProgression:
  assumes "timers_inv s"
  shows "timers_inv (state_of (chordProgression i s))"
proof (cases "\<not> isPlaying s \<or> audioContext s = None")
  case True
  with assms show ?thesis by (simp add: chordProgression_def)
next
  case False
  show ?thesis
  proof (cases "js_index chords i")
    case None
    with False assms show ?thesis by (simp add: chordProgression_def)
  next
    case (Some chord)
    have eq: "chordProgression i s =
     andThen (forEach padNote chord (fadeAndRemove Pad 4 4.1 (s\<lparr>currentPadChordNotes := chord\<rparr>)))
       (\<lambda>s3. let (timerId, s4) = setTimeout (ChordProgression ((i + 1) mod length chords)) s3;
                  s5 = pushTimer (TimerId timerId) s4
              in if arpeggiatorEnabled s5 \<and> currentPadChordNotes s \<noteq> chord
                 then andThen (stopArpeggioSequence s5) createArpeggio
                 else Returned s5)"
      using False Some by (intro chordProgression_eq) simp_all
    show ?thesis
      unfolding eq
    proof (rule timers_andThen)
      show "timers_inv (state_of (forEach padNote chord
              (fadeAndRemove Pad 4 4.1 (s\<lparr>currentPadChordNotes := chord\<rparr>))))"
        by (rule timers_forEach) (simp_all add: assms timers_padNote)
    next
      fix a assume a: "timers_inv a"
      then show "timers_inv (state_of
          (let (timerId, s4) = setTimeout (ChordProgression ((i + 1) mod length chords)) a;
               s5 = pushTimer (TimerId timerId) s4
           in if arpeggiatorEnabled s5 \<and> currentPadChordNotes s \<noteq> chord
              then andThen (stopArpeggioSequence s5) createArpeggio
              else Returned s5))"
        by (rule timers_chord_tail)
    qed
  qed
qed

lemma timers_createPad: "timers_inv s \<Longrightarrow> timers_inv (state_of (createPad r s))"
  by (simp add: createPad_def timers_chordProgression split: option.splits)

lemma timers_playBassNote: "timers_inv s \<Longrightarrow> timers_inv (state_of (playBassNote i s))"
  by (simp add: playBassNote_def Let_def split_def timers_schedule split: option.splits)

lemma timers_createBassline: "timers_inv s \<Longrightarrow> timers_inv (createBassline r s)"
  by (simp add: createBassline_def Let_def split_def timers_schedule)

lemma timers_melodyNote: "timers_inv s \<Longrightarrow> timers_inv (state_of (melodyNote f s))"
  by (simp add: melodyNote_def Let_def split_def timers_schedule)

lemma timers_scheduleMelodyNote: "timers_inv s \<Longrightarrow> timers_inv (scheduleMelodyNote f s)"
  by (simp add: scheduleMelodyNote_def Let_def split_def timers_schedule)

lemma timers_phrase_fold:
  "timers_inv s \<Longrightarrow> timers_inv (foldl (\<lambda>a freq. scheduleMelodyNote freq a) s xs)"
  by (rule timers_foldl) (simp_all add: timers_scheduleMelodyNote)

lemma timers_playPhrase: "timers_inv s \<Longrightarrow> timers_inv (state_of (playPhrase i s))"
  by (simp add: playPhrase_def Let_def split_def timers_schedule timers_phrase_fold
      split: option.splits)

lemma timers_createMelody: "timers_inv s \<Longrightarrow> timers_inv (createMelody r s)"
  by (simp add: createMelody_def Let_def split_def timers_schedule)

lemma timers_createTexture: "timers_inv s \<Longrightarrow> timers_inv (createTexture s)"
  by (simp add: createTexture_def Let_def split_def)

lemma timers_playSingleBeat: "timers_inv s \<Longrightarrow> timers_inv (state_of (playSingleBeat off s))"
  by (simp add: playSingleBeat_def Let_def split_def timers_schedule)

lemma timers_beat_tail:
  "timers_inv a \<Longrightarrow> timers_inv (state_of (let (timerId, s3) = setTimeout PlayBeatPair a
               in Returned (pushTimer (TimerId timerId) s3)))"
  by (simp add: split_def Let_def timers_schedule)

lemma timers_playBeatPair:
  assumes "timers_inv s"
  shows "timers_inv (state_of (playBeatPair s))"
proof -
  have "timers_inv (state_of (andThen (playSingleBeat 0 s) (\<lambda>s1.
        andThen (playSingleBeat 0.35 s1) (\<lambda>s2.
          let (timerId, s3) = setTimeout PlayBeatPair s2
          in Returned (pushTimer (TimerId timerId) s3)))))"
    by (intro timers_andThen timers_playSingleBeat assms timers_beat_tail)
  with assms show ?thesis by (simp add: playBeatPair_def)
qed

lemma timers_createHeartbeat: "timers_inv s \<Longrightarrow> timers_inv (state_of (createHeartbeat s))"
  by (simp add: createHeartbeat_def timers_playBeatPair)

lemma timers_runCallback: "timers_inv s \<Longrightarrow> timers_inv (state_of (runCallback cb s))"
  by (cases cb)
     (simp_all add: timers_chordProgression timers_playBassNote timers_playPhrase
       timers_melodyNote timers_playBeatPair timers_playArpNote)

lemma timers_fireTimer: "timers_inv s \<Longrightarrow> timers_inv (state_of (fireTimer i s))"
  by (simp add: fireTimer_def timers_runCallback timers_pending_filter split: option.splits)

lemma timers_initAudio [simp]: "timers_inv (snd (initAudio s)) = timers_inv s"
  by (simp add: initAudio_def Let_def split: jsnum.splits)

lemma timers_setVolume [simp]: "timers_inv (state_of (setVolume v s)) = timers_inv s"
  by (simp add: setVolume_def saveVolume_def Let_def split_def split: jsnum.splits)

lemma timers_toggleMute [simp]: "timers_inv (state_of (toggleMute gv s)) = timers_inv s"
  by (simp add: toggleMute_def Let_def split_def split: jsnum.splits)

lemma timers_setters [simp]:
  "timers_inv (setPadOscillatorType ty s) = timers_inv s"
  "timers_inv (setPadFilterFrequency f s) = timers_inv s"
  "timers_inv (setChordSpeed ms s) = timers_inv s"
  "timers_inv (suspendAudio s) = timers_inv s"
  "timers_inv (resumeAudio s) = timers_inv s"
  by (simp_all add: setPadOscillatorType_def setPadFilterFrequency_def setChordSpeed_def
      suspendAudio_def resumeAudio_def)


lemma clearEntry_eq:
  "clearEntry t s =
     s\<lparr>pending := filter (\<lambda>p. TimerId (fst p) \<noteq> t
                               \<and> (fst p = 0 \<or> (\<forall>ty. TimerObj (fst p) ty \<noteq> t))) (pending s)\<rparr>"
proof (cases t)
  case (TimerId i)
  then have "(\<lambda>p::nat \<times> callback. TimerId (fst p) \<noteq> t \<and> (fst p = 0 \<or> (\<forall>ty. TimerObj (fst p) ty \<noteq> t)))
      = (\<lambda>p. fst p \<noteq> i)"
    by auto
  with TimerId show ?thesis by (simp add: clearTimeout_def)
next
  case (TimerObj i ty)
  show ?thesis
  proof (cases "i = 0")
    case True
    with TimerObj
    have "(\<lambda>p::nat \<times> callback. TimerId (fst p) \<noteq> t \<and> (fst p = 0 \<or> (\<forall>ty. TimerObj (fst p) ty \<noteq> t)))
      = (\<lambda>p. True)"
      by auto
    with TimerObj True show ?thesis by simp
  next
    case False
    with TimerObj
    have "(\<lambda>p::nat \<times> callback. TimerId (fst p) \<noteq> t \<and> (fst p = 0 \<or> (\<forall>ty. TimerObj (fst p) ty \<noteq> t)))
      = (\<lambda>p. fst p \<noteq> i)"
      by auto
    with TimerObj False show ?thesis by (simp add: clearTimeout_def)
  qed
qed

lemma clearEntry_fold:
  "foldl (\<lambda>a timer. clearEntry timer a) s ts =
     s\<lparr>pending := filter (\<lambda>p. TimerId (fst p) \<notin> set ts
                               \<and> (fst p = 0 \<or> (\<forall>ty. TimerObj (fst p) ty \<notin> set ts))) (pending s)\<rparr>"
proof (induction ts arbitrary: s)
  case Nil
  show ?case by simp
next
  case (Cons t ts)
  have "(\<lambda>p::nat \<times> callback. (TimerId (fst p) \<noteq> t \<and> (fst p = 0 \<or> (\<forall>ty. TimerObj (fst p) ty \<noteq> t)))
           \<and> TimerId (fst p) \<notin> set ts \<and> (fst p = 0 \<or> (\<forall>ty. TimerObj (fst p) ty \<notin> set ts)))
      = (\<lambda>p. TimerId (fst p) \<notin> set (t # ts)
                               \<and> (fst p = 0 \<or> (\<forall>ty. TimerObj (fst p) ty \<notin> set (t # ts))))"
    by auto
  then show ?case
    by (simp add: Cons.IH) (simp add: clearEntry_eq)
qed

lemma stopAmbient_eq:
  "isPlaying s \<Longrightarrow> audioContext s \<noteq> None \<Longrightarrow>
   stopAmbient s =
     s\<lparr>isPlaying := False,
       pending := filter (\<lambda>p. TimerId (fst p) \<notin> set (activeTimers s)
                   \<and> (fst p = 0 \<or> (\<forall>ty. TimerObj (fst p) ty \<notin> set (activeTimers s)))) (pending s),
       activeTimers := [],
       audioLog := audioLog s @ concat (map (fadeCmds 1.0 1.1) (activeOscillators s)),
       activeOscillators := []\<rparr>"
  by (auto simp: stopAmbient_def clearEntry_fold Let_def emit_def)

lemma stopAmbient_idle: "\<not> (isPlaying s \<and> audioContext s \<noteq> None) \<Longrightarrow> stopAmbient s = s"
  by (auto simp: stopAmbient_def)

lemma pending_stopAmbient:
  assumes "timers_inv s" "isPlaying s" "audioContext s \<noteq> None"
  shows "pending (stopAmbient s) = []"
proof -
  have "filter (\<lambda>p. TimerId (fst p) \<notin> set (activeTimers s)
                   \<and> (fst p = 0 \<or> (\<forall>ty. TimerObj (fst p) ty \<notin> set (activeTimers s)))) (pending s) = []"
    using assms(1) by (auto simp: timers_inv_def filter_empty_conv)
  then show ?thesis using assms by (simp add: stopAmbient_eq)
qed

lemma timers_stopAmbient: "timers_inv s \<Longrightarrow> timers_inv (stopAmbient s)"
proof (cases "isPlaying s \<and> audioContext s \<noteq> None")
  case True
  assume inv: "timers_inv s"
  with True have "pending (stopAmbient s) = []"
    by (simp add: pending_stopAmbient)
  moreover have "nextTimerId (stopAmbient s) = nextTimerId s"
    using True by (simp add: stopAmbient_eq)
  ultimately show ?thesis using inv by (simp add: timers_inv_def)
next
  case False
  assume "timers_inv s"
  then show ?thesis using False by (simp add: stopAmbient_idle)
qed

lemma timers_startLayers: "timers_inv s \<Longrightarrow> timers_inv (state_of (startLayers r1 r2 r3 s))"
  unfolding startLayers_def Let_def
  by (rule timers_andThen, simp, rule timers_andThen, erule timers_createPad)
     (auto intro!: timers_andThen timers_createHeartbeat timers_createArpeggio
        timers_createMelody timers_createTexture timers_createBassline)

lemma timers_startAmbient:
  "timers_inv s \<Longrightarrow> timers_inv (state_of (startAmbient resumed r1 r2 r3 s))"
  by (auto simp: startAmbient_def split_def Let_def intro!: timers_startLayers)

lemma timers_startAmbient_begin:
  "timers_inv s \<Longrightarrow> timers_inv (state_of (startAmbient_begin r1 r2 r3 s))"
  by (auto simp: startAmbient_begin_def split_def Let_def intro!: timers_startLayers)

lemma timers_startAmbient_settled:
  "timers_inv s \<Longrightarrow> timers_inv (state_of (startAmbient_settled resumed r1 r2 r3 s))"
  by (auto simp: startAmbient_settled_def split_def Let_def intro!: timers_startLayers)

lemma timers_toggleHeartbeat: "timers_inv s \<Longrightarrow> timers_inv (state_of (toggleHeartbeat s))"
  by (auto simp: toggleHeartbeat_def Let_def intro!: timers_createHeartbeat)

lemma timers_toggleArpeggiator: "timers_inv s \<Longrightarrow> timers_inv (state_of (toggleArpeggiator s))"
  by (auto simp: toggleArpeggiator_def Let_def
      intro!: timers_createArpeggio timers_stopArpeggioSequence)

lemma applySettings_split:
  "applySettings gv (ArgObject st) s =
     andThen (applyVolume st s) (\<lambda>s1. andThen (applyMute gv st s1)
       (\<lambda>s2. applyToggles st (applyPad st s2)))"
  by (simp add: applySettings_def applyVolume_def applyMute_def applyPad_def applyToggles_def
      Let_def)

lemma timers_applyToggles: "timers_inv a \<Longrightarrow> timers_inv (state_of (applyToggles st a))"
  unfolding applyToggles_def
  by (intro timers_andThen)
     (auto split: option.splits intro!: timers_toggleHeartbeat timers_toggleArpeggiator)

lemma timers_applyPad [simp]: "timers_inv (applyPad st a) = timers_inv a"
  by (simp add: applyPad_def Let_def split: option.splits)

lemma timers_applySettings:
  assumes "timers_inv s"
  shows "timers_inv (state_of (applySettings gv arg s))"
proof (cases arg)
  case (ArgObject st)
  show ?thesis
    unfolding ArgObject applySettings_split
    by (intro timers_andThen timers_applyToggles)
       (auto simp: assms applyVolume_def applyMute_def split: option.splits)
qed (simp_all add: applySettings_def assms)


subsection \<open>Nodes, parameters and the idle engine\<close>

lemma nodes_inv_core: "core a = core b \<Longrightarrow> nodes_inv a = nodes_inv b"
  by (simp add: nodes_inv_def core_eqD [of a b])

lemma params_inv_core: "core a = core b \<Longrightarrow> params_inv a = params_inv b"
  by (simp add: params_inv_def core_eqD [of a b])

lemma idle_playing: "isPlaying s \<Longrightarrow> idle_inv s"
  by (simp add: idle_inv_def)

lemma idle_core: "isPlaying s \<Longrightarrow> core a = core s \<Longrightarrow> idle_inv a"
  using core_eqD(6) [of a s] by (simp add: idle_inv_def)

lemma core_startLayers:
  "core (state_of (startLayers r1 r2 r3 s))
     = core (state_of (setVolume (currentVolume s) (s\<lparr>isPlaying := True\<rparr>)))"
  by (simp add: startLayers_def Let_def core_andThen state_of_if core_if)

lemma core_toggleHeartbeat:
  "core (state_of (toggleHeartbeat s)) = core (s\<lparr>heartbeatEnabled := \<not> heartbeatEnabled s\<rparr>)"
  by (simp add: toggleHeartbeat_def Let_def)

lemma core_toggleArpeggiator:
  "core (state_of (toggleArpeggiator s)) = core (s\<lparr>arpeggiatorEnabled := \<not> arpeggiatorEnabled s\<rparr>)"
  by (simp add: toggleArpeggiator_def Let_def)

lemma nodes_initAudio: "nodes_inv s \<Longrightarrow> nodes_inv (snd (initAudio s))"
  by (auto simp: nodes_inv_def initAudio_def Let_def split: jsnum.splits)

lemma nodes_upd [simp]:
  "nodes_inv (s\<lparr>storeMode := x1\<rparr>) = nodes_inv s"
  "nodes_inv (s\<lparr>storeVolume := x2\<rparr>) = nodes_inv s"
  "nodes_inv (s\<lparr>storeMuted := x3\<rparr>) = nodes_inv s"
  "nodes_inv (s\<lparr>isMuted := x4\<rparr>) = nodes_inv s"
  "nodes_inv (s\<lparr>currentVolume := x5\<rparr>) = nodes_inv s"
  by (simp_all add: nodes_inv_def)

lemma nodes_gain: "masterGain s \<noteq> None \<Longrightarrow> nodes_inv (s\<lparr>masterGain := Some g\<rparr>) = nodes_inv s"
  by (auto simp: nodes_inv_def)

lemma nodes_saveVolume [simp]: "nodes_inv (saveVolume s) = nodes_inv s"
  by (simp add: saveVolume_def)

lemma nodes_setVolume: "nodes_inv s \<Longrightarrow> nodes_inv (state_of (setVolume v s))"
  using nodes_initAudio [of s]
  by (auto simp: setVolume_def Let_def split_def nodes_gain split: jsnum.splits)

lemma nodes_toggleMute: "nodes_inv s \<Longrightarrow> nodes_inv (state_of (toggleMute gv s))"
  using nodes_initAudio [of s]
  by (auto simp: toggleMute_def Let_def split_def nodes_gain split: jsnum.splits)

lemma nodes_setters:
  "nodes_inv (setPadOscillatorType ty s) = nodes_inv s"
  "nodes_inv (setPadFilterFrequency f s) = nodes_inv s"
  "nodes_inv (setChordSpeed ms s) = nodes_inv s"
  by (simp_all add: nodes_inv_def setPadOscillatorType_def setPadFilterFrequency_def
      setChordSpeed_def)

lemma nodes_context:
  "nodes_inv s \<Longrightarrow> nodes_inv (suspendAudio s)"
  "nodes_inv s \<Longrightarrow> nodes_inv (resumeAudio s)"
  by (auto simp: nodes_inv_def suspendAudio_def resumeAudio_def)

lemma nodes_startLayers:
  assumes "nodes_inv s" "audioContext s \<noteq> None"
  shows "nodes_inv (state_of (startLayers r1 r2 r3 s))"
proof -
  have "nodes_inv (state_of (setVolume (currentVolume s) (s\<lparr>isPlaying := True\<rparr>)))"
    using assms by (intro nodes_setVolume) (auto simp: nodes_inv_def)
  then show ?thesis
    using nodes_inv_core [OF core_startLayers] by simp
qed

lemma nodes_startAmbient:
  "nodes_inv s \<Longrightarrow> nodes_inv (state_of (startAmbient resumed r1 r2 r3 s))"
  using nodes_initAudio [of s]
  by (auto simp: startAmbient_def split_def Let_def intro!: nodes_startLayers)
     (auto simp: nodes_inv_def)

lemma nodes_startAmbient_begin:
  "nodes_inv s \<Longrightarrow> nodes_inv (state_of (startAmbient_begin r1 r2 r3 s))"
  using nodes_initAudio [of s]
  by (auto simp: startAmbient_begin_def split_def Let_def intro!: nodes_startLayers)
     (auto simp: nodes_inv_def)

lemma nodes_startAmbient_settled:
  "nodes_inv s \<Longrightarrow> nodes_inv (state_of (startAmbient_settled resumed r1 r2 r3 s))"
  by (auto simp: startAmbient_settled_def split_def Let_def intro!: nodes_startLayers)
     (auto simp: nodes_inv_def)

lemma nodes_stopAmbient: "nodes_inv s \<Longrightarrow> nodes_inv (stopAmbient s)"
  by (cases "isPlaying s \<and> audioContext s \<noteq> None")
     (auto simp: stopAmbient_eq stopAmbient_idle nodes_inv_def)

lemma nodes_toggleHeartbeat: "nodes_inv s \<Longrightarrow> nodes_inv (state_of (toggleHeartbeat s))"
  using nodes_inv_core [OF core_toggleHeartbeat, of s] by (simp add: nodes_inv_def)

lemma nodes_toggleArpeggiator: "nodes_inv s \<Longrightarrow> nodes_inv (state_of (toggleArpeggiator s))"
  using nodes_inv_core [OF core_toggleArpeggiator, of s] by (simp add: nodes_inv_def)

lemma nodes_fireTimer: "nodes_inv s \<Longrightarrow> nodes_inv (state_of (fireTimer i s))"
  using nodes_inv_core [OF core_fireTimer, of i s] by simp

lemmas nodes_andThen = andThen_preserves [where P = nodes_inv]

lemma nodes_applyToggles: "nodes_inv a \<Longrightarrow> nodes_inv (state_of (applyToggles st a))"
  unfolding applyToggles_def
  by (intro nodes_andThen)
     (auto split: option.splits intro!: nodes_toggleHeartbeat nodes_toggleArpeggiator)

lemma nodes_applyPad [simp]: "nodes_inv (applyPad st a) = nodes_inv a"
  by (simp add: applyPad_def Let_def nodes_setters split: option.splits)

lemma nodes_applySettings:
  assumes "nodes_inv s"
  shows "nodes_inv (state_of (applySettings gv arg s))"
proof (cases arg)
  case (ArgObject st)
  show ?thesis
    unfolding ArgObject applySettings_split
    by (intro nodes_andThen nodes_applyToggles)
       (auto simp: assms applyVolume_def applyMute_def split: option.splits
          intro!: nodes_toggleMute nodes_setVolume)
qed (simp_all add: applySettings_def assms)


lemma clamp_cases:
  "lo \<le> hi \<Longrightarrow> Math_max (Num lo) (Math_min (Num hi) x) = NaN
     \<or> in_range lo hi (Math_max (Num lo) (Math_min (Num hi) x))"
  by (cases x) auto

lemma clamp_NaN [simp]: "Math_max (Num lo) (Math_min (Num hi) x) = NaN \<longleftrightarrow> x = NaN"
  by (cases x) auto

lemma clamp_finite [simp]: "is_finite (Math_max (Num lo) (Math_min (Num hi) x)) \<longleftrightarrow> x \<noteq> NaN"
  by (cases x) auto

lemma clamp_in_range:
  "in_range lo hi x \<Longrightarrow> Math_max (Num lo) (Math_min (Num hi) x) = x"
  by (cases x) auto

lemma params_upd [simp]:
  "params_inv (s\<lparr>storeMode := x1\<rparr>) = params_inv s"
  "params_inv (s\<lparr>storeVolume := x2\<rparr>) = params_inv s"
  "params_inv (s\<lparr>storeMuted := x3\<rparr>) = params_inv s"
  "params_inv (s\<lparr>currentVolume := x4\<rparr>) = params_inv s"
  "params_inv (s\<lparr>isPlaying := x5\<rparr>) = params_inv s"
  "params_inv (s\<lparr>pendingStarts := x6\<rparr>) = params_inv s"
  "params_inv (s\<lparr>consoleWarn := x7\<rparr>) = params_inv s"
  "params_inv (s\<lparr>padOscType := x8\<rparr>) = params_inv s"
  "params_inv (s\<lparr>analyser := x9\<rparr>) = params_inv s"
  by (simp_all add: params_inv_def)

lemma params_gain:
  "audioContext s \<noteq> None \<Longrightarrow> params_inv (s\<lparr>masterGain := g\<rparr>) = params_inv s"
  by (simp add: params_inv_def)

lemma params_saveVolume [simp]: "params_inv (saveVolume s) = params_inv s"
  by (simp add: saveVolume_def)

lemma params_initAudio: "params_inv s \<Longrightarrow> params_inv (snd (initAudio s))"
  by (auto simp: params_inv_def initAudio_def Let_def split: option.splits jsnum.splits)

lemma initAudio_nodes:
  "fst (initAudio s) \<Longrightarrow> audioContext (snd (initAudio s)) \<noteq> None"
  by (auto simp: initAudio_def Let_def split: jsnum.splits if_splits)

lemma params_setVolume: "params_inv s \<Longrightarrow> params_inv (state_of (setVolume v s))"
  using params_initAudio [of s] initAudio_nodes [of s]
  by (auto simp: setVolume_def Let_def split_def params_gain split: jsnum.splits)

lemma params_muted:
  "audioContext s \<noteq> None \<Longrightarrow> params_inv s \<Longrightarrow> params_inv (s\<lparr>isMuted := b\<rparr>)"
  by (simp add: params_inv_def)

lemma params_toggleMute: "params_inv s \<Longrightarrow> params_inv (state_of (toggleMute gv s))"
  using params_initAudio [of s] initAudio_nodes [of s]
  by (auto simp: toggleMute_def Let_def split_def params_gain params_muted split: jsnum.splits)

lemma params_setters:
  "params_inv s \<Longrightarrow> params_inv (setPadOscillatorType ty s)"
  "params_inv s \<Longrightarrow> params_inv (setPadFilterFrequency f s)"
  "params_inv s \<Longrightarrow> params_inv (setChordSpeed ms s)"
  using clamp_cases [of 100 10000 f] clamp_cases [of 4000 30000 ms]
  by (auto simp: params_inv_def setPadOscillatorType_def setPadFilterFrequency_def
      setChordSpeed_def simp del: clamp_NaN)

lemma params_context:
  "params_inv s \<Longrightarrow> params_inv (suspendAudio s)"
  "params_inv s \<Longrightarrow> params_inv (resumeAudio s)"
  by (auto simp: params_inv_def suspendAudio_def resumeAudio_def)

lemma params_startLayers:
  assumes "params_inv s"
  shows "params_inv (state_of (startLayers r1 r2 r3 s))"
proof -
  have "params_inv (state_of (setVolume (currentVolume s) (s\<lparr>isPlaying := True\<rparr>)))"
    using assms by (intro params_setVolume) (auto simp: params_inv_def)
  then show ?thesis
    using params_inv_core [OF core_startLayers] by simp
qed

lemma params_startAmbient:
  "params_inv s \<Longrightarrow> params_inv (state_of (startAmbient resumed r1 r2 r3 s))"
  using params_initAudio [of s]
  by (auto simp: startAmbient_def split_def Let_def intro!: params_startLayers)
     (auto simp: params_inv_def)

lemma params_startAmbient_begin:
  "params_inv s \<Longrightarrow> params_inv (state_of (startAmbient_begin r1 r2 r3 s))"
  using params_initAudio [of s]
  by (auto simp: startAmbient_begin_def split_def Let_def intro!: params_startLayers)

lemma params_startAmbient_settled:
  "nodes_inv s \<Longrightarrow> params_inv s
   \<Longrightarrow> params_inv (state_of (startAmbient_settled resumed r1 r2 r3 s))"
  by (auto simp: startAmbient_settled_def split_def Let_def intro!: params_startLayers)
     (auto simp: params_inv_def nodes_inv_def)

lemma params_stopAmbient: "params_inv s \<Longrightarrow> params_inv (stopAmbient s)"
  by (cases "isPlaying s \<and> audioContext s \<noteq> None")
     (auto simp: stopAmbient_eq stopAmbient_idle params_inv_def)

lemma params_toggleHeartbeat: "params_inv s \<Longrightarrow> params_inv (state_of (toggleHeartbeat s))"
  using params_inv_core [OF core_toggleHeartbeat, of s] by (simp add: params_inv_def)

lemma params_toggleArpeggiator: "params_inv s \<Longrightarrow> params_inv (state_of (toggleArpeggiator s))"
  using params_inv_core [OF core_toggleArpeggiator, of s] by (simp add: params_inv_def)

lemma params_fireTimer: "params_inv s \<Longrightarrow> params_inv (state_of (fireTimer i s))"
  using params_inv_core [OF core_fireTimer, of i s] by simp

lemmas params_andThen = andThen_preserves [where P = params_inv]

lemma params_applyToggles: "params_inv a \<Longrightarrow> params_inv (state_of (applyToggles st a))"
  unfolding applyToggles_def
  by (intro params_andThen)
     (auto split: option.splits intro!: params_toggleHeartbeat params_toggleArpeggiator)

lemma params_applyPad: "params_inv a \<Longrightarrow> params_inv (applyPad st a)"
  by (auto simp: applyPad_def Let_def split: option.splits intro!: params_setters)

lemma params_applySettings:
  assumes "params_inv s"
  shows "params_inv (state_of (applySettings gv arg s))"
proof (cases arg)
  case (ArgObject st)
  show ?thesis
    unfolding ArgObject applySettings_split
    by (intro params_andThen params_applyToggles params_applyPad)
       (auto simp: assms applyVolume_def applyMute_def split: option.splits
          intro!: params_toggleMute params_setVolume)
qed (simp_all add: applySettings_def assms)

subsection \<open>The idle engine\<close>

lemma idle_upd0 [simp]:
  "idle_inv (s\<lparr>storeMode := x1\<rparr>) = idle_inv s"
  "idle_inv (s\<lparr>storeVolume := x2\<rparr>) = idle_inv s"
  "idle_inv (s\<lparr>storeMuted := x3\<rparr>) = idle_inv s"
  "idle_inv (s\<lparr>currentVolume := x4\<rparr>) = idle_inv s"
  "idle_inv (s\<lparr>isMuted := x5\<rparr>) = idle_inv s"
  "idle_inv (s\<lparr>masterGain := x6\<rparr>) = idle_inv s"
  "idle_inv (s\<lparr>analyser := x7\<rparr>) = idle_inv s"
  by (simp_all add: idle_inv_def)

lemma idle_config [simp]:
  "idle_inv (snd (initAudio s)) = idle_inv s"
  "idle_inv (state_of (setVolume v s)) = idle_inv s"
  "idle_inv (state_of (toggleMute gv s)) = idle_inv s"
  "idle_inv (setPadOscillatorType ty s) = idle_inv s"
  "idle_inv (setPadFilterFrequency f s) = idle_inv s"
  "idle_inv (setChordSpeed ms s) = idle_inv s"
  "idle_inv (suspendAudio s) = idle_inv s"
  "idle_inv (resumeAudio s) = idle_inv s"
  by (simp_all add: idle_inv_def initAudio_def setVolume_def saveVolume_def toggleMute_def
      Let_def split_def setPadOscillatorType_def setPadFilterFrequency_def setChordSpeed_def
      suspendAudio_def resumeAudio_def split: jsnum.splits)

lemma isPlaying_config [simp]:
  "isPlaying (snd (initAudio s)) = isPlaying s"
  "isPlaying (state_of (setVolume v s)) = isPlaying s"
  "isPlaying (state_of (toggleMute gv s)) = isPlaying s"
  by (simp_all add: initAudio_def setVolume_def saveVolume_def toggleMute_def Let_def split_def
      split: jsnum.splits)

lemma isPlaying_startLayers [simp]: "isPlaying (state_of (startLayers r1 r2 r3 s))"
  using core_eqD(6) [OF core_startLayers, of r1 r2 r3 s] by simp

lemma idle_upd [simp]:
  "idle_inv (s\<lparr>pendingStarts := x1\<rparr>) = idle_inv s"
  "idle_inv (s\<lparr>audioContext := x2\<rparr>) = idle_inv s"
  by (simp_all add: idle_inv_def)

lemma idle_startLayers [simp]: "idle_inv (state_of (startLayers r1 r2 r3 s))"
  by (simp add: idle_playing)

lemma idle_startAmbient:
  "idle_inv s \<Longrightarrow> idle_inv (state_of (startAmbient resumed r1 r2 r3 s))"
  by (simp add: startAmbient_def split_def Let_def)

lemma idle_startAmbient_begin:
  "idle_inv s \<Longrightarrow> idle_inv (state_of (startAmbient_begin r1 r2 r3 s))"
  by (simp add: startAmbient_begin_def split_def Let_def)

lemma idle_startAmbient_settled:
  "idle_inv s \<Longrightarrow> idle_inv (state_of (startAmbient_settled resumed r1 r2 r3 s))"
  by (simp add: startAmbient_settled_def split_def Let_def)

lemma idle_stopAmbient:
  "timers_inv s \<Longrightarrow> idle_inv s \<Longrightarrow> idle_inv (stopAmbient s)"
proof (cases "isPlaying s \<and> audioContext s \<noteq> None")
  case True
  assume "timers_inv s"
  with True have "pending (stopAmbient s) = []" by (simp add: pending_stopAmbient)
  then show ?thesis using True by (simp add: idle_inv_def stopAmbient_eq)
next
  case False
  assume "idle_inv s"
  with False show ?thesis by (simp add: stopAmbient_idle)
qed

lemma idle_toggleHeartbeat: "idle_inv s \<Longrightarrow> idle_inv (state_of (toggleHeartbeat s))"
proof (cases "isPlaying s")
  case True
  then have "isPlaying (s\<lparr>heartbeatEnabled := \<not> heartbeatEnabled s\<rparr>)" by simp
  then show ?thesis by (rule idle_core) (rule core_toggleHeartbeat)
next
  case False
  assume "idle_inv s"
  with False show ?thesis by (simp add: toggleHeartbeat_def idle_inv_def)
qed

lemma idle_toggleArpeggiator: "idle_inv s \<Longrightarrow> idle_inv (state_of (toggleArpeggiator s))"
proof (cases "isPlaying s")
  case True
  then have "isPlaying (s\<lparr>arpeggiatorEnabled := \<not> arpeggiatorEnabled s\<rparr>)" by simp
  then show ?thesis by (rule idle_core) (rule core_toggleArpeggiator)
next
  case False
  assume "idle_inv s"
  with False show ?thesis by (simp add: toggleArpeggiator_def idle_inv_def)
qed

lemma idle_fireTimer: "idle_inv s \<Longrightarrow> idle_inv (state_of (fireTimer i s))"
proof (cases "isPlaying s")
  case True
  then show ?thesis by (rule idle_core) (rule core_fireTimer)
next
  case False
  assume "idle_inv s"
  with False show ?thesis by (simp add: fireTimer_def idle_inv_def)
qed

lemmas idle_andThen = andThen_preserves [where P = idle_inv]

lemma idle_applyToggles: "idle_inv a \<Longrightarrow> idle_inv (state_of (applyToggles st a))"
  unfolding applyToggles_def
  by (intro idle_andThen)
     (auto split: option.splits intro!: idle_toggleHeartbeat idle_toggleArpeggiator)

lemma idle_applyPad [simp]: "idle_inv (applyPad st a) = idle_inv a"
  by (simp add: applyPad_def Let_def split: option.splits)

lemma idle_applySettings:
  assumes "idle_inv s"
  shows "idle_inv (state_of (applySettings gv arg s))"
proof (cases arg)
  case (ArgObject st)
  show ?thesis
    unfolding ArgObject applySettings_split
    by (intro idle_andThen idle_applyToggles)
       (auto simp: assms applyVolume_def applyMute_def split: option.splits)
qed (simp_all add: applySettings_def assms)


subsection \<open>All reachable states satisfy the invariants\<close>

lemma inv_init:
  "nodes_inv (init_engine avail st sm sv) \<and> params_inv (init_engine avail st sm sv)
   \<and> timers_inv (init_engine avail st sm sv) \<and> idle_inv (init_engine avail st sm sv)"
  by (simp add: init_engine_def nodes_inv_def params_inv_def timers_inv_def idle_inv_def)

lemma reachable_inv:
  "reachable s \<Longrightarrow> nodes_inv s \<and> params_inv s \<and> timers_inv s \<and> idle_inv s"
proof (induction rule: reachable.induct)
  case (r_init avail st sm sv)
  show ?case by (rule inv_init)
next
  case (r_storeMode s m)
  then show ?case by simp
next
  case (r_initAudio s)
  then show ?case by (simp add: nodes_initAudio params_initAudio)
next
  case (r_startAmbient s r1 r2 r3 resumed)
  then show ?case
    by (simp add: nodes_startAmbient params_startAmbient timers_startAmbient idle_startAmbient)
next
  case (r_startAmbient_begin s r1 r2 r3)
  then show ?case
    by (simp add: nodes_startAmbient_begin params_startAmbient_begin
        timers_startAmbient_begin idle_startAmbient_begin)
next
  case (r_startAmbient_settled s r1 r2 r3 resumed)
  then show ?case
    by (simp add: nodes_startAmbient_settled params_startAmbient_settled
        timers_startAmbient_settled idle_startAmbient_settled)
next
  case (r_stopAmbient s)
  then show ?case
    by (simp add: nodes_stopAmbient params_stopAmbient timers_stopAmbient idle_stopAmbient)
next
  case (r_toggleMute s gv)
  then show ?case by (simp add: nodes_toggleMute params_toggleMute)
next
  case (r_setVolume s v)
  then show ?case by (simp add: nodes_setVolume params_setVolume)
next
  case (r_applySettings s gv arg)
  then show ?case
    by (simp add: nodes_applySettings params_applySettings timers_applySettings
        idle_applySettings)
next
  case (r_setPadOscillatorType s ty)
  then show ?case by (simp add: nodes_setters params_setters)
next
  case (r_setPadFilterFrequency s freq)
  then show ?case by (simp add: nodes_setters params_setters)
next
  case (r_setChordSpeed s ms)
  then show ?case by (simp add: nodes_setters params_setters)
next
  case (r_toggleHeartbeat s)
  then show ?case
    by (simp add: nodes_toggleHeartbeat params_toggleHeartbeat timers_toggleHeartbeat
        idle_toggleHeartbeat)
next
  case (r_toggleArpeggiator s)
  then show ?case
    by (simp add: nodes_toggleArpeggiator params_toggleArpeggiator timers_toggleArpeggiator
        idle_toggleArpeggiator)
next
  case (r_suspendAudio s)
  then show ?case by (simp add: nodes_context params_context)
next
  case (r_resumeAudio s)
  then show ?case by (simp add: nodes_context params_context)
next
  case (r_fireTimer s i)
  then show ?case
    by (simp add: nodes_fireTimer params_fireTimer timers_fireTimer idle_fireTimer)
qed

lemma reachable_playing_context: "reachable s \<Longrightarrow> isPlaying s \<Longrightarrow> audioContext s \<noteq> None"
  using reachable_inv [of s] by (simp add: nodes_inv_def)

lemma cleanup_no_units: "activeOscillators s = [] \<Longrightarrow> cleanup n s = s"
  by (simp add: cleanup_def)

lemma startAmbient_fresh:
  "startAmbient resumed r1 r2 r3 (init_engine True Running None None)
     = startLayers r1 r2 r3 (snd (initAudio (init_engine True Running None None)))"
  by (simp add: startAmbient_def initAudio_def init_engine_def Let_def)

lemma reachable_playing_state: "reachable playing_state"
  unfolding playing_state_def
  by (rule r_startAmbient [OF r_init]) (simp_all add: chords_def bassNotes_def phrases_def)

lemma isPlaying_playing_state: "isPlaying playing_state"
  by (simp add: playing_state_def startAmbient_fresh)

section \<open>Stopping\<close>

text \<open>
  Claim C1. When \<^verbatim>\<open>stopAmbient\<close> is called on a playing engine (any reachable state with
  \<^verbatim>\<open>isPlaying\<close> true), afterwards \<^verbatim>\<open>isPlaying\<close> is false, \<^verbatim>\<open>activeTimers\<close> and
  \<^verbatim>\<open>activeOscillators\<close> are empty, and every timeout that was pending at the call has been
  cleared: the event loop has no pending timeout of the engine left, so no callback of
  any layer fires afterwards. A unit's self-cleanup run on the stopped engine changes
  nothing, since the registry is already empty.
\<close>

theorem stopAmbient_cancels_every_timer:
  assumes "reachable s" and "isPlaying s"
  shows "\<not> isPlaying (stopAmbient s)
     \<and> activeTimers (stopAmbient s) = []
     \<and> activeOscillators (stopAmbient s) = []
     \<and> pending (stopAmbient s) = []
     \<and> (\<forall>p \<in> set (pending s). map_of (pending (stopAmbient s)) (fst p) = None)
     \<and> (\<forall>i. fireTimer i (stopAmbient s) = Returned (stopAmbient s))
     \<and> (\<forall>n. cleanup n (stopAmbient s) = stopAmbient s)"
proof -
  have ctx: "audioContext s \<noteq> None"
    using assms by (rule reachable_playing_context)
  have tm: "timers_inv s"
    using assms(1) reachable_inv by blast
  have p: "pending (stopAmbient s) = []"
    using tm assms(2) ctx by (rule pending_stopAmbient)
  have u: "activeOscillators (stopAmbient s) = []"
    using assms(2) ctx by (simp add: stopAmbient_eq)
  have t: "activeTimers (stopAmbient s) = []"
    using assms(2) ctx by (simp add: stopAmbient_eq)
  have f: "\<not> isPlaying (stopAmbient s)"
    using assms(2) ctx by (simp add: stopAmbient_eq)
  have fire: "\<forall>i. fireTimer i (stopAmbient s) = Returned (stopAmbient s)"
    by (simp add: fireTimer_def p)
  have cl: "\<forall>n. cleanup n (stopAmbient s) = stopAmbient s"
    using u by (simp add: cleanup_no_units)
  show ?thesis using p u t f fire cl by simp
qed

theorem stopAmbient_cancels_every_timer_witness:
  "reachable playing_state \<and> isPlaying playing_state
   \<and> \<not> isPlaying (stopAmbient playing_state)
   \<and> pending (stopAmbient playing_state) = []
   \<and> activeTimers (stopAmbient playing_state) = []
   \<and> activeOscillators (stopAmbient playing_state) = []"
  using stopAmbient_cancels_every_timer [OF reachable_playing_state isPlaying_playing_state]
    reachable_playing_state isPlaying_playing_state
  by simp

text \<open>
  Claim C5. \<^verbatim>\<open>stopAmbient\<close> is idempotent: in every state, calling it twice gives the same
  state as calling it once; called on an engine that is not playing it changes nothing;
  and in every reachable state the state it leaves has \<^verbatim>\<open>isPlaying\<close> false and both
  registries empty.
\<close>

theorem stopAmbient_idempotent:
  "stopAmbient (stopAmbient s) = stopAmbient s
   \<and> (\<not> isPlaying s \<longrightarrow> stopAmbient s = s)
   \<and> (reachable s \<longrightarrow> \<not> isPlaying (stopAmbient s)
         \<and> activeTimers (stopAmbient s) = [] \<and> activeOscillators (stopAmbient s) = [])"
proof -
  have idem: "stopAmbient (stopAmbient s) = stopAmbient s"
  proof (cases "isPlaying s \<and> audioContext s \<noteq> None")
    case True
    then have "\<not> isPlaying (stopAmbient s)" by (simp add: stopAmbient_eq)
    then show ?thesis by (simp add: stopAmbient_idle)
  next
    case False
    then show ?thesis by (simp add: stopAmbient_idle)
  qed
  have noop: "\<not> isPlaying s \<longrightarrow> stopAmbient s = s"
    by (simp add: stopAmbient_idle)
  have reach: "reachable s \<longrightarrow> \<not> isPlaying (stopAmbient s)
         \<and> activeTimers (stopAmbient s) = [] \<and> activeOscillators (stopAmbient s) = []"
  proof
    assume r: "reachable s"
    show "\<not> isPlaying (stopAmbient s)
         \<and> activeTimers (stopAmbient s) = [] \<and> activeOscillators (stopAmbient s) = []"
    proof (cases "isPlaying s")
      case True
      with r have "audioContext s \<noteq> None" by (rule reachable_playing_context)
      with True show ?thesis by (simp add: stopAmbient_eq)
    next
      case False
      moreover have "idle_inv s" using r reachable_inv by blast
      ultimately show ?thesis by (simp add: stopAmbient_idle idle_inv_def)
    qed
  qed
  show ?thesis using idem noop reach by blast
qed

theorem stopAmbient_idempotent_witness:
  "stopAmbient (stopAmbient playing_state) = stopAmbient playing_state
   \<and> \<not> isPlaying (stopAmbient playing_state)
   \<and> stopAmbient (stopAmbient playing_state) = stopAmbient playing_state
   \<and> activeTimers (stopAmbient playing_state) = []
   \<and> activeOscillators (stopAmbient playing_state) = []"
proof -
  have 1: "reachable playing_state" by (rule reachable_playing_state)
  have 2: "\<not> isPlaying (stopAmbient playing_state)"
    using stopAmbient_idempotent [of playing_state] 1 by blast
  show ?thesis
    using stopAmbient_idempotent [of playing_state] stopAmbient_idempotent [of "stopAmbient playing_state"] 1 2
    by simp
qed

subsection \<open>Where the layers cannot throw\<close>

lemma threw_andThen:
  "\<not> threw x \<Longrightarrow> (\<And>a. core a = core (state_of x) \<Longrightarrow> \<not> threw (f a)) \<Longrightarrow> \<not> threw (andThen x f)"
  by (cases x) simp_all

lemma playSingleBeat_returns: "masterGain s \<noteq> None \<Longrightarrow> \<not> threw (playSingleBeat off s)"
  by (auto simp: playSingleBeat_def Let_def split_def newNode_def)

lemma playBeatPair_returns:
  assumes "masterGain s \<noteq> None"
  shows "\<not> threw (playBeatPair s)"
proof -
  have mg: "\<And>a. core a = core s \<Longrightarrow> masterGain a \<noteq> None"
    using assms core_eqD(2) by metis
  have "\<not> threw (andThen (playSingleBeat 0 s) (\<lambda>s1.
        andThen (playSingleBeat 0.35 s1) (\<lambda>s2.
          let (timerId, s3) = setTimeout PlayBeatPair s2
          in Returned (pushTimer (TimerId timerId) s3))))"
  proof (rule threw_andThen)
    show "\<not> threw (playSingleBeat 0 s)" using assms by (rule playSingleBeat_returns)
  next
    fix a assume "core a = core (state_of (playSingleBeat 0 s))"
    then have a: "masterGain a \<noteq> None" by (simp add: mg)
    show "\<not> threw (andThen (playSingleBeat 0.35 a) (\<lambda>s2.
          let (timerId, s3) = setTimeout PlayBeatPair s2
          in Returned (pushTimer (TimerId timerId) s3)))"
      by (rule threw_andThen) (simp_all add: a playSingleBeat_returns split_def Let_def)
  qed
  then show ?thesis by (simp add: playBeatPair_def)
qed

lemma createHeartbeat_returns: "\<not> threw (createHeartbeat s)"
  by (simp add: createHeartbeat_def playBeatPair_returns)

lemma createArpeggio_returns: "\<not> threw (createArpeggio s)"
proof (cases "currentPadChordNotes s")
  case Nil
  then show ?thesis by (simp add: createArpeggio_def)
next
  case (Cons x xs)
  then show ?thesis
    by (simp add: createArpeggio_def playArpNote_def Let_def split_def js_index_def newNode_def)
qed

lemma toggleHeartbeat_returns:
  "isPlaying s \<longrightarrow> audioContext s \<noteq> None \<Longrightarrow> \<not> threw (toggleHeartbeat s)"
  by (auto simp: toggleHeartbeat_def Let_def createHeartbeat_returns)

lemma toggleArpeggiator_returns:
  "isPlaying s \<longrightarrow> audioContext s \<noteq> None \<Longrightarrow> \<not> threw (toggleArpeggiator s)"
  by (auto simp: toggleArpeggiator_def Let_def createArpeggio_returns stopArpeggioSequence_eq)

section \<open>The audio nodes while playing\<close>

text \<open>
  Claim C9. In every state the engine can reach by its exported operations (and by
  timeouts firing), \<^verbatim>\<open>isPlaying\<close> true implies that \<^verbatim>\<open>audioContext\<close>, \<^verbatim>\<open>masterGain\<close> and
  \<^verbatim>\<open>analyser\<close> are all non-null; hence the unguarded reads of
  \<^verbatim>\<open>audioContext.currentTime\<close> in the disable branch of \<^verbatim>\<open>toggleHeartbeat\<close> and in
  \<^verbatim>\<open>stopArpeggioSequence\<close> called from \<^verbatim>\<open>toggleArpeggiator\<close> never throw.
\<close>

theorem playing_needs_the_audio_nodes:
  assumes "reachable s"
  shows "(isPlaying s \<longrightarrow> audioContext s \<noteq> None \<and> masterGain s \<noteq> None \<and> analyser s \<noteq> None)
     \<and> \<not> threw (toggleHeartbeat s)
     \<and> \<not> threw (toggleArpeggiator s)"
proof -
  have n: "nodes_inv s" using assms reachable_inv by blast
  then have ctx: "isPlaying s \<longrightarrow> audioContext s \<noteq> None" by (simp add: nodes_inv_def)
  have 1: "isPlaying s \<longrightarrow> audioContext s \<noteq> None \<and> masterGain s \<noteq> None \<and> analyser s \<noteq> None"
    using n by (simp add: nodes_inv_def)
  have 2: "\<not> threw (toggleHeartbeat s)" using ctx by (rule toggleHeartbeat_returns)
  have 3: "\<not> threw (toggleArpeggiator s)" using ctx by (rule toggleArpeggiator_returns)
  show ?thesis using 1 2 3 by blast
qed

theorem playing_needs_the_audio_nodes_witness:
  "isPlaying playing_state
   \<and> audioContext playing_state \<noteq> None \<and> masterGain playing_state \<noteq> None
   \<and> analyser playing_state \<noteq> None
   \<and> \<not> threw (toggleHeartbeat playing_state)
   \<and> \<not> threw (toggleArpeggiator playing_state)"
  using playing_needs_the_audio_nodes [OF reachable_playing_state] isPlaying_playing_state
  by simp

section \<open>Switching the arpeggiator off\<close>

text \<open>
  Claim C3. \<^verbatim>\<open>toggleArpeggiator\<close> called while playing with the arpeggiator enabled
  returns with the flag off; every arpeggio unit has left \<^verbatim>\<open>activeOscillators\<close> after a
  ramp to 0.0001 over 0.1 s and a stop at 0.2 s; every timer tagged \<^verbatim>\<open>arpeggio_note\<close> has
  left \<^verbatim>\<open>activeTimers\<close> and is no longer pending; the units of other layers and the
  untagged timers stay in their registries, in their order, and the timeouts that are
  not tagged stay pending.
\<close>

theorem toggleArpeggiator_off_sweeps_arpeggio:
  assumes "reachable s" and "isPlaying s" and "arpeggiatorEnabled s"
  shows "\<exists>s'. toggleArpeggiator s = Returned s'
     \<and> \<not> arpeggiatorEnabled s'
     \<and> activeOscillators s' = filter (\<lambda>u. utype u \<noteq> Arpeggio) (activeOscillators s)
     \<and> (\<forall>u \<in> set (activeOscillators s'). utype u \<noteq> Arpeggio)
     \<and> (\<forall>u \<in> set (activeOscillators s). utype u = Arpeggio \<longrightarrow>
           LinearRamp (gain u) 0.0001 0.1 \<in> set (audioLog s')
           \<and> StopAt (osc u) 0.2 \<in> set (audioLog s'))
     \<and> activeTimers s' = filter (\<lambda>timer. \<not> is_arpeggio_note timer) (activeTimers s)
     \<and> (\<forall>i. TimerObj i ''arpeggio_note'' \<notin> set (activeTimers s'))
     \<and> (\<forall>i. TimerObj i ''arpeggio_note'' \<in> set (activeTimers s)
            \<longrightarrow> map_of (pending s') i = None)
     \<and> (\<forall>i. TimerId i \<in> set (activeTimers s) \<longrightarrow> TimerId i \<in> set (activeTimers s'))
     \<and> pending s' = filter (\<lambda>p. TimerObj (fst p) ''arpeggio_note'' \<notin> set (activeTimers s))
                        (pending s)"
proof -
  have ctx: "audioContext s \<noteq> None"
    using assms(1,2) by (rule reachable_playing_context)
  let ?s2 = "s\<lparr>arpeggiatorEnabled := False,
               pending := filter (\<lambda>p. TimerObj (fst p) ''arpeggio_note'' \<notin> set (activeTimers s))
                               (pending s),
               activeTimers := filter (\<lambda>timer. \<not> is_arpeggio_note timer) (activeTimers s)\<rparr>"
  let ?s' = "fadeAndRemove Arpeggio 0.1 0.2 ?s2"
  have eq: "toggleArpeggiator s = Returned ?s'"
    using assms(2,3) ctx by (auto simp: toggleArpeggiator_def stopArpeggioSequence_eq Let_def)
  have 1: "\<not> arpeggiatorEnabled ?s'"
    by (simp add: fadeAndRemove_def emit_def)
  have 2: "activeOscillators ?s' = filter (\<lambda>u. utype u \<noteq> Arpeggio) (activeOscillators s)"
    by simp
  have 3: "\<forall>u \<in> set (activeOscillators ?s'). utype u \<noteq> Arpeggio"
    by simp
  have 4: "\<forall>u \<in> set (activeOscillators s). utype u = Arpeggio \<longrightarrow>
           LinearRamp (gain u) 0.0001 0.1 \<in> set (audioLog ?s')
           \<and> StopAt (osc u) 0.2 \<in> set (audioLog ?s')"
    by (auto simp: fadeCmds_def)
  have 5: "activeTimers ?s' = filter (\<lambda>timer. \<not> is_arpeggio_note timer) (activeTimers s)"
    by simp
  have 6: "\<forall>i. TimerObj i ''arpeggio_note'' \<notin> set (activeTimers ?s')"
    by simp
  have 7: "\<forall>i. TimerObj i ''arpeggio_note'' \<in> set (activeTimers s)
            \<longrightarrow> map_of (pending ?s') i = None"
    by (auto simp: map_of_eq_None_iff)
  have 8: "\<forall>i. TimerId i \<in> set (activeTimers s) \<longrightarrow> TimerId i \<in> set (activeTimers ?s')"
    by simp
  have 9: "pending ?s' = filter (\<lambda>p. TimerObj (fst p) ''arpeggio_note'' \<notin> set (activeTimers s))
                        (pending s)"
    by simp
  show ?thesis
    using eq 1 2 3 4 5 6 7 8 9 by blast
qed


lemma flags_playing_state:
  "\<not> arpeggiatorEnabled playing_state" "\<not> heartbeatEnabled playing_state"
proof -
  let ?s0 = "snd (initAudio (init_engine True Running None None))"
  have ps: "playing_state = state_of (startLayers 0 0 0 ?s0)"
    by (simp add: playing_state_def startAmbient_fresh)
  have c: "core playing_state
      = core (state_of (setVolume (currentVolume ?s0) (?s0\<lparr>isPlaying := True\<rparr>)))"
    unfolding ps by (rule core_startLayers)
  have "\<not> arpeggiatorEnabled (state_of (setVolume (currentVolume ?s0) (?s0\<lparr>isPlaying := True\<rparr>)))"
    "\<not> heartbeatEnabled (state_of (setVolume (currentVolume ?s0) (?s0\<lparr>isPlaying := True\<rparr>)))"
    by (simp_all add: setVolume_def saveVolume_def initAudio_def init_engine_def Let_def)
  then show "\<not> arpeggiatorEnabled playing_state" "\<not> heartbeatEnabled playing_state"
    using core_eqD(7,8) [OF c] by simp_all
qed

lemma reachable_arpeggio_state: "reachable arpeggio_state"
  unfolding arpeggio_state_def by (rule r_toggleArpeggiator) (rule reachable_playing_state)

lemma flags_arpeggio_state: "isPlaying arpeggio_state" "arpeggiatorEnabled arpeggio_state"
  using core_eqD(6,8) [OF core_toggleArpeggiator, of playing_state]
    isPlaying_playing_state flags_playing_state
  by (simp_all add: arpeggio_state_def)

theorem toggleArpeggiator_off_sweeps_arpeggio_witness:
  "reachable arpeggio_state \<and> isPlaying arpeggio_state \<and> arpeggiatorEnabled arpeggio_state
   \<and> \<not> threw (toggleArpeggiator arpeggio_state)
   \<and> \<not> arpeggiatorEnabled (state_of (toggleArpeggiator arpeggio_state))
   \<and> filter (\<lambda>u. utype u = Arpeggio)
        (activeOscillators (state_of (toggleArpeggiator arpeggio_state))) = []
   \<and> filter is_arpeggio_note (activeTimers (state_of (toggleArpeggiator arpeggio_state))) = []"
proof -
  obtain s' where s': "toggleArpeggiator arpeggio_state = Returned s'"
      "\<not> arpeggiatorEnabled s'"
      "activeOscillators s' = filter (\<lambda>u. utype u \<noteq> Arpeggio) (activeOscillators arpeggio_state)"
      "activeTimers s' = filter (\<lambda>timer. \<not> is_arpeggio_note timer) (activeTimers arpeggio_state)"
    using toggleArpeggiator_off_sweeps_arpeggio
      [OF reachable_arpeggio_state flags_arpeggio_state]
    by blast
  then show ?thesis
    using reachable_arpeggio_state flags_arpeggio_state by simp
qed


section \<open>What the layers do to the registries\<close>

lemma prims_frame [simp]:
  "pending (pushTimer t s) = pending s"
  "activeTimers (pushTimer t s) = activeTimers s @ [t]"
  "nextTimerId (pushTimer t s) = nextTimerId s"
  "nextNodeId (pushTimer t s) = nextNodeId s"
  "activeOscillators (pushTimer t s) = activeOscillators s"
  "audioLog (pushTimer t s) = audioLog s"
  "currentPadChordNotes (pushTimer t s) = currentPadChordNotes s"
  "fst (setTimeout cb s) = nextTimerId s"
  "pending (snd (setTimeout cb s)) = pending s @ [(nextTimerId s, cb)]"
  "activeTimers (snd (setTimeout cb s)) = activeTimers s"
  "nextTimerId (snd (setTimeout cb s)) = Suc (nextTimerId s)"
  "nextNodeId (snd (setTimeout cb s)) = nextNodeId s"
  "activeOscillators (snd (setTimeout cb s)) = activeOscillators s"
  "audioLog (snd (setTimeout cb s)) = audioLog s"
  "currentPadChordNotes (snd (setTimeout cb s)) = currentPadChordNotes s"
  "fst (newNode s) = nextNodeId s"
  "pending (snd (newNode s)) = pending s"
  "activeTimers (snd (newNode s)) = activeTimers s"
  "nextTimerId (snd (newNode s)) = nextTimerId s"
  "nextNodeId (snd (newNode s)) = Suc (nextNodeId s)"
  "activeOscillators (snd (newNode s)) = activeOscillators s"
  "audioLog (snd (newNode s)) = audioLog s"
  "currentPadChordNotes (snd (newNode s)) = currentPadChordNotes s"
  "pending (pushUnit u s) = pending s"
  "activeTimers (pushUnit u s) = activeTimers s"
  "nextTimerId (pushUnit u s) = nextTimerId s"
  "nextNodeId (pushUnit u s) = nextNodeId s"
  "activeOscillators (pushUnit u s) = activeOscillators s @ [u]"
  "audioLog (pushUnit u s) = audioLog s"
  "currentPadChordNotes (pushUnit u s) = currentPadChordNotes s"
  "pending (emit cs s) = pending s"
  "activeTimers (emit cs s) = activeTimers s"
  "nextTimerId (emit cs s) = nextTimerId s"
  "nextNodeId (emit cs s) = nextNodeId s"
  "activeOscillators (emit cs s) = activeOscillators s"
  "audioLog (emit cs s) = audioLog s @ cs"
  "currentPadChordNotes (emit cs s) = currentPadChordNotes s"
  by (simp_all add: pushTimer_def setTimeout_def newNode_def pushUnit_def emit_def)

lemma core_fields [simp]:
  "audioContext (core s) = audioContext s" "masterGain (core s) = masterGain s"
  "isPlaying (core s) = isPlaying s" "heartbeatEnabled (core s) = heartbeatEnabled s"
  "arpeggiatorEnabled (core s) = arpeggiatorEnabled s" "padOscType (core s) = padOscType s"
  by (simp_all add: core_def)

lemma prims_core_fields [simp]:
  "audioContext (pushTimer t s) = audioContext s" "masterGain (pushTimer t s) = masterGain s"
  "isPlaying (pushTimer t s) = isPlaying s" "heartbeatEnabled (pushTimer t s) = heartbeatEnabled s"
  "arpeggiatorEnabled (pushTimer t s) = arpeggiatorEnabled s"
  "padOscType (pushTimer t s) = padOscType s"
  "audioContext (snd (setTimeout cb s)) = audioContext s"
  "masterGain (snd (setTimeout cb s)) = masterGain s"
  "isPlaying (snd (setTimeout cb s)) = isPlaying s"
  "heartbeatEnabled (snd (setTimeout cb s)) = heartbeatEnabled s"
  "arpeggiatorEnabled (snd (setTimeout cb s)) = arpeggiatorEnabled s"
  "padOscType (snd (setTimeout cb s)) = padOscType s"
  "audioContext (snd (newNode s)) = audioContext s" "masterGain (snd (newNode s)) = masterGain s"
  "isPlaying (snd (newNode s)) = isPlaying s"
  "heartbeatEnabled (snd (newNode s)) = heartbeatEnabled s"
  "arpeggiatorEnabled (snd (newNode s)) = arpeggiatorEnabled s"
  "padOscType (snd (newNode s)) = padOscType s"
  "audioContext (pushUnit u s) = audioContext s" "masterGain (pushUnit u s) = masterGain s"
  "isPlaying (pushUnit u s) = isPlaying s" "heartbeatEnabled (pushUnit u s) = heartbeatEnabled s"
  "arpeggiatorEnabled (pushUnit u s) = arpeggiatorEnabled s"
  "padOscType (pushUnit u s) = padOscType s"
  "audioContext (emit cs s) = audioContext s" "masterGain (emit cs s) = masterGain s"
  "isPlaying (emit cs s) = isPlaying s" "heartbeatEnabled (emit cs s) = heartbeatEnabled s"
  "arpeggiatorEnabled (emit cs s) = arpeggiatorEnabled s"
  "padOscType (emit cs s) = padOscType s"
  "audioContext (fadeAndRemove ty d e s) = audioContext s"
  "masterGain (fadeAndRemove ty d e s) = masterGain s"
  "isPlaying (fadeAndRemove ty d e s) = isPlaying s"
  "heartbeatEnabled (fadeAndRemove ty d e s) = heartbeatEnabled s"
  "arpeggiatorEnabled (fadeAndRemove ty d e s) = arpeggiatorEnabled s"
  "padOscType (fadeAndRemove ty d e s) = padOscType s"
  by (simp_all add: pushTimer_def setTimeout_def newNode_def pushUnit_def emit_def
      fadeAndRemove_def)

lemma chords_cases: "r < length chords \<Longrightarrow> r = 0 \<or> r = 1 \<or> r = 2 \<or> r = 3"
  by (auto simp: chords_def)




lemma frame_initAudio [simp]:
  "padOscType (snd (initAudio s)) = padOscType s"
  "padFilterFreq (snd (initAudio s)) = padFilterFreq s"
  "chordSpeedMs (snd (initAudio s)) = chordSpeedMs s"
  "heartbeatEnabled (snd (initAudio s)) = heartbeatEnabled s"
  "arpeggiatorEnabled (snd (initAudio s)) = arpeggiatorEnabled s"
  "activeOscillators (snd (initAudio s)) = activeOscillators s"
  "activeTimers (snd (initAudio s)) = activeTimers s"
  "pending (snd (initAudio s)) = pending s"
  "nextTimerId (snd (initAudio s)) = nextTimerId s"
  "nextNodeId (snd (initAudio s)) = nextNodeId s"
  "audioLog (snd (initAudio s)) = audioLog s"
  "currentPadChordNotes (snd (initAudio s)) = currentPadChordNotes s"
  "storeMode (snd (initAudio s)) = storeMode s"
  "storeMuted (snd (initAudio s)) = storeMuted s"
  "storeVolume (snd (initAudio s)) = storeVolume s"
  "webAudioAvailable (snd (initAudio s)) = webAudioAvailable s"
  "pendingStarts (snd (initAudio s)) = pendingStarts s"
  "consoleWarn (snd (initAudio s)) = consoleWarn s"
  by (simp_all add: initAudio_def Let_def split: jsnum.splits)

lemma initAudio_initialised [simp]: "audioContext s \<noteq> None \<Longrightarrow> initAudio s = (True, s)"
  by (simp add: initAudio_def)

lemma frame_setVolume [simp]:
  "padOscType (state_of (setVolume v s)) = padOscType s"
  "padFilterFreq (state_of (setVolume v s)) = padFilterFreq s"
  "chordSpeedMs (state_of (setVolume v s)) = chordSpeedMs s"
  "heartbeatEnabled (state_of (setVolume v s)) = heartbeatEnabled s"
  "arpeggiatorEnabled (state_of (setVolume v s)) = arpeggiatorEnabled s"
  "activeOscillators (state_of (setVolume v s)) = activeOscillators s"
  "activeTimers (state_of (setVolume v s)) = activeTimers s"
  "pending (state_of (setVolume v s)) = pending s"
  "nextTimerId (state_of (setVolume v s)) = nextTimerId s"
  "nextNodeId (state_of (setVolume v s)) = nextNodeId s"
  "audioLog (state_of (setVolume v s)) = audioLog s"
  "currentPadChordNotes (state_of (setVolume v s)) = currentPadChordNotes s"
  "storeMode (state_of (setVolume v s)) = storeMode s"
  by (simp_all add: setVolume_def saveVolume_def Let_def split_def split: jsnum.splits)

lemma frame_toggleMute [simp]:
  "padOscType (state_of (toggleMute gv s)) = padOscType s"
  "padFilterFreq (state_of (toggleMute gv s)) = padFilterFreq s"
  "chordSpeedMs (state_of (toggleMute gv s)) = chordSpeedMs s"
  "heartbeatEnabled (state_of (toggleMute gv s)) = heartbeatEnabled s"
  "arpeggiatorEnabled (state_of (toggleMute gv s)) = arpeggiatorEnabled s"
  "activeOscillators (state_of (toggleMute gv s)) = activeOscillators s"
  "activeTimers (state_of (toggleMute gv s)) = activeTimers s"
  "pending (state_of (toggleMute gv s)) = pending s"
  "nextTimerId (state_of (toggleMute gv s)) = nextTimerId s"
  "nextNodeId (state_of (toggleMute gv s)) = nextNodeId s"
  "audioLog (state_of (toggleMute gv s)) = audioLog s"
  "currentPadChordNotes (state_of (toggleMute gv s)) = currentPadChordNotes s"
  "storeMode (state_of (toggleMute gv s)) = storeMode s"
  by (simp_all add: toggleMute_def Let_def split_def split: jsnum.splits)

text \<open>\<^verbatim>\<open>setVolume\<close> on an initialised engine: it throws exactly when the engine is not
  muted and the volume given is \<^verbatim>\<open>NaN\<close>, and has stored the clamped volume either way.\<close>

lemma setVolume_initialised:
  assumes "audioContext s \<noteq> None" "masterGain s \<noteq> None"
  shows "threw (setVolume v s) \<longleftrightarrow> \<not> isMuted s \<and> v = NaN"
    "currentVolume (state_of (setVolume v s)) = Math_max (Num 0) (Math_min (Num 1) v)"
    "isMuted (state_of (setVolume v s)) = isMuted s"
    "audioContext (state_of (setVolume v s)) = audioContext s"
    "masterGain (state_of (setVolume v s)) \<noteq> None"
    "isPlaying (state_of (setVolume v s)) = isPlaying s"
  using assms
  by (cases v; auto simp: setVolume_def saveVolume_def Let_def)+





lemma fade_not_arp [simp]: "filter is_arp_start (concat (map (fadeCmds d e) us)) = []"
  by (induction us) (simp_all add: fadeCmds_def)



















section \<open>A chord change restarts the arpeggio\<close>


















section \<open>The pad sets the chord before the arpeggio starts\<close>






















section \<open>Volume and mute\<close>

lemma initAudio_idem:
  "initAudio (snd (initAudio s)) = (fst (initAudio s), snd (initAudio s))"
  by (auto simp: initAudio_def Let_def split: jsnum.splits option.splits)

lemma setVolume_via_init: "setVolume v s = setVolume v (snd (initAudio s))"
  by (simp add: setVolume_def initAudio_idem)

lemma toggleMute_via_init: "toggleMute gv s = toggleMute gv (snd (initAudio s))"
  by (simp add: toggleMute_def initAudio_idem)

lemma setVolume_failed: "\<not> fst (initAudio s) \<Longrightarrow> setVolume v s = Returned (snd (initAudio s))"
  by (simp add: setVolume_def split_def)

lemma toggleMute_failed: "\<not> fst (initAudio s) \<Longrightarrow> toggleMute gv s = Returned (snd (initAudio s))"
  by (simp add: toggleMute_def split_def)

lemma toggleMute_initialised:
  assumes "audioContext a \<noteq> None" "masterGain a \<noteq> None"
  shows "isMuted (state_of (toggleMute gv a)) = (\<not> isMuted a)"
    "currentVolume (state_of (toggleMute gv a))
       = (if \<not> isMuted a \<and> gv > 0.001 then Num gv else currentVolume a)"
    "threw (toggleMute gv a) \<longleftrightarrow>
       (if isMuted a then \<not> is_finite (currentVolume a) \<or> storeMode a = StoreBlocked
        else storeMode a \<noteq> StoreOk)"
    "audioContext (state_of (toggleMute gv a)) = audioContext a"
    "masterGain (state_of (toggleMute gv a)) \<noteq> None"
    "isPlaying (state_of (toggleMute gv a)) = isPlaying a"
  using assms
  by (cases "currentVolume a"; auto simp: toggleMute_def Let_def)+


lemma andThen_assoc: "andThen (andThen X f) g = andThen X (\<lambda>a. andThen (f a) g)"
  by (cases X) simp_all

lemma applySettings_parts:
  "applySettings gv (ArgObject st) s =
     andThen (applyVolumeMute gv st s) (\<lambda>s2. applyToggles st (applyPad st s2))"
  by (simp add: applySettings_split applyVolumeMute_def andThen_assoc)

lemma applyVolumeMute_untouched:
  assumes "asNumber (s_volume st) = None"
    "asBoolean (s_isMuted st) = None \<or> asBoolean (s_isMuted st) = Some (isMuted s)"
  shows "applyVolumeMute gv st s = Returned s"
  using assms by (auto simp: applyVolumeMute_def applyVolume_def applyMute_def)

lemma applyVolumeMute_failed:
  assumes "\<not> fst (initAudio s)"
    "asNumber (s_volume st) \<noteq> None
     \<or> (asBoolean (s_isMuted st) \<noteq> None \<and> asBoolean (s_isMuted st) \<noteq> Some (isMuted s))"
  shows "applyVolumeMute gv st s = Returned (snd (initAudio s))"
proof (cases "asNumber (s_volume st)")
  case (Some v)
  have f: "\<not> fst (initAudio (snd (initAudio s)))"
    using assms(1) by (simp add: initAudio_idem)
  have i: "snd (initAudio (snd (initAudio s))) = snd (initAudio s)"
    by (simp add: initAudio_idem)
  show ?thesis
    using toggleMute_failed [OF f, of gv] i
    by (simp add: applyVolumeMute_def applyVolume_def applyMute_def Some
        setVolume_failed [OF assms(1)] split: option.splits)
next
  case None
  with assms(2) show ?thesis
    by (auto simp: applyVolumeMute_def applyVolume_def applyMute_def
        toggleMute_failed [OF assms(1)])
qed

lemma initialised_after_init:
  assumes "nodes_inv s" "fst (initAudio s)"
  shows "audioContext (snd (initAudio s)) \<noteq> None" "masterGain (snd (initAudio s)) \<noteq> None"
proof -
  show c: "audioContext (snd (initAudio s)) \<noteq> None"
    using assms(2) by (rule initAudio_nodes)
  have "nodes_inv (snd (initAudio s))" using assms(1) by (rule nodes_initAudio)
  with c show "masterGain (snd (initAudio s)) \<noteq> None" by (simp add: nodes_inv_def)
qed

lemma applyVolumeMute_volume:
  assumes n: "nodes_inv s" and ok: "fst (initAudio s)"
    and v: "asNumber (s_volume st) = Some v"
  shows "v = NaN \<and> \<not> isMuted (snd (initAudio s)) \<Longrightarrow>
           threw (applyVolumeMute gv st s)
           \<and> currentVolume (state_of (applyVolumeMute gv st s)) = NaN
           \<and> isMuted (state_of (applyVolumeMute gv st s)) = isMuted (snd (initAudio s))"
    "v \<noteq> NaN \<or> isMuted (snd (initAudio s)) \<Longrightarrow>
           isMuted (state_of (applyVolumeMute gv st s))
             = (case asBoolean (s_isMuted st) of
                  Some b \<Rightarrow> b | None \<Rightarrow> isMuted (snd (initAudio s)))
           \<and> currentVolume (state_of (applyVolumeMute gv st s))
             = (if asBoolean (s_isMuted st) = Some True \<and> \<not> isMuted (snd (initAudio s))
                   \<and> gv > 0.001
                then Num gv else Math_max (Num 0) (Math_min (Num 1) v))
           \<and> (threw (applyVolumeMute gv st s) \<longleftrightarrow>
                (case asBoolean (s_isMuted st) of
                   None \<Rightarrow> False
                 | Some b \<Rightarrow> b \<noteq> isMuted (snd (initAudio s))
                     \<and> (if isMuted (snd (initAudio s))
                         then v = NaN \<or> storeMode s = StoreBlocked
                         else storeMode s \<noteq> StoreOk)))"
proof -
  define s0 where "s0 = snd (initAudio s)"
  note g = initialised_after_init [OF n ok, folded s0_def]
  note sv = setVolume_initialised [OF g, of v]
  have e: "applyVolume st s = setVolume v s0"
    unfolding s0_def by (simp add: applyVolume_def v setVolume_via_init [symmetric])
  {
    assume a: "v = NaN \<and> \<not> isMuted s0"
    then have "threw (setVolume v s0)" using sv(1) by simp
    then have "applyVolumeMute gv st s = Threw (state_of (setVolume v s0))"
      by (cases "setVolume v s0") (simp_all add: applyVolumeMute_def e)
    then show "threw (applyVolumeMute gv st s)
           \<and> currentVolume (state_of (applyVolumeMute gv st s)) = NaN
           \<and> isMuted (state_of (applyVolumeMute gv st s)) = isMuted (snd (initAudio s))"
      using sv(2,3) a by (simp add: s0_def)
  }
  {
    assume a: "v \<noteq> NaN \<or> isMuted (snd (initAudio s))"
    define s1 where "s1 = state_of (setVolume v s0)"
    have "\<not> threw (setVolume v s0)" using sv(1) a by (auto simp: s0_def)
    then have r: "setVolume v s0 = Returned s1" by (cases "setVolume v s0") (simp_all add: s1_def)
    have s1: "audioContext s1 \<noteq> None" "masterGain s1 \<noteq> None" "isMuted s1 = isMuted s0"
      "currentVolume s1 = Math_max (Num 0) (Math_min (Num 1) v)" "storeMode s1 = storeMode s"
      using sv g by (simp_all add: s1_def s0_def)
    note tm = toggleMute_initialised [OF s1(1,2), of gv]
    have vm: "applyVolumeMute gv st s = applyMute gv st s1"
      by (simp add: applyVolumeMute_def e r)
    show "isMuted (state_of (applyVolumeMute gv st s))
             = (case asBoolean (s_isMuted st) of
                  Some b \<Rightarrow> b | None \<Rightarrow> isMuted (snd (initAudio s)))
           \<and> currentVolume (state_of (applyVolumeMute gv st s))
             = (if asBoolean (s_isMuted st) = Some True \<and> \<not> isMuted (snd (initAudio s))
                   \<and> gv > 0.001
                then Num gv else Math_max (Num 0) (Math_min (Num 1) v))
           \<and> (threw (applyVolumeMute gv st s) \<longleftrightarrow>
                (case asBoolean (s_isMuted st) of
                   None \<Rightarrow> False
                 | Some b \<Rightarrow> b \<noteq> isMuted (snd (initAudio s))
                     \<and> (if isMuted (snd (initAudio s))
                         then v = NaN \<or> storeMode s = StoreBlocked
                         else storeMode s \<noteq> StoreOk)))"
      unfolding vm s0_def [symmetric]
      using tm s1 by (auto simp: applyMute_def split: option.splits)
  }
qed

lemma applyVolumeMute_mute:
  assumes n: "nodes_inv s" and ok: "fst (initAudio s)"
    and v: "asNumber (s_volume st) = None"
    and b: "asBoolean (s_isMuted st) = Some b" "b \<noteq> isMuted s"
  shows "isMuted (state_of (applyVolumeMute gv st s)) = (\<not> isMuted (snd (initAudio s)))"
    "currentVolume (state_of (applyVolumeMute gv st s))
       = (if \<not> isMuted (snd (initAudio s)) \<and> gv > 0.001 then Num gv
          else currentVolume (snd (initAudio s)))"
    "threw (applyVolumeMute gv st s) \<longleftrightarrow>
       (if isMuted (snd (initAudio s))
        then \<not> is_finite (currentVolume (snd (initAudio s))) \<or> storeMode s = StoreBlocked
        else storeMode s \<noteq> StoreOk)"
proof -
  note g = initialised_after_init [OF n ok]
  note tm = toggleMute_initialised [OF g, of gv]
  have e: "applyVolumeMute gv st s = toggleMute gv (snd (initAudio s))"
    using b by (simp add: applyVolumeMute_def applyVolume_def applyMute_def v
        toggleMute_via_init [symmetric])
  show "isMuted (state_of (applyVolumeMute gv st s)) = (\<not> isMuted (snd (initAudio s)))"
    "currentVolume (state_of (applyVolumeMute gv st s))
       = (if \<not> isMuted (snd (initAudio s)) \<and> gv > 0.001 then Num gv
          else currentVolume (snd (initAudio s)))"
    "threw (applyVolumeMute gv st s) \<longleftrightarrow>
       (if isMuted (snd (initAudio s))
        then \<not> is_finite (currentVolume (snd (initAudio s))) \<or> storeMode s = StoreBlocked
        else storeMode s \<noteq> StoreOk)"
    unfolding e using tm by simp_all
qed


lemma proj_andThen:
  "(\<And>a. g (state_of (F a)) = g a) \<Longrightarrow> g (state_of (andThen X F)) = g (state_of X)"
  by (cases X) simp_all

lemma frame_toggleHeartbeat [simp]:
  "currentVolume (state_of (toggleHeartbeat s)) = currentVolume s"
  "isMuted (state_of (toggleHeartbeat s)) = isMuted s"
  "padOscType (state_of (toggleHeartbeat s)) = padOscType s"
  "padFilterFreq (state_of (toggleHeartbeat s)) = padFilterFreq s"
  "chordSpeedMs (state_of (toggleHeartbeat s)) = chordSpeedMs s"
  "arpeggiatorEnabled (state_of (toggleHeartbeat s)) = arpeggiatorEnabled s"
  "heartbeatEnabled (state_of (toggleHeartbeat s)) = (\<not> heartbeatEnabled s)"
  "isPlaying (state_of (toggleHeartbeat s)) = isPlaying s"
  "audioContext (state_of (toggleHeartbeat s)) = audioContext s"
  using core_eqD [OF core_toggleHeartbeat, of s] by simp_all

lemma frame_toggleArpeggiator [simp]:
  "currentVolume (state_of (toggleArpeggiator s)) = currentVolume s"
  "isMuted (state_of (toggleArpeggiator s)) = isMuted s"
  "padOscType (state_of (toggleArpeggiator s)) = padOscType s"
  "padFilterFreq (state_of (toggleArpeggiator s)) = padFilterFreq s"
  "chordSpeedMs (state_of (toggleArpeggiator s)) = chordSpeedMs s"
  "heartbeatEnabled (state_of (toggleArpeggiator s)) = heartbeatEnabled s"
  "arpeggiatorEnabled (state_of (toggleArpeggiator s)) = (\<not> arpeggiatorEnabled s)"
  using core_eqD [OF core_toggleArpeggiator, of s] by simp_all

lemma applyToggles_frame:
  "currentVolume (state_of (applyToggles st a)) = currentVolume a"
  "isMuted (state_of (applyToggles st a)) = isMuted a"
  "padOscType (state_of (applyToggles st a)) = padOscType a"
  "padFilterFreq (state_of (applyToggles st a)) = padFilterFreq a"
  "chordSpeedMs (state_of (applyToggles st a)) = chordSpeedMs a"
  unfolding applyToggles_def
  by (subst proj_andThen; simp split: option.splits)+

lemma applyToggles_heartbeat:
  "heartbeatEnabled (state_of (applyToggles st a)) =
     (case asBoolean (s_heartbeatEnabled st) of Some b \<Rightarrow> b | None \<Rightarrow> heartbeatEnabled a)"
  unfolding applyToggles_def
  by (subst proj_andThen; auto split: option.splits)

lemma applyToggles_returns:
  assumes "isPlaying a \<longrightarrow> audioContext a \<noteq> None"
  shows "\<not> threw (applyToggles st a)"
    and "arpeggiatorEnabled (state_of (applyToggles st a)) =
     (case asBoolean (s_arpeggiatorEnabled st) of Some b \<Rightarrow> b | None \<Rightarrow> arpeggiatorEnabled a)"
proof -
  let ?X = "case asBoolean (s_heartbeatEnabled st) of
          Some b \<Rightarrow> if b \<noteq> heartbeatEnabled a then toggleHeartbeat a else Returned a
        | None \<Rightarrow> Returned a"
  have x: "\<not> threw ?X"
    using toggleHeartbeat_returns [OF assms] by (simp split: option.splits)
  then obtain a' where a': "?X = Returned a'" by (cases ?X) simp_all
  have "a' = state_of ?X" by (simp add: a')
  then have fr: "isPlaying a' = isPlaying a" "audioContext a' = audioContext a"
     "arpeggiatorEnabled a' = arpeggiatorEnabled a"
    by (simp_all split: option.splits)
  then have h: "isPlaying a' \<longrightarrow> audioContext a' \<noteq> None" using assms by simp
  have eq: "applyToggles st a = (case asBoolean (s_arpeggiatorEnabled st) of
                Some b \<Rightarrow> if b \<noteq> arpeggiatorEnabled a' then toggleArpeggiator a'
                          else Returned a'
              | None \<Rightarrow> Returned a')"
    unfolding applyToggles_def a' by simp
  show "\<not> threw (applyToggles st a)"
    unfolding eq using toggleArpeggiator_returns [OF h] by (simp split: option.splits)
  show "arpeggiatorEnabled (state_of (applyToggles st a)) =
     (case asBoolean (s_arpeggiatorEnabled st) of Some b \<Rightarrow> b | None \<Rightarrow> arpeggiatorEnabled a)"
    unfolding eq using fr by (auto split: option.splits)
qed

lemma setters_frame [simp]:
  "currentVolume (setPadOscillatorType ty s) = currentVolume s"
  "currentVolume (setPadFilterFrequency f s) = currentVolume s"
  "currentVolume (setChordSpeed ms s) = currentVolume s"
  "isMuted (setPadOscillatorType ty s) = isMuted s"
  "isMuted (setPadFilterFrequency f s) = isMuted s"
  "isMuted (setChordSpeed ms s) = isMuted s"
  "padOscType (setPadFilterFrequency f s) = padOscType s"
  "padOscType (setChordSpeed ms s) = padOscType s"
  "padFilterFreq (setPadOscillatorType ty s) = padFilterFreq s"
  "padFilterFreq (setChordSpeed ms s) = padFilterFreq s"
  "chordSpeedMs (setPadOscillatorType ty s) = chordSpeedMs s"
  "chordSpeedMs (setPadFilterFrequency f s) = chordSpeedMs s"
  "padOscType (setPadOscillatorType ty s) = (if ty \<in> set validOscTypes then ty else padOscType s)"
  "padFilterFreq (setPadFilterFrequency f s) = Math_max (Num 100) (Math_min (Num 10000) f)"
  "chordSpeedMs (setChordSpeed ms s) = Math_max (Num 4000) (Math_min (Num 30000) ms)"
  "heartbeatEnabled (setPadOscillatorType ty s) = heartbeatEnabled s"
  "heartbeatEnabled (setPadFilterFrequency f s) = heartbeatEnabled s"
  "heartbeatEnabled (setChordSpeed ms s) = heartbeatEnabled s"
  "arpeggiatorEnabled (setPadOscillatorType ty s) = arpeggiatorEnabled s"
  "arpeggiatorEnabled (setPadFilterFrequency f s) = arpeggiatorEnabled s"
  "arpeggiatorEnabled (setChordSpeed ms s) = arpeggiatorEnabled s"
  "isPlaying (setPadOscillatorType ty s) = isPlaying s"
  "isPlaying (setPadFilterFrequency f s) = isPlaying s"
  "isPlaying (setChordSpeed ms s) = isPlaying s"
  "audioContext (setPadOscillatorType ty s) = audioContext s"
  "audioContext (setPadFilterFrequency f s) = audioContext s"
  "audioContext (setChordSpeed ms s) = audioContext s"
  by (simp_all add: setPadOscillatorType_def setPadFilterFrequency_def setChordSpeed_def)

lemma applyPad_fields:
  "padOscType (applyPad st a) =
     (case asString (s_padOscType st) of
        Some ty \<Rightarrow> if ty \<in> set validOscTypes then ty else padOscType a
      | None \<Rightarrow> padOscType a)"
  "padFilterFreq (applyPad st a) =
     (case asNumber (s_padFilterFreq st) of
        Some f \<Rightarrow> Math_max (Num 100) (Math_min (Num 10000) f) | None \<Rightarrow> padFilterFreq a)"
  "chordSpeedMs (applyPad st a) =
     (case asNumber (s_chordSpeedMs st) of
        Some ms \<Rightarrow> Math_max (Num 4000) (Math_min (Num 30000) ms) | None \<Rightarrow> chordSpeedMs a)"
  "currentVolume (applyPad st a) = currentVolume a"
  "isMuted (applyPad st a) = isMuted a"
  "heartbeatEnabled (applyPad st a) = heartbeatEnabled a"
  "arpeggiatorEnabled (applyPad st a) = arpeggiatorEnabled a"
  "isPlaying (applyPad st a) = isPlaying a"
  "audioContext (applyPad st a) = audioContext a"
  by (simp_all add: applyPad_def Let_def split: option.splits)

lemma applyVolumeMute_frame:
  "padOscType (state_of (applyVolumeMute gv st s)) = padOscType s"
  "padFilterFreq (state_of (applyVolumeMute gv st s)) = padFilterFreq s"
  "chordSpeedMs (state_of (applyVolumeMute gv st s)) = chordSpeedMs s"
  "heartbeatEnabled (state_of (applyVolumeMute gv st s)) = heartbeatEnabled s"
  "arpeggiatorEnabled (state_of (applyVolumeMute gv st s)) = arpeggiatorEnabled s"
  unfolding applyVolumeMute_def
  by (subst proj_andThen; simp add: applyVolume_def applyMute_def split: option.splits)+

lemma nodes_applyVolumeMute:
  assumes "nodes_inv s"
  shows "nodes_inv (state_of (applyVolumeMute gv st s))"
  unfolding applyVolumeMute_def
  by (rule andThen_preserves [where P = nodes_inv])
     (auto simp: assms applyVolume_def applyMute_def nodes_setVolume nodes_toggleMute
        split: option.splits)

lemma applySettings_cases:
  assumes "nodes_inv s"
  shows "threw (applySettings gv (ArgObject st) s) \<longleftrightarrow> threw (applyVolumeMute gv st s)"
    "threw (applyVolumeMute gv st s) \<Longrightarrow>
       state_of (applySettings gv (ArgObject st) s) = state_of (applyVolumeMute gv st s)"
    "\<not> threw (applyVolumeMute gv st s) \<Longrightarrow>
       applySettings gv (ArgObject st) s
         = applyToggles st (applyPad st (state_of (applyVolumeMute gv st s)))"
proof -
  define X where "X = applyVolumeMute gv st s"
  have n: "nodes_inv (state_of X)" unfolding X_def using assms by (rule nodes_applyVolumeMute)
  then have h: "isPlaying (applyPad st (state_of X)) \<longrightarrow> audioContext (applyPad st (state_of X)) \<noteq> None"
    by (simp add: nodes_inv_def applyPad_fields)
  note r = applyToggles_returns(1) [OF h, of st]
  show "threw (applySettings gv (ArgObject st) s) \<longleftrightarrow> threw (applyVolumeMute gv st s)"
    unfolding applySettings_parts X_def [symmetric] using r by (cases X) simp_all
  show "threw (applyVolumeMute gv st s) \<Longrightarrow>
       state_of (applySettings gv (ArgObject st) s) = state_of (applyVolumeMute gv st s)"
    unfolding applySettings_parts X_def [symmetric] by (cases X) simp_all
  show "\<not> threw (applyVolumeMute gv st s) \<Longrightarrow>
       applySettings gv (ArgObject st) s
         = applyToggles st (applyPad st (state_of (applyVolumeMute gv st s)))"
    unfolding applySettings_parts X_def [symmetric] by (cases X) simp_all
qed

lemma applySettings_pad_fields:
  assumes "nodes_inv s"
  shows "padOscType (state_of (applySettings gv (ArgObject st) s)) =
       (if threw (applySettings gv (ArgObject st) s) then padOscType s
        else case asString (s_padOscType st) of
               Some ty \<Rightarrow> if ty \<in> set validOscTypes then ty else padOscType s
             | None \<Rightarrow> padOscType s)"
    "padFilterFreq (state_of (applySettings gv (ArgObject st) s)) =
       (if threw (applySettings gv (ArgObject st) s) then padFilterFreq s
        else case asNumber (s_padFilterFreq st) of
               Some f \<Rightarrow> Math_max (Num 100) (Math_min (Num 10000) f)
             | None \<Rightarrow> padFilterFreq s)"
    "chordSpeedMs (state_of (applySettings gv (ArgObject st) s)) =
       (if threw (applySettings gv (ArgObject st) s) then chordSpeedMs s
        else case asNumber (s_chordSpeedMs st) of
               Some ms \<Rightarrow> Math_max (Num 4000) (Math_min (Num 30000) ms)
             | None \<Rightarrow> chordSpeedMs s)"
    "heartbeatEnabled (state_of (applySettings gv (ArgObject st) s)) =
       (if threw (applySettings gv (ArgObject st) s) then heartbeatEnabled s
        else case asBoolean (s_heartbeatEnabled st) of
               Some b \<Rightarrow> b | None \<Rightarrow> heartbeatEnabled s)"
    "arpeggiatorEnabled (state_of (applySettings gv (ArgObject st) s)) =
       (if threw (applySettings gv (ArgObject st) s) then arpeggiatorEnabled s
        else case asBoolean (s_arpeggiatorEnabled st) of
               Some b \<Rightarrow> b | None \<Rightarrow> arpeggiatorEnabled s)"
    "isMuted (state_of (applySettings gv (ArgObject st) s))
       = isMuted (state_of (applyVolumeMute gv st s))"
    "currentVolume (state_of (applySettings gv (ArgObject st) s))
       = currentVolume (state_of (applyVolumeMute gv st s))"
proof -
  define X where "X = applyVolumeMute gv st s"
  define R where "R = applySettings gv (ArgObject st) s"
  note c = applySettings_cases [OF assms, of gv st, folded X_def R_def]
  have n: "nodes_inv (state_of X)" unfolding X_def using assms by (rule nodes_applyVolumeMute)
  then have h: "isPlaying (applyPad st (state_of X)) \<longrightarrow> audioContext (applyPad st (state_of X)) \<noteq> None"
    by (simp add: nodes_inv_def applyPad_fields)
  note a = applyToggles_returns(2) [OF h, of st]
  note f = applyVolumeMute_frame [of gv st s, folded X_def]
  show "padOscType (state_of R) =
       (if threw R then padOscType s
        else case asString (s_padOscType st) of
               Some ty \<Rightarrow> if ty \<in> set validOscTypes then ty else padOscType s
             | None \<Rightarrow> padOscType s)"
    using c f by (cases "threw X") (simp_all add: applyToggles_frame applyPad_fields split: option.splits)
  show "padFilterFreq (state_of R) =
       (if threw R then padFilterFreq s
        else case asNumber (s_padFilterFreq st) of
               Some f \<Rightarrow> Math_max (Num 100) (Math_min (Num 10000) f)
             | None \<Rightarrow> padFilterFreq s)"
    using c f by (cases "threw X") (simp_all add: applyToggles_frame applyPad_fields split: option.splits)
  show "chordSpeedMs (state_of R) =
       (if threw R then chordSpeedMs s
        else case asNumber (s_chordSpeedMs st) of
               Some ms \<Rightarrow> Math_max (Num 4000) (Math_min (Num 30000) ms)
             | None \<Rightarrow> chordSpeedMs s)"
    using c f by (cases "threw X") (simp_all add: applyToggles_frame applyPad_fields split: option.splits)
  show "heartbeatEnabled (state_of R) =
       (if threw R then heartbeatEnabled s
        else case asBoolean (s_heartbeatEnabled st) of
               Some b \<Rightarrow> b | None \<Rightarrow> heartbeatEnabled s)"
    using c f by (cases "threw X") (simp_all add: applyToggles_heartbeat applyPad_fields split: option.splits)
  show "arpeggiatorEnabled (state_of R) =
       (if threw R then arpeggiatorEnabled s
        else case asBoolean (s_arpeggiatorEnabled st) of
               Some b \<Rightarrow> b | None \<Rightarrow> arpeggiatorEnabled s)"
    using c f a by (cases "threw X") (simp_all add: applyPad_fields split: option.splits)
  show "isMuted (state_of R) = isMuted (state_of X)"
    using c by (cases "threw X") (simp_all add: applyToggles_frame applyPad_fields)
  show "currentVolume (state_of R) = currentVolume (state_of X)"
    using c by (cases "threw X") (simp_all add: applyToggles_frame applyPad_fields)
qed

lemma applyVolumeMute_threw:
  assumes n: "nodes_inv s"
  shows "threw (applyVolumeMute gv st s) \<longleftrightarrow>
     fst (initAudio s)
     \<and> (case asNumber (s_volume st) of
          Some v \<Rightarrow>
            (v = NaN \<and> \<not> isMuted (snd (initAudio s)))
            \<or> (case asBoolean (s_isMuted st) of
                 None \<Rightarrow> False
               | Some b \<Rightarrow> b \<noteq> isMuted (snd (initAudio s))
                   \<and> (if isMuted (snd (initAudio s))
                       then v = NaN \<or> storeMode s = StoreBlocked
                       else storeMode s \<noteq> StoreOk))
        | None \<Rightarrow>
            (case asBoolean (s_isMuted st) of
               None \<Rightarrow> False
             | Some b \<Rightarrow> b \<noteq> isMuted s
                 \<and> (if isMuted (snd (initAudio s))
                     then \<not> is_finite (currentVolume (snd (initAudio s)))
                          \<or> storeMode s = StoreBlocked
                     else storeMode s \<noteq> StoreOk)))"
proof (cases "fst (initAudio s)")
  case False
  show ?thesis
  proof (cases "asNumber (s_volume st) \<noteq> None
     \<or> (asBoolean (s_isMuted st) \<noteq> None \<and> asBoolean (s_isMuted st) \<noteq> Some (isMuted s))")
    case True
    from applyVolumeMute_failed [OF False this, of gv] False show ?thesis by simp
  next
    case f: False
    then have "applyVolumeMute gv st s = Returned s"
      by (intro applyVolumeMute_untouched) auto
    with False show ?thesis by simp
  qed
next
  case ok: True
  show ?thesis
  proof (cases "asNumber (s_volume st)")
    case (Some v)
    show ?thesis
    proof (cases "v = NaN \<and> \<not> isMuted (snd (initAudio s))")
      case True
      from applyVolumeMute_volume(1) [OF n ok Some True, of gv] True ok Some
      show ?thesis by simp
    next
      case False
      then have "v \<noteq> NaN \<or> isMuted (snd (initAudio s))" by blast
      from applyVolumeMute_volume(2) [OF n ok Some this, of gv] False ok Some
      show ?thesis by (auto split: option.splits)
    qed
  next
    case None
    show ?thesis
    proof (cases "asBoolean (s_isMuted st)")
      case nb: None
      then show ?thesis
        using applyVolumeMute_untouched [OF None, of s gv] by (simp add: None)
    next
      case (Some b)
      show ?thesis
      proof (cases "b = isMuted s")
        case True
        then show ?thesis
          using applyVolumeMute_untouched [OF None, of s gv] Some by (simp add: None)
      next
        case False
        from applyVolumeMute_mute(3) [OF n ok None Some False, of gv] False ok
        show ?thesis by (simp add: None Some)
      qed
    qed
  qed
qed


section \<open>Applying a settings object\<close>

text \<open>
  Claim C10, as stated, fails on an engine that has not been initialised, where
  \<^verbatim>\<open>setVolume\<close> and \<^verbatim>\<open>toggleMute\<close> first run \<^verbatim>\<open>initAudio\<close>, which loads the mute flag and the
  volume that \<^verbatim>\<open>localStorage\<close> holds. With \<^verbatim>\<open>ambientMuted\<close> stored as \<^verbatim>\<open>'true'\<close>,
  \<^verbatim>\<open>applySettings({volume: 0.5})\<close> changes \<^verbatim>\<open>isMuted\<close> from false to true though the \<^verbatim>\<open>isMuted\<close>
  field is absent, and \<^verbatim>\<open>applySettings({isMuted: true})\<close> toggles the loaded flag and ends
  with \<^verbatim>\<open>isMuted\<close> false, the field not applied. With \<^verbatim>\<open>ambientVolume\<close> stored as 0.2,
  \<^verbatim>\<open>applySettings({isMuted: true})\<close> changes the volume from 0.7 to 0.2 though the \<^verbatim>\<open>volume\<close>
  field is absent. And on an initialised engine whose \<^verbatim>\<open>localStorage\<close> is full,
  \<^verbatim>\<open>applySettings({isMuted: true, padFilterFreq: 500})\<close> throws from \<^verbatim>\<open>toggleMute\<close>, whose
  \<^verbatim>\<open>setItem\<close> is outside any \<^verbatim>\<open>try\<close>, and the filter frequency stays 2000.
\<close>

theorem applySettings_skipped_fields_change:
  "s_isMuted (only_volume 0.5) = JUndefined
   \<and> isMuted (init_engine True Running (Some ''true'') None) = False
   \<and> isMuted (state_of (applySettings 0 (ArgObject (only_volume 0.5))
                 (init_engine True Running (Some ''true'') None))) = True
   \<and> s_volume (only_muted True) = JUndefined
   \<and> currentVolume (init_engine True Running None (Some (Num 0.2))) = Num 0.7
   \<and> currentVolume (state_of (applySettings 0.2 (ArgObject (only_muted True))
                 (init_engine True Running None (Some (Num 0.2))))) = Num 0.2
   \<and> s_isMuted (only_muted True) = JBool True
   \<and> isMuted (state_of (applySettings 0 (ArgObject (only_muted True))
                 (init_engine True Running (Some ''true'') None))) = False
   \<and> reachable (ready_state\<lparr>storeMode := StoreFull\<rparr>)
   \<and> threw (applySettings 0.7
              (ArgObject ((only_muted True)\<lparr>s_padFilterFreq := JNumber (Num 500)\<rparr>))
              (ready_state\<lparr>storeMode := StoreFull\<rparr>))
   \<and> padFilterFreq (state_of (applySettings 0.7
              (ArgObject ((only_muted True)\<lparr>s_padFilterFreq := JNumber (Num 500)\<rparr>))
              (ready_state\<lparr>storeMode := StoreFull\<rparr>))) = Num 2000"
proof -
  have r: "reachable (ready_state\<lparr>storeMode := StoreFull\<rparr>)"
    unfolding ready_state_def by (rule r_storeMode [OF r_initAudio [OF r_init]])
  show ?thesis
    using r
    by (simp add: applySettings_def only_volume_def only_muted_def Let_def setVolume_def
        toggleMute_def saveVolume_def initAudio_def init_engine_def ready_state_def)
qed

text \<open>
  Claim C10, amended. \<^verbatim>\<open>applySettings\<close> with \<^verbatim>\<open>null\<close> or \<^verbatim>\<open>undefined\<close> returns at once and
  changes nothing. With an object, in every reachable state:

  \<^item> the call throws exactly when \<^verbatim>\<open>setVolume\<close> or \<^verbatim>\<open>toggleMute\<close> does: the audio graph
    initialises and either the volume given is \<^verbatim>\<open>NaN\<close> on an unmuted engine, or the mute
    step toggles and fails (unmuting with a volume that is not finite, or
    \<^verbatim>\<open>localStorage\<close> refusing the write);

  \<^item> each of \<^verbatim>\<open>padOscType\<close>, \<^verbatim>\<open>padFilterFreq\<close>, \<^verbatim>\<open>chordSpeedMs\<close>, \<^verbatim>\<open>heartbeatEnabled\<close> and
    \<^verbatim>\<open>arpeggiatorEnabled\<close> keeps its value when the call throws or its field is absent or
    of the wrong type, and otherwise gets what its setter or toggle stores;

  \<^item> \<^verbatim>\<open>isMuted\<close> and \<^verbatim>\<open>currentVolume\<close> keep their values when the \<^verbatim>\<open>volume\<close> field is skipped
    and the \<^verbatim>\<open>isMuted\<close> field is skipped or equal to the mute flag;

  \<^item> otherwise \<^verbatim>\<open>initAudio\<close> runs first (it changes nothing on an initialised engine and
    loads both from \<^verbatim>\<open>localStorage\<close> on another); if it fails, both stay as it left them;

  \<^item> if it succeeds and a volume is given, \<^verbatim>\<open>isMuted\<close> ends as the boolean given (as
    loaded, if that field is skipped) and \<^verbatim>\<open>currentVolume\<close> as the volume given clamped
    into 0..1, or as the gain's reading if the call mutes the engine and the reading
    exceeds 0.001; only for \<^verbatim>\<open>NaN\<close> on an unmuted engine the volume ends as \<^verbatim>\<open>NaN\<close> and the
    engine unmuted;

  \<^item> if it succeeds and only a differing \<^verbatim>\<open>isMuted\<close> is given, \<^verbatim>\<open>isMuted\<close> ends as the
    negation of the loaded flag and \<^verbatim>\<open>currentVolume\<close> as loaded, or as the gain's reading
    if the call mutes the engine and the reading exceeds 0.001.
\<close>

theorem applySettings_skips_and_applies:
  assumes "reachable s"
  shows "applySettings gv ArgNull s = Returned s
     \<and> applySettings gv ArgUndefined s = Returned s
     \<and> (audioContext s \<noteq> None \<longrightarrow> initAudio s = (True, s))
     \<and> (threw (applySettings gv (ArgObject st) s) \<longleftrightarrow>
     fst (initAudio s)
     \<and> (case asNumber (s_volume st) of
          Some v \<Rightarrow>
            (v = NaN \<and> \<not> isMuted (snd (initAudio s)))
            \<or> (case asBoolean (s_isMuted st) of
                 None \<Rightarrow> False
               | Some b \<Rightarrow> b \<noteq> isMuted (snd (initAudio s))
                   \<and> (if isMuted (snd (initAudio s))
                       then v = NaN \<or> storeMode s = StoreBlocked
                       else storeMode s \<noteq> StoreOk))
        | None \<Rightarrow>
            (case asBoolean (s_isMuted st) of
               None \<Rightarrow> False
             | Some b \<Rightarrow> b \<noteq> isMuted s
                 \<and> (if isMuted (snd (initAudio s))
                     then \<not> is_finite (currentVolume (snd (initAudio s)))
                          \<or> storeMode s = StoreBlocked
                     else storeMode s \<noteq> StoreOk))))
     \<and> padOscType (state_of (applySettings gv (ArgObject st) s)) =
       (if threw (applySettings gv (ArgObject st) s) then padOscType s
        else case asString (s_padOscType st) of
               Some ty \<Rightarrow> if ty \<in> set validOscTypes then ty else padOscType s
             | None \<Rightarrow> padOscType s)
     \<and> padFilterFreq (state_of (applySettings gv (ArgObject st) s)) =
       (if threw (applySettings gv (ArgObject st) s) then padFilterFreq s
        else case asNumber (s_padFilterFreq st) of
               Some f \<Rightarrow> Math_max (Num 100) (Math_min (Num 10000) f)
             | None \<Rightarrow> padFilterFreq s)
     \<and> chordSpeedMs (state_of (applySettings gv (ArgObject st) s)) =
       (if threw (applySettings gv (ArgObject st) s) then chordSpeedMs s
        else case asNumber (s_chordSpeedMs st) of
               Some ms \<Rightarrow> Math_max (Num 4000) (Math_min (Num 30000) ms)
             | None \<Rightarrow> chordSpeedMs s)
     \<and> heartbeatEnabled (state_of (applySettings gv (ArgObject st) s)) =
       (if threw (applySettings gv (ArgObject st) s) then heartbeatEnabled s
        else case asBoolean (s_heartbeatEnabled st) of
               Some b \<Rightarrow> b | None \<Rightarrow> heartbeatEnabled s)
     \<and> arpeggiatorEnabled (state_of (applySettings gv (ArgObject st) s)) =
       (if threw (applySettings gv (ArgObject st) s) then arpeggiatorEnabled s
        else case asBoolean (s_arpeggiatorEnabled st) of
               Some b \<Rightarrow> b | None \<Rightarrow> arpeggiatorEnabled s)
     \<and> (asNumber (s_volume st) = None
        \<and> (asBoolean (s_isMuted st) = None \<or> asBoolean (s_isMuted st) = Some (isMuted s)) \<longrightarrow>
          isMuted (state_of (applySettings gv (ArgObject st) s)) = isMuted s
          \<and> currentVolume (state_of (applySettings gv (ArgObject st) s)) = currentVolume s)
     \<and> ((asNumber (s_volume st) \<noteq> None
         \<or> (asBoolean (s_isMuted st) \<noteq> None \<and> asBoolean (s_isMuted st) \<noteq> Some (isMuted s)))
        \<and> \<not> fst (initAudio s) \<longrightarrow>
          isMuted (state_of (applySettings gv (ArgObject st) s)) = isMuted (snd (initAudio s))
          \<and> currentVolume (state_of (applySettings gv (ArgObject st) s)) = currentVolume (snd (initAudio s)))
     \<and> (case asNumber (s_volume st) of
        None \<Rightarrow> True
      | Some v \<Rightarrow> fst (initAudio s) \<longrightarrow>
          isMuted (state_of (applySettings gv (ArgObject st) s)) =
            (if v = NaN \<and> \<not> isMuted (snd (initAudio s)) then False
             else case asBoolean (s_isMuted st) of
                    Some b \<Rightarrow> b | None \<Rightarrow> isMuted (snd (initAudio s)))
          \<and> currentVolume (state_of (applySettings gv (ArgObject st) s)) =
            (if asBoolean (s_isMuted st) = Some True \<and> \<not> isMuted (snd (initAudio s))
                \<and> v \<noteq> NaN \<and> gv > 0.001
             then Num gv else Math_max (Num 0) (Math_min (Num 1) v)))
     \<and> (asNumber (s_volume st) = None \<and> asBoolean (s_isMuted st) = Some (\<not> isMuted s)
        \<and> fst (initAudio s) \<longrightarrow>
          isMuted (state_of (applySettings gv (ArgObject st) s)) = (\<not> isMuted (snd (initAudio s)))
          \<and> currentVolume (state_of (applySettings gv (ArgObject st) s)) =
            (if \<not> isMuted (snd (initAudio s)) \<and> gv > 0.001 then Num gv
             else currentVolume (snd (initAudio s))))"
proof -
  have n: "nodes_inv s" using assms reachable_inv by blast
  note vm = applySettings_pad_fields(6,7) [OF n, of gv st]
  have c1: "applySettings gv ArgNull s = Returned s"
    by (simp add: applySettings_def)
  have c2: "applySettings gv ArgUndefined s = Returned s"
    by (simp add: applySettings_def)
  have c3: "(audioContext s \<noteq> None \<longrightarrow> initAudio s = (True, s))"
    by simp
  have c4: "(threw (applySettings gv (ArgObject st) s) \<longleftrightarrow>
     fst (initAudio s)
     \<and> (case asNumber (s_volume st) of
          Some v \<Rightarrow>
            (v = NaN \<and> \<not> isMuted (snd (initAudio s)))
            \<or> (case asBoolean (s_isMuted st) of
                 None \<Rightarrow> False
               | Some b \<Rightarrow> b \<noteq> isMuted (snd (initAudio s))
                   \<and> (if isMuted (snd (initAudio s))
                       then v = NaN \<or> storeMode s = StoreBlocked
                       else storeMode s \<noteq> StoreOk))
        | None \<Rightarrow>
            (case asBoolean (s_isMuted st) of
               None \<Rightarrow> False
             | Some b \<Rightarrow> b \<noteq> isMuted s
                 \<and> (if isMuted (snd (initAudio s))
                     then \<not> is_finite (currentVolume (snd (initAudio s)))
                          \<or> storeMode s = StoreBlocked
                     else storeMode s \<noteq> StoreOk))))"
    unfolding applySettings_cases(1) [OF n] by (rule applyVolumeMute_threw [OF n])
  have c5: "padOscType (state_of (applySettings gv (ArgObject st) s)) =
       (if threw (applySettings gv (ArgObject st) s) then padOscType s
        else case asString (s_padOscType st) of
               Some ty \<Rightarrow> if ty \<in> set validOscTypes then ty else padOscType s
             | None \<Rightarrow> padOscType s)"
    by (rule applySettings_pad_fields(1) [OF n])
  have c6: "padFilterFreq (state_of (applySettings gv (ArgObject st) s)) =
       (if threw (applySettings gv (ArgObject st) s) then padFilterFreq s
        else case asNumber (s_padFilterFreq st) of
               Some f \<Rightarrow> Math_max (Num 100) (Math_min (Num 10000) f)
             | None \<Rightarrow> padFilterFreq s)"
    by (rule applySettings_pad_fields(2) [OF n])
  have c7: "chordSpeedMs (state_of (applySettings gv (ArgObject st) s)) =
       (if threw (applySettings gv (ArgObject st) s) then chordSpeedMs s
        else case asNumber (s_chordSpeedMs st) of
               Some ms \<Rightarrow> Math_max (Num 4000) (Math_min (Num 30000) ms)
             | None \<Rightarrow> chordSpeedMs s)"
    by (rule applySettings_pad_fields(3) [OF n])
  have c8: "heartbeatEnabled (state_of (applySettings gv (ArgObject st) s)) =
       (if threw (applySettings gv (ArgObject st) s) then heartbeatEnabled s
        else case asBoolean (s_heartbeatEnabled st) of
               Some b \<Rightarrow> b | None \<Rightarrow> heartbeatEnabled s)"
    by (rule applySettings_pad_fields(4) [OF n])
  have c9: "arpeggiatorEnabled (state_of (applySettings gv (ArgObject st) s)) =
       (if threw (applySettings gv (ArgObject st) s) then arpeggiatorEnabled s
        else case asBoolean (s_arpeggiatorEnabled st) of
               Some b \<Rightarrow> b | None \<Rightarrow> arpeggiatorEnabled s)"
    by (rule applySettings_pad_fields(5) [OF n])
  have c10: "(asNumber (s_volume st) = None
        \<and> (asBoolean (s_isMuted st) = None \<or> asBoolean (s_isMuted st) = Some (isMuted s)) \<longrightarrow>
          isMuted (state_of (applySettings gv (ArgObject st) s)) = isMuted s
          \<and> currentVolume (state_of (applySettings gv (ArgObject st) s)) = currentVolume s)"
    unfolding vm using applyVolumeMute_untouched [of st s gv] by auto
  have c11: "((asNumber (s_volume st) \<noteq> None
         \<or> (asBoolean (s_isMuted st) \<noteq> None \<and> asBoolean (s_isMuted st) \<noteq> Some (isMuted s)))
        \<and> \<not> fst (initAudio s) \<longrightarrow>
          isMuted (state_of (applySettings gv (ArgObject st) s)) = isMuted (snd (initAudio s))
          \<and> currentVolume (state_of (applySettings gv (ArgObject st) s)) = currentVolume (snd (initAudio s)))"
    unfolding vm using applyVolumeMute_failed [of s st gv] by auto
  have c12: "(case asNumber (s_volume st) of
        None \<Rightarrow> True
      | Some v \<Rightarrow> fst (initAudio s) \<longrightarrow>
          isMuted (state_of (applySettings gv (ArgObject st) s)) =
            (if v = NaN \<and> \<not> isMuted (snd (initAudio s)) then False
             else case asBoolean (s_isMuted st) of
                    Some b \<Rightarrow> b | None \<Rightarrow> isMuted (snd (initAudio s)))
          \<and> currentVolume (state_of (applySettings gv (ArgObject st) s)) =
            (if asBoolean (s_isMuted st) = Some True \<and> \<not> isMuted (snd (initAudio s))
                \<and> v \<noteq> NaN \<and> gv > 0.001
             then Num gv else Math_max (Num 0) (Math_min (Num 1) v)))"
    proof (cases "asNumber (s_volume st)")
    case None
    then show ?thesis by simp
  next
    case (Some v)
    show ?thesis
    proof (cases "fst (initAudio s)")
      case False
      then show ?thesis by (simp add: Some)
    next
      case ok: True
      show ?thesis
      proof (cases "v = NaN \<and> \<not> isMuted (snd (initAudio s))")
        case True
        from applyVolumeMute_volume(1) [OF n ok Some True, of gv] True
        show ?thesis unfolding vm by (simp add: Some)
      next
        case False
        then have "v \<noteq> NaN \<or> isMuted (snd (initAudio s))" by blast
        from applyVolumeMute_volume(2) [OF n ok Some this, of gv] False
        show ?thesis unfolding vm by (auto simp: Some)
      qed
    qed
  qed
  have c13: "(asNumber (s_volume st) = None \<and> asBoolean (s_isMuted st) = Some (\<not> isMuted s)
        \<and> fst (initAudio s) \<longrightarrow>
          isMuted (state_of (applySettings gv (ArgObject st) s)) = (\<not> isMuted (snd (initAudio s)))
          \<and> currentVolume (state_of (applySettings gv (ArgObject st) s)) =
            (if \<not> isMuted (snd (initAudio s)) \<and> gv > 0.001 then Num gv
             else currentVolume (snd (initAudio s))))"
    proof
    assume a: "asNumber (s_volume st) = None \<and> asBoolean (s_isMuted st) = Some (\<not> isMuted s)
        \<and> fst (initAudio s)"
    then have a': "asNumber (s_volume st) = None" "asBoolean (s_isMuted st) = Some (\<not> isMuted s)"
      "fst (initAudio s)" "(\<not> isMuted s) \<noteq> isMuted s"
      by simp_all
    from applyVolumeMute_mute(1,2) [OF n a'(3) a'(1) a'(2) a'(4), of gv]
    show "isMuted (state_of (applySettings gv (ArgObject st) s)) = (\<not> isMuted (snd (initAudio s)))
          \<and> currentVolume (state_of (applySettings gv (ArgObject st) s)) =
            (if \<not> isMuted (snd (initAudio s)) \<and> gv > 0.001 then Num gv
             else currentVolume (snd (initAudio s)))"
      unfolding vm by simp
  qed
  show ?thesis
    using c1 c2 c3 c4 c5 c6 c7 c8 c9 c10 c11 c12 c13 by blast
qed

theorem applySettings_skips_and_applies_witness:
  "reachable ready_state
   \<and> \<not> threw (applySettings 0.7 (ArgObject saved_preset) ready_state)
   \<and> currentVolume (state_of (applySettings 0.7 (ArgObject saved_preset) ready_state)) = Num 0.45
   \<and> \<not> isMuted (state_of (applySettings 0.7 (ArgObject saved_preset) ready_state))
   \<and> padOscType (state_of (applySettings 0.7 (ArgObject saved_preset) ready_state)) = ''triangle''
   \<and> padFilterFreq (state_of (applySettings 0.7 (ArgObject saved_preset) ready_state)) = Num 900
   \<and> chordSpeedMs (state_of (applySettings 0.7 (ArgObject saved_preset) ready_state)) = Num 30000
   \<and> heartbeatEnabled (state_of (applySettings 0.7 (ArgObject saved_preset) ready_state))
   \<and> \<not> arpeggiatorEnabled (state_of (applySettings 0.7 (ArgObject saved_preset) ready_state))"
proof -
  have r: "reachable ready_state"
    unfolding ready_state_def by (rule r_initAudio [OF r_init])
  show ?thesis
    using r applySettings_skips_and_applies [OF r, of "0.7" saved_preset]
    by (simp add: ready_state_def saved_preset_def initAudio_def init_engine_def
        validOscTypes_def)
qed

section \<open>The parameter setters\<close>

text \<open>What the setters do with a number other than \<^verbatim>\<open>NaN\<close>, and \<^verbatim>\<open>setPadOscillatorType\<close>
  with any string: every value stored is within its range.\<close>

lemma setters_clamp_numbers:
  "x \<noteq> NaN \<Longrightarrow> in_range 100 10000 (padFilterFreq (setPadFilterFrequency x s))"
  "x \<noteq> NaN \<Longrightarrow> in_range 4000 30000 (chordSpeedMs (setChordSpeed x s))"
  "padFilterFreq (setPadFilterFrequency (Num r) s) = Num (max 100 (min 10000 r))"
  "chordSpeedMs (setChordSpeed (Num r) s) = Num (max 4000 (min 30000 r))"
  "padFilterFreq (setPadFilterFrequency (Num (- 5)) s) = Num 100"
  "padFilterFreq (setPadFilterFrequency (Num 999999) s) = Num 10000"
  "chordSpeedMs (setChordSpeed (Num 1) s) = Num 4000"
  "chordSpeedMs (setChordSpeed (Num 999999) s) = Num 30000"
  "padFilterFreq (setPadFilterFrequency Infinity s) = Num 10000"
  "chordSpeedMs (setChordSpeed NegInfinity s) = Num 4000"
  using clamp_cases [of 100 10000 x] clamp_cases [of 4000 30000 x]
  by (simp_all add: setPadFilterFrequency_def setChordSpeed_def)

lemma setVolume_clamps_numbers:
  assumes "nodes_inv s" "fst (initAudio s)" "v \<noteq> NaN"
  shows "\<not> threw (setVolume v s)"
    "currentVolume (state_of (setVolume v s)) = Math_max (Num 0) (Math_min (Num 1) v)"
    "in_range 0 1 (currentVolume (state_of (setVolume v s)))"
proof -
  note g = initialised_after_init [OF assms(1,2)]
  note sv = setVolume_initialised [OF g, of v, folded setVolume_via_init]
  show "\<not> threw (setVolume v s)" using sv(1) assms(3) by simp
  show c: "currentVolume (state_of (setVolume v s)) = Math_max (Num 0) (Math_min (Num 1) v)"
    using sv(2) by simp
  show "in_range 0 1 (currentVolume (state_of (setVolume v s)))"
    unfolding c using clamp_cases [of 0 1 v] assms(3) by simp
qed

lemma setPadOscillatorType_validates:
  "set validOscTypes = {''sine'', ''triangle'', ''square'', ''sawtooth''}"
  "padOscType (setPadOscillatorType ty s) = (if ty \<in> set validOscTypes then ty else padOscType s)"
  "consoleWarn (setPadOscillatorType ty s) =
        (if ty \<in> set validOscTypes then consoleWarn s
         else consoleWarn s @ [''Ambient Audio: Invalid oscillator type - '' @ ty])"
  by (auto simp: validOscTypes_def setPadOscillatorType_def)

text \<open>
  Claim C7 fails on \<^verbatim>\<open>NaN\<close>. \<^verbatim>\<open>Math.max(100, Math.min(10000, Number(freq)))\<close> is \<^verbatim>\<open>NaN\<close> when
  \<^verbatim>\<open>Number(freq)\<close> is, which it is for \<^verbatim>\<open>NaN\<close>, \<^verbatim>\<open>undefined\<close> and a string such as
  \<^verbatim>\<open>'abc'\<close>: in every state \<^verbatim>\<open>setPadFilterFrequency(NaN)\<close> stores \<^verbatim>\<open>NaN\<close> as the pad filter
  frequency and \<^verbatim>\<open>setChordSpeed(NaN)\<close> stores \<^verbatim>\<open>NaN\<close> as the chord speed, neither within its
  range; and on an initialised, unmuted engine \<^verbatim>\<open>setVolume(NaN)\<close> stores \<^verbatim>\<open>NaN\<close> as the volume,
  outside 0..1, and then throws from \<^verbatim>\<open>setTargetAtTime\<close>.
\<close>

theorem setters_store_NaN:
  "padFilterFreq (setPadFilterFrequency NaN s) = NaN
   \<and> \<not> in_range 100 10000 (padFilterFreq (setPadFilterFrequency NaN s))
   \<and> chordSpeedMs (setChordSpeed NaN s) = NaN
   \<and> \<not> in_range 4000 30000 (chordSpeedMs (setChordSpeed NaN s))
   \<and> audioContext ready_state \<noteq> None \<and> \<not> isMuted ready_state
   \<and> currentVolume (state_of (setVolume NaN ready_state)) = NaN
   \<and> \<not> in_range 0 1 (currentVolume (state_of (setVolume NaN ready_state)))
   \<and> threw (setVolume NaN ready_state)"
  by (simp add: setPadFilterFrequency_def setChordSpeed_def setVolume_def ready_state_def
      initAudio_def init_engine_def Let_def)

theorem setters_store_NaN_witness:
  "padFilterFreq (setPadFilterFrequency NaN ready_state) = NaN
   \<and> chordSpeedMs (setChordSpeed NaN ready_state) = NaN
   \<and> currentVolume (state_of (setVolume NaN ready_state)) = NaN"
  using setters_store_NaN [of ready_state] by simp

section \<open>Settings round trip\<close>

lemma initAudio_failed_muted:
  "params_inv s \<Longrightarrow> \<not> fst (initAudio s) \<Longrightarrow> isMuted (snd (initAudio s)) = isMuted s"
  by (auto simp: initAudio_def params_inv_def Let_def split: if_splits jsnum.splits option.splits)

lemma muted_initialised: "params_inv s \<Longrightarrow> isMuted s \<Longrightarrow> snd (initAudio s) = s"
  by (simp add: params_inv_def)

text \<open>\<^verbatim>\<open>applySettings(getSettings())\<close> leaves the seven settings as they were in every
  reachable state whose volume is in 0..1 or
  \<^verbatim>\<open>NaN\<close>, unless the audio graph is still to be initialised and the initialisation fails
  after loading another volume from \<^verbatim>\<open>localStorage\<close>.\<close>

lemma settings_round_trip_clamped:
  assumes r: "reachable s"
    and v: "currentVolume s = NaN \<or> in_range 0 1 (currentVolume s)"
    and i: "fst (initAudio s) \<or> currentVolume (snd (initAudio s)) = currentVolume s"
  shows "currentVolume (state_of (applySettings gv (ArgObject (getSettings s)) s)) = currentVolume s"
    "isMuted (state_of (applySettings gv (ArgObject (getSettings s)) s)) = isMuted s"
    "padOscType (state_of (applySettings gv (ArgObject (getSettings s)) s)) = padOscType s"
    "padFilterFreq (state_of (applySettings gv (ArgObject (getSettings s)) s)) = padFilterFreq s"
    "chordSpeedMs (state_of (applySettings gv (ArgObject (getSettings s)) s)) = chordSpeedMs s"
    "heartbeatEnabled (state_of (applySettings gv (ArgObject (getSettings s)) s)) = heartbeatEnabled s"
    "arpeggiatorEnabled (state_of (applySettings gv (ArgObject (getSettings s)) s)) = arpeggiatorEnabled s"
    "getSettings (state_of (applySettings gv (ArgObject (getSettings s)) s)) = getSettings s"
proof -
  have n: "nodes_inv s" and p: "params_inv s" using r reachable_inv by blast+
  define st where "st = getSettings s"
  have st: "asNumber (s_volume st) = Some (currentVolume s)"
    "asBoolean (s_isMuted st) = Some (isMuted s)"
    "asString (s_padOscType st) = Some (padOscType s)"
    "asNumber (s_padFilterFreq st) = Some (padFilterFreq s)"
    "asNumber (s_chordSpeedMs st) = Some (chordSpeedMs s)"
    "asBoolean (s_heartbeatEnabled st) = Some (heartbeatEnabled s)"
    "asBoolean (s_arpeggiatorEnabled st) = Some (arpeggiatorEnabled s)"
    by (simp_all add: st_def getSettings_def)
  note f = applySettings_pad_fields [OF n, of gv st]
  have cl: "Math_max (Num 100) (Math_min (Num 10000) (padFilterFreq s)) = padFilterFreq s"
    "Math_max (Num 4000) (Math_min (Num 30000) (chordSpeedMs s)) = chordSpeedMs s"
    "Math_max (Num 0) (Math_min (Num 1) (currentVolume s)) = currentVolume s"
    using p v by (auto simp: params_inv_def clamp_in_range)
  have m: "isMuted s \<Longrightarrow> isMuted (snd (initAudio s))"
    using muted_initialised [OF p] by simp
  have vm: "isMuted (state_of (applyVolumeMute gv st s)) = isMuted s
            \<and> currentVolume (state_of (applyVolumeMute gv st s)) = currentVolume s"
  proof (cases "fst (initAudio s)")
    case False
    have "applyVolumeMute gv st s = Returned (snd (initAudio s))"
      by (rule applyVolumeMute_failed [OF False]) (simp add: st)
    then show ?thesis
      using initAudio_failed_muted [OF p False] i False by simp
  next
    case ok: True
    show ?thesis
    proof (cases "currentVolume s = NaN \<and> \<not> isMuted (snd (initAudio s))")
      case True
      from applyVolumeMute_volume(1) [OF n ok st(1) True, of gv] True m
      show ?thesis by auto
    next
      case False
      then have "currentVolume s \<noteq> NaN \<or> isMuted (snd (initAudio s))" by blast
      from applyVolumeMute_volume(2) [OF n ok st(1) this, of gv] m
      show ?thesis by (auto simp: st cl)
    qed
  qed
  show 1: "currentVolume (state_of (applySettings gv (ArgObject (getSettings s)) s)) = currentVolume s"
    unfolding st_def [symmetric] f(7) using vm by simp
  show 2: "isMuted (state_of (applySettings gv (ArgObject (getSettings s)) s)) = isMuted s"
    unfolding st_def [symmetric] f(6) using vm by simp
  show 3: "padOscType (state_of (applySettings gv (ArgObject (getSettings s)) s)) = padOscType s"
    unfolding st_def [symmetric] f(1) by (simp add: st)
  show 4: "padFilterFreq (state_of (applySettings gv (ArgObject (getSettings s)) s)) = padFilterFreq s"
    unfolding st_def [symmetric] f(2) by (simp add: st cl)
  show 5: "chordSpeedMs (state_of (applySettings gv (ArgObject (getSettings s)) s)) = chordSpeedMs s"
    unfolding st_def [symmetric] f(3) by (simp add: st cl)
  show 6: "heartbeatEnabled (state_of (applySettings gv (ArgObject (getSettings s)) s)) = heartbeatEnabled s"
    unfolding st_def [symmetric] f(4) by (simp add: st)
  show 7: "arpeggiatorEnabled (state_of (applySettings gv (ArgObject (getSettings s)) s)) = arpeggiatorEnabled s"
    unfolding st_def [symmetric] f(5) by (simp add: st)
  show "getSettings (state_of (applySettings gv (ArgObject (getSettings s)) s)) = getSettings s"
    using 1 2 3 4 5 6 7 by (simp add: getSettings_def)
qed

text \<open>
  Claim C6 fails on a volume loaded from \<^verbatim>\<open>localStorage\<close>. \<^verbatim>\<open>initAudio\<close> stores
  \<^verbatim>\<open>parseFloat(savedVolume)\<close> as it is, while \<^verbatim>\<open>setVolume\<close> clamps into 0..1: with
  \<^verbatim>\<open>ambientVolume\<close> stored as 5, the engine initialised by \<^verbatim>\<open>initAudio()\<close> is reachable and has
  the volume 5, \<^verbatim>\<open>getSettings()\<close> reports the volume 5, and \<^verbatim>\<open>applySettings(getSettings())\<close>
  returns with the volume 1.
\<close>

theorem round_trip_changes_loaded_volume:
  "reachable loaded_state
   \<and> currentVolume loaded_state = Num 5
   \<and> s_volume (getSettings loaded_state) = JNumber (Num 5)
   \<and> \<not> threw (applySettings 5 (ArgObject (getSettings loaded_state)) loaded_state)
   \<and> currentVolume (state_of (applySettings 5 (ArgObject (getSettings loaded_state)) loaded_state))
       = Num 1"
proof -
  have r: "reachable loaded_state"
    unfolding loaded_state_def by (rule r_initAudio [OF r_init])
  have n: "nodes_inv loaded_state" using r reachable_inv by blast
  have l: "audioContext loaded_state \<noteq> None" "\<not> isMuted loaded_state"
    "currentVolume loaded_state = Num 5" "storeMode loaded_state = StoreOk"
    by (simp_all add: loaded_state_def initAudio_def init_engine_def Let_def)
  have st: "asNumber (s_volume (getSettings loaded_state)) = Some (Num 5)"
    "asBoolean (s_isMuted (getSettings loaded_state)) = Some False"
    using l by (simp_all add: getSettings_def)
  have i: "initAudio loaded_state = (True, loaded_state)" using l(1) by simp
  then have ok: "fst (initAudio loaded_state)" by simp
  have "Num 5 \<noteq> NaN \<or> isMuted (snd (initAudio loaded_state))" by simp
  note a = applyVolumeMute_volume(2) [OF n ok st(1) this, of 5]
  note f = applySettings_pad_fields(7) [OF n, of 5 "getSettings loaded_state"]
  note c = applySettings_cases(1) [OF n, of 5 "getSettings loaded_state"]
  have t: "\<not> threw (applySettings 5 (ArgObject (getSettings loaded_state)) loaded_state)"
    unfolding c using a by (simp add: st i l)
  have v: "currentVolume (state_of (applySettings 5 (ArgObject (getSettings loaded_state))
      loaded_state)) = Num 1"
    unfolding f using a by (simp add: st i l)
  show ?thesis using r l t v by (simp add: getSettings_def)
qed

theorem round_trip_changes_loaded_volume_witness:
  "currentVolume (state_of (applySettings 5 (ArgObject (getSettings loaded_state)) loaded_state))
     = Num 1
   \<and> currentVolume loaded_state = Num 5"
  using round_trip_changes_loaded_volume by simp

end
